(* ===== verification/Prelude.thy ===== *)
theory Prelude
  imports Main "HOL-Library.Word" "HOL-Library.Sublist" "HOL-Library.Char_ord" "HOL-Library.List_Lexorder"
begin

text \<open>
  What every theory of the development shares: the names of the machine types of the Go code,
  errors as values with the wrapping of \<^verbatim>\<open>fmt.Errorf("...%w")\<close> and the search of
  \<^verbatim>\<open>errors.Is\<close>, positional digit strings (from which the fixed-width byte orders, the
  hexadecimal and the decimal strings of the standard library are built), loops over
  \<^verbatim>\<open>uint64\<close> ranges, and the list, word and order lemmas the components use.
\<close>

section \<open>Machine types\<close>

text \<open>
  \<^verbatim>\<open>byte\<close> and \<^verbatim>\<open>uint64\<close> keep their width. A Go slice is a list: a nil slice and an empty
  one are the same list wherever the code reads a slice through \<^verbatim>\<open>len\<close>, \<^verbatim>\<open>range\<close>,
  \<^verbatim>\<open>append\<close> or \<^verbatim>\<open>bytes.Equal\<close>; where the code compares with nil the model uses an
  option. A \<^verbatim>\<open>time.Time\<close> is the number of nanoseconds from the Unix epoch, an unbounded
  integer because its range exceeds 64 bits.
\<close>

type_synonym byte = "8 word"
type_synonym bytes = "byte list"
type_synonym u64 = "64 word"
type_synonym gotime = int

named_theorems go_simps \<open>unfolding rules of the model's operations\<close>
named_theorems inv_intros \<open>preservation of the components' invariants\<close>

definition zero_time :: gotime where
  "zero_time = - 62135596800000000000"

text \<open>\<^verbatim>\<open>time.Unix(0, int64(x))\<close> and \<^verbatim>\<open>uint64(t.UnixNano())\<close>: both go through the two's
  complement reading of a 64-bit value.\<close>

definition time_of_u64 :: "u64 \<Rightarrow> gotime" where
  "time_of_u64 w = sint w"

definition unix_nano :: "gotime \<Rightarrow> int" where
  "unix_nano t = sint (word_of_int t :: u64)"

definition millisecond :: int where
  "millisecond = 1000000"

section \<open>Errors\<close>

text \<open>
  The sentinel errors of the code are constructors; \<^verbatim>\<open>Wrap\<close> is \<^verbatim>\<open>fmt.Errorf("msg: %w", err)\<close>
  and \<^verbatim>\<open>Msg\<close> an error that wraps nothing (\<^verbatim>\<open>errors.New\<close>, \<^verbatim>\<open>fmt.Errorf\<close> without
  \<^verbatim>\<open>%w\<close>). Numbers and identifiers formatted into a message are left out of it.
\<close>

datatype sentinel =
    ErrQueueFull | ErrInvalidId | ErrNoBatch | ErrNoTransactionsInBatch | ErrNotFound
  | ErrHeightFromFuture | ErrForceInclusionNotConfigured | ErrCheckpointNotFound
  | ErrNoProposerAddress | ErrProposerVerificationFailed | ErrInvalidTimestamp
  | ErrLastHeaderHashMismatch | ErrSignatureVerificationFailed | ErrProposerAddressMismatch
  | ErrSignatureEmpty | ErrNotProposer | ErrOversizedItem | ErrInFlightHeader | ErrInFlightData
  | ErrInvalidBlock | ErrInvalidState | ErrMaliciousProposer | ErrCanceled | ErrDeadlineExceeded

datatype goerr = Sentinel sentinel | Msg string | Wrap string goerr

type_synonym 'a result = "goerr + 'a"

primrec errors_is :: "goerr \<Rightarrow> sentinel \<Rightarrow> bool" where
  "errors_is (Sentinel t) s = (t = s)"
| "errors_is (Msg m) s = False"
| "errors_is (Wrap m e) s = errors_is e s"

lemma errors_is_unique: "errors_is e s \<Longrightarrow> errors_is e t \<Longrightarrow> s = t"
  by (induction e) auto

definition is_ok :: "'a result \<Rightarrow> bool" where
  "is_ok r = (case r of Inl _ \<Rightarrow> False | Inr _ \<Rightarrow> True)"

lemma is_ok_simps [simp]: "is_ok (Inr x)" "\<not> is_ok (Inl e)"
  by (simp_all add: is_ok_def)

section \<open>Positional digits\<close>

text \<open>\<^term>\<open>to_digits b n v\<close> is the value \<open>v\<close> in base \<open>b\<close> with exactly \<open>n\<close> digits, most
  significant first; \<^term>\<open>of_digits b ds\<close> reads such a list back.\<close>

primrec to_digits :: "nat \<Rightarrow> nat \<Rightarrow> nat \<Rightarrow> nat list" where
  "to_digits b 0 v = []"
| "to_digits b (Suc n) v = to_digits b n (v div b) @ [v mod b]"

definition of_digits :: "nat \<Rightarrow> nat list \<Rightarrow> nat" where
  "of_digits b ds = foldl (\<lambda>acc d. acc * b + d) 0 ds"

lemma of_digits_Nil [simp]: "of_digits b [] = 0"
  by (simp add: of_digits_def)

lemma of_digits_snoc [simp]: "of_digits b (ds @ [d]) = of_digits b ds * b + d"
  by (simp add: of_digits_def)

lemma length_to_digits [simp]: "length (to_digits b n v) = n"
  by (induction n arbitrary: v) auto

lemma to_digits_bound: "0 < b \<Longrightarrow> d \<in> set (to_digits b n v) \<Longrightarrow> d < b"
  by (induction n arbitrary: v) auto

lemma of_to_digits: "of_digits b (to_digits b n v) = v mod b ^ n"
proof (induction n arbitrary: v)
  case 0
  then show ?case by simp
next
  case (Suc n)
  have "v div b mod b ^ n * b + v mod b = v mod (b * b ^ n)"
    by (simp add: mod_mult2_eq mult.commute)
  then show ?case using Suc by simp
qed

lemma of_to_digits_id [simp]: "v < b ^ n \<Longrightarrow> of_digits b (to_digits b n v) = v"
  by (simp add: of_to_digits)

lemma of_digits_less: "\<forall>d \<in> set ds. d < b \<Longrightarrow> of_digits b ds < b ^ length ds"
proof (induction ds rule: rev_induct)
  case Nil
  then show ?case by simp
next
  case (snoc d ds)
  then have "of_digits b ds + 1 \<le> b ^ length ds" and "d < b" by auto
  then have "(of_digits b ds + 1) * b \<le> b ^ length ds * b"
    by (intro mult_le_mono1)
  with \<open>d < b\<close> show ?case by (simp add: algebra_simps)
qed

lemma to_of_digits [simp]:
  "\<forall>d \<in> set ds. d < b \<Longrightarrow> n = length ds \<Longrightarrow> to_digits b n (of_digits b ds) = ds"
proof (induction ds arbitrary: n rule: rev_induct)
  case Nil
  then show ?case by simp
next
  case (snoc d ds)
  then show ?case by simp
qed

lemma to_digits_inject:
  "v < b ^ n \<Longrightarrow> w < b ^ n \<Longrightarrow> to_digits b n v = to_digits b n w \<longleftrightarrow> v = w"
  by (metis of_to_digits_id)

lemma to_digits_add:
  "0 < b \<Longrightarrow> to_digits b (m + n) v = to_digits b m (v div b ^ n) @ to_digits b n v"
proof (induction n arbitrary: v)
  case 0
  then show ?case by simp
next
  case (Suc n)
  then show ?case by (simp add: div_mult2_eq mult.commute)
qed

text \<open>Fixed-width digit strings are ordered lexicographically as their values are.\<close>

lemma to_digits_less_iff:
  "v < b ^ n \<Longrightarrow> w < b ^ n \<Longrightarrow> to_digits b n v < to_digits b n w \<longleftrightarrow> v < w"
proof (induction n arbitrary: v w)
  case 0
  then show ?case by (simp add: list_less_def)
next
  case (Suc n)
  then have b: "0 < b" by (cases b) auto
  have vb: "v div b < b ^ n" and wb: "w div b < b ^ n"
    using Suc.prems b by (simp_all add: div_less_iff_less_mult mult.commute)
  have IH: "to_digits b n (v div b) < to_digits b n (w div b) \<longleftrightarrow> v div b < w div b"
    by (rule Suc.IH [OF vb wb])
  have eq: "to_digits b n (v div b) = to_digits b n (w div b) \<longleftrightarrow> v div b = w div b"
    by (rule to_digits_inject [OF vb wb])
  have split: "v < w \<longleftrightarrow> v div b < w div b \<or> v div b = w div b \<and> v mod b < w mod b"
  proof -
    have v: "v = v div b * b + v mod b" and w: "w = w div b * b + w mod b" by simp_all
    have bm: "v mod b < b" "w mod b < b" using b by simp_all
    have "v < w" if "v div b < w div b"
    proof -
      have "(v div b + 1) * b \<le> w div b * b"
        using that by (intro mult_le_mono1) simp
      then have "v div b * b + b \<le> w div b * b" by simp
      then show ?thesis using bm v w by linarith
    qed
    moreover have "w < v" if "w div b < v div b"
    proof -
      have "(w div b + 1) * b \<le> v div b * b"
        using that by (intro mult_le_mono1) simp
      then have "w div b * b + b \<le> v div b * b" by simp
      then show ?thesis using bm v w by linarith
    qed
    moreover have "v < w \<longleftrightarrow> v mod b < w mod b" if "v div b = w div b"
      using that v w by (metis nat_add_left_cancel_less)
    ultimately show ?thesis by (metis linorder_neqE_nat not_less_iff_gr_or_eq)
  qed
  have app: "xs @ [x] < ys @ [y] \<longleftrightarrow> xs < ys \<or> xs = ys \<and> x < y"
    if "length xs = length ys" for xs ys :: "nat list" and x y
    using that unfolding list_less_def
    by (induction xs ys rule: list_induct2) auto
  show ?case
    using app [of "to_digits b n (v div b)" "to_digits b n (w div b)"] IH eq split by simp
qed

section \<open>Byte orders, hexadecimal and decimal strings\<close>

text \<open>\<^verbatim>\<open>binary.BigEndian\<close> and \<^verbatim>\<open>binary.LittleEndian\<close> on \<^verbatim>\<open>uint64\<close>. Reading takes the
  first eight bytes, as the Go functions do; callers guarantee that they are there.\<close>

definition put_be64 :: "u64 \<Rightarrow> bytes" where
  "put_be64 w = map of_nat (to_digits 256 8 (unat w))"

definition get_be64 :: "bytes \<Rightarrow> u64" where
  "get_be64 bs = of_nat (of_digits 256 (map unat (take 8 bs)))"

definition put_le64 :: "u64 \<Rightarrow> bytes" where
  "put_le64 w = rev (put_be64 w)"

definition get_le64 :: "bytes \<Rightarrow> u64" where
  "get_le64 bs = get_be64 (rev (take 8 bs))"

lemma map_unat_of_nat_digits [simp]:
  "map (unat \<circ> (of_nat :: nat \<Rightarrow> byte)) (to_digits 256 n v) = to_digits 256 n v"
proof (rule map_idI)
  fix d
  assume "d \<in> set (to_digits 256 n v)"
  then have "d < 256" by (rule to_digits_bound [rotated]) simp
  then show "(unat \<circ> (of_nat :: nat \<Rightarrow> byte)) d = d"
    by (simp add: unat_of_nat)
qed

lemma unat_byte_bound: "unat (b :: byte) < 256"
  using unsigned_less [of b, where ?'a = nat] by simp

lemma unat_u64_max: "unat (w :: u64) < 18446744073709551616"
  using unsigned_less [of w, where ?'a = nat] by simp

lemma unat_u64_bound: "unat (w :: u64) < 256 ^ 8"
  using unat_u64_max [of w] by simp

lemma length_put_be64 [simp]: "length (put_be64 w) = 8"
  by (simp add: put_be64_def)

lemma length_put_le64 [simp]: "length (put_le64 w) = 8"
  by (simp add: put_le64_def)

lemma get_put_be64 [simp]: "get_be64 (put_be64 w @ bs) = w"
  using unat_u64_bound [of w] by (simp add: get_be64_def put_be64_def)

lemma get_put_be64_nil [simp]: "get_be64 (put_be64 w) = w"
  using get_put_be64 [of w "[]"] by simp

lemma get_put_le64 [simp]: "get_le64 (put_le64 w @ bs) = w"
  by (simp add: get_le64_def put_le64_def)

lemma get_put_le64_nil [simp]: "get_le64 (put_le64 w) = w"
  using get_put_le64 [of w "[]"] by simp

lemma put_get_be64: "length bs = 8 \<Longrightarrow> put_be64 (get_be64 bs) = bs"
proof -
  assume len: "length bs = 8"
  let ?ds = "map unat bs"
  have d: "\<forall>d \<in> set ?ds. d < 256"
    by (auto simp: unat_byte_bound)
  have lt: "of_digits 256 ?ds < 2 ^ 64"
    using of_digits_less [OF d] len by simp
  have "to_digits 256 8 (unat (of_nat (of_digits 256 ?ds) :: u64)) = ?ds"
    using lt d len by (simp add: unat_of_nat)
  then show ?thesis
    using len by (simp add: put_be64_def get_be64_def comp_def)
qed

lemma put_get_le64: "length bs = 8 \<Longrightarrow> put_le64 (get_le64 bs) = bs"
  by (simp add: put_le64_def get_le64_def put_get_be64)

lemma put_be64_inject [simp]: "put_be64 v = put_be64 w \<longleftrightarrow> v = w"
  by (metis get_put_be64_nil)

lemma put_le64_inject [simp]: "put_le64 v = put_le64 w \<longleftrightarrow> v = w"
  by (metis get_put_le64_nil)

text \<open>\<^verbatim>\<open>hex.EncodeToString\<close> and \<^verbatim>\<open>fmt.Sprintf("%x", bytes)\<close>: two lower-case digits per byte.\<close>

definition hex_digit :: "nat \<Rightarrow> char" where
  "hex_digit n = ''0123456789abcdef'' ! n"

definition hex_encode :: "bytes \<Rightarrow> string" where
  "hex_encode bs = concat (map (\<lambda>b. [hex_digit (unat b div 16), hex_digit (unat b mod 16)]) bs)"

text \<open>The value of a hexadecimal digit in either case, the digits \<^verbatim>\<open>strconv.ParseUint(s, 16, 64)\<close>
  accepts.\<close>

definition hex_value :: "char \<Rightarrow> nat option" where
  "hex_value c = (let n = of_char c :: nat in
     if 48 \<le> n \<and> n \<le> 57 then Some (n - 48)
     else if 97 \<le> n \<and> n \<le> 102 then Some (n - 87)
     else if 65 \<le> n \<and> n \<le> 70 then Some (n - 55)
     else None)"

lemma nat_below_16_cases:
  "n < 16 \<Longrightarrow> n \<in> {0, 1, 2, 3, 4, 5, 6, 7, 8, 9, 10, 11, 12, 13, 14, 15 :: nat}"
  by simp arith

lemma hex_value_hex_digit [simp]: "n < 16 \<Longrightarrow> hex_value (hex_digit n) = Some n"
  using nat_below_16_cases [of n] by (auto simp: hex_digit_def hex_value_def)

lemma hex_digit_inject: "m < 16 \<Longrightarrow> n < 16 \<Longrightarrow> hex_digit m = hex_digit n \<longleftrightarrow> m = n"
  by (metis hex_value_hex_digit option.inject)

lemma hex_digit_less: "m < n \<Longrightarrow> n < 16 \<Longrightarrow> hex_digit m < hex_digit n"
  using nat_below_16_cases [of n] nat_below_16_cases [of m]
  by (auto simp: hex_digit_def less_char_def)

lemma hex_digit_less_iff: "m < 16 \<Longrightarrow> n < 16 \<Longrightarrow> hex_digit m < hex_digit n \<longleftrightarrow> m < n"
  by (metis hex_digit_less linorder_neqE_nat order_less_asym order_less_irrefl)

lemma hex_digit_plain: "n < 16 \<Longrightarrow> hex_digit n \<noteq> CHR ''/'' \<and> hex_digit n \<noteq> CHR '':''"
  using nat_below_16_cases [of n] by (auto simp: hex_digit_def)

lemma length_hex_encode [simp]: "length (hex_encode bs) = 2 * length bs"
  by (induction bs) (simp_all add: hex_encode_def)

lemma byte_div_16: "unat (b :: byte) div 16 < 16" and byte_mod_16: "unat (b :: byte) mod 16 < 16"
  using unat_byte_bound [of b] by auto

lemma hex_encode_inject [simp]: "hex_encode bs = hex_encode cs \<longleftrightarrow> bs = cs"
proof
  show "hex_encode bs = hex_encode cs \<Longrightarrow> bs = cs"
  proof (induction bs arbitrary: cs)
    case Nil
    then show ?case by (cases cs) (simp_all add: hex_encode_def)
  next
    case (Cons b bs)
    then obtain c cs' where cs: "cs = c # cs'"
      by (cases cs) (auto simp: hex_encode_def)
    with Cons.prems have "hex_digit (unat b div 16) = hex_digit (unat c div 16)"
      and "hex_digit (unat b mod 16) = hex_digit (unat c mod 16)"
      and rest: "hex_encode bs = hex_encode cs'"
      by (simp_all add: hex_encode_def)
    then have "unat b div 16 = unat c div 16" and "unat b mod 16 = unat c mod 16"
      by (simp_all add: hex_digit_inject byte_div_16 byte_mod_16)
    then have "unat b = unat c" by (metis div_mult_mod_eq)
    then have "b = c" by (simp add: word_unat_eq_iff)
    with Cons.IH [OF rest] cs show ?case by simp
  qed
qed simp

text \<open>The hexadecimal string of a big-endian number is the string of its base-16 digits.\<close>

lemma hex_encode_digits:
  "hex_encode (map of_nat (to_digits 256 n v)) = map hex_digit (to_digits 16 (2 * n) v)"
proof (induction n arbitrary: v)
  case 0
  then show ?case by (simp add: hex_encode_def)
next
  case (Suc n)
  have m: "v mod 256 < 256" by simp
  have "hex_encode [of_nat (v mod 256)] =
      [hex_digit (v mod 256 div 16), hex_digit (v mod 256 mod 16)]"
    using m by (simp add: hex_encode_def unat_of_nat)
  also have "\<dots> = map hex_digit (to_digits 16 2 v)"
  proof -
    have "v mod 256 div 16 = v div 16 mod 16"
      using mod_mult2_eq [of v 16 16] by simp
    moreover have "v mod 256 mod 16 = v mod 16"
      by (simp add: mod_mod_cancel)
    ultimately show ?thesis by (simp add: numeral_2_eq_2)
  qed
  finally have last: "hex_encode [of_nat (v mod 256)] = map hex_digit (to_digits 16 2 v)" .
  have "to_digits 16 (2 * n + 2) v = to_digits 16 (2 * n) (v div 256) @ to_digits 16 2 v"
    using to_digits_add [of 16 "2 * n" 2 v] by simp
  moreover have "hex_encode (xs @ ys) = hex_encode xs @ hex_encode ys" for xs ys
    by (simp add: hex_encode_def)
  ultimately show ?case using Suc.IH [of "v div 256"] last by simp
qed

text \<open>\<^verbatim>\<open>strconv.FormatUint(n, 10)\<close>.\<close>

fun dec_digits :: "nat \<Rightarrow> nat list" where
  "dec_digits n = (if n < 10 then [n] else dec_digits (n div 10) @ [n mod 10])"

declare dec_digits.simps [simp del]

definition dec_string :: "nat \<Rightarrow> string" where
  "dec_string n = map (\<lambda>d. char_of (48 + d)) (dec_digits n)"

definition format_uint :: "u64 \<Rightarrow> string" where
  "format_uint w = dec_string (unat w)"

lemma dec_digits_nonempty [simp]: "dec_digits n \<noteq> []"
  by (subst dec_digits.simps) simp

lemma of_dec_digits [simp]: "of_digits 10 (dec_digits n) = n"
proof (induction n rule: dec_digits.induct)
  case (1 n)
  show ?case
  proof (cases "n < 10")
    case True
    then show ?thesis by (subst dec_digits.simps) (simp add: of_digits_def)
  next
    case False
    then show ?thesis using 1 by (subst dec_digits.simps) simp
  qed
qed

lemma dec_digits_small: "d \<in> set (dec_digits n) \<Longrightarrow> d < 10"
proof (induction n rule: dec_digits.induct)
  case (1 n)
  show ?case
  proof (cases "n < 10")
    case True
    then show ?thesis using 1 by (subst (asm) (2) dec_digits.simps) simp
  next
    case False
    then have "d \<in> set (dec_digits (n div 10)) \<or> d = n mod 10"
      using 1(2) by (subst (asm) dec_digits.simps) auto
    then show ?thesis using 1(1) False by auto
  qed
qed

lemma dec_char_inject: "d < 10 \<Longrightarrow> e < 10 \<Longrightarrow>
    (char_of (48 + d :: nat) = char_of (48 + e)) = (d = e)"
proof
  assume "d < 10" "e < 10" "char_of (48 + d :: nat) = char_of (48 + e)"
  then have "of_char (char_of (48 + d :: nat)) = (of_char (char_of (48 + e :: nat)) :: nat)"
    by simp
  then show "d = e" using \<open>d < 10\<close> \<open>e < 10\<close> by simp
qed simp

lemma dec_string_inject [simp]: "dec_string m = dec_string n \<longleftrightarrow> m = n"
proof
  assume eq: "dec_string m = dec_string n"
  have "map (\<lambda>d. char_of (48 + d :: nat)) (dec_digits m) = map (\<lambda>d. char_of (48 + d)) (dec_digits n)"
    using eq by (simp add: dec_string_def)
  moreover have "inj_on (\<lambda>d. char_of (48 + d :: nat) :: char) (set (dec_digits m) \<union> set (dec_digits n))"
    by (rule inj_onI) (auto simp: dec_char_inject dest!: dec_digits_small)
  ultimately have "dec_digits m = dec_digits n"
    by (rule map_inj_on)
  then show "m = n" by (metis of_dec_digits)
qed simp

lemma format_uint_inject [simp]: "format_uint v = format_uint w \<longleftrightarrow> v = w"
  by (simp add: format_uint_def word_unat_eq_iff)

lemma dec_string_chars:
  assumes "c \<in> set (dec_string n)"
  shows "48 \<le> (of_char c :: nat) \<and> (of_char c :: nat) < 58"
proof -
  from assms obtain d where d: "d < 10" and c: "c = char_of (48 + d :: nat)"
    by (auto simp: dec_string_def dest: dec_digits_small)
  from d have "of_char c = (48 + d :: nat)" by (simp add: c)
  with d show ?thesis by simp
qed

lemma dec_string_not_Nil [simp]: "dec_string n \<noteq> []"
  by (simp add: dec_string_def)

section \<open>Loops over ranges of heights\<close>

text \<open>
  \<^verbatim>\<open>for h := lo; h <= hi; h++ { xs = append(xs, h) }\<close>. With \<open>hi\<close> the greatest
  \<^verbatim>\<open>uint64\<close> the counter wraps around and the loop does not end: \<^const>\<open>None\<close>.
\<close>

partial_function (option) u64_range :: "u64 \<Rightarrow> u64 \<Rightarrow> u64 list option" where
  "u64_range lo hi =
     (if lo \<le> hi then Option.bind (u64_range (lo + 1) hi) (\<lambda>hs. Some (lo # hs)) else Some [])"

declare u64_range.simps [code]

definition u64_upto :: "u64 \<Rightarrow> u64 \<Rightarrow> u64 list" where
  "u64_upto lo hi = map of_nat [unat lo ..< Suc (unat hi)]"

lemma u64_less_max_iff: "(w :: u64) < - 1 \<longleftrightarrow> unat w + 1 < 2 ^ 64"
proof -
  have "unat (- 1 :: u64) = 18446744073709551615"
    by (simp add: unsigned_minus_1_eq_mask mask_eq_exp_minus_1)
  then show ?thesis by (simp add: word_less_nat_alt)
qed

lemma unat_u64_Suc: "(w :: u64) < v \<Longrightarrow> unat (w + 1) = unat w + 1"
  using unat_u64_max [of v] by (simp add: word_less_nat_alt unat_plus_if')

lemma unat_u64_add: "unat (v :: u64) + unat w < 18446744073709551616 \<Longrightarrow> unat (v + w) = unat v + unat w"
  by (simp add: unat_plus_if')

lemma unat_u64_diff: "(w :: u64) \<le> v \<Longrightarrow> unat (v - w) = unat v - unat w"
  by (simp add: unat_sub_if' word_le_nat_alt)

lemma u64_less_succ: "(w :: u64) < v \<Longrightarrow> w < w + 1"
  by (simp add: word_less_nat_alt unat_u64_Suc [of w v, unfolded word_less_nat_alt])

lemma unat_u64_pred: "(v :: u64) < w \<Longrightarrow> unat (w - 1) = unat w - 1"
  by (simp add: word_less_nat_alt unat_sub_if')

lemma u64_pred_less: "(v :: u64) < w \<Longrightarrow> w - 1 < w"
  by (simp add: word_less_nat_alt unat_u64_pred [of v w, unfolded word_less_nat_alt])

lemma u64_range_eq: "hi < - 1 \<Longrightarrow> u64_range lo hi = Some (u64_upto lo hi)"
proof (induction "unat hi + 1 - unat lo" arbitrary: lo)
  case 0
  then have "\<not> lo \<le> hi" by (simp add: word_le_nat_alt)
  then show ?case using 0
    by (subst u64_range.simps) (simp add: u64_upto_def word_le_nat_alt)
next
  case (Suc n)
  then have le: "lo \<le> hi" by (simp add: word_le_nat_alt)
  then have s: "unat (lo + 1) = unat lo + 1"
    using Suc.prems by (intro unat_u64_Suc [of lo "- 1"]) simp
  then have "u64_range (lo + 1) hi = Some (u64_upto (lo + 1) hi)"
    using Suc by (intro Suc.hyps) auto
  moreover have "[unat lo ..< Suc (unat hi)] = unat lo # [Suc (unat lo) ..< Suc (unat hi)]"
    using le by (subst upt_conv_Cons) (simp_all add: word_le_nat_alt)
  ultimately show ?case using le s
    by (subst u64_range.simps) (simp add: u64_upto_def)
qed

lemma set_u64_upto: "set (u64_upto lo hi) = {lo..hi}"
proof (intro set_eqI iffI)
  fix h
  assume "h \<in> set (u64_upto lo hi)"
  then obtain n where h: "h = of_nat n" and n: "unat lo \<le> n" "n \<le> unat hi"
    by (auto simp: u64_upto_def)
  have "n < 18446744073709551616" using n unat_u64_max [of hi] by simp
  then have "unat h = n" by (simp add: h unat_of_nat)
  then show "h \<in> {lo..hi}" using n by (simp add: word_le_nat_alt)
next
  fix h
  assume "h \<in> {lo..hi}"
  then have "unat h \<in> set [unat lo ..< Suc (unat hi)]" by (auto simp: word_le_nat_alt)
  then have "of_nat (unat h) \<in> set (u64_upto lo hi)"
    unfolding u64_upto_def set_map by (rule imageI)
  then show "h \<in> set (u64_upto lo hi)" by simp
qed

lemma length_u64_upto: "length (u64_upto lo hi) = Suc (unat hi) - unat lo"
  by (simp add: u64_upto_def del: upt_Suc)

section \<open>Lists of byte strings as bytes\<close>

text \<open>Every byte behind a 1, every string closed by a 0: a self-delimiting code, from which the
  witnesses build codecs that keep the laws assumed of the protobuf library.\<close>

definition flag_enc :: "bytes list \<Rightarrow> bytes" where
  "flag_enc b = concat (map (\<lambda>tx. concat (map (\<lambda>x. [1, x]) tx) @ [0]) b)"

fun flag_dec :: "bytes \<Rightarrow> bytes \<Rightarrow> bytes list result" where
  "flag_dec tx [] = (if tx = [] then Inr [] else Inl (Msg ''unexpected EOF''))"
| "flag_dec tx [f] = (if f = 0 then Inr [tx] else Inl (Msg ''unexpected EOF''))"
| "flag_dec tx (f # x # rest) =
     (if f = 0 then (case flag_dec [] (x # rest) of Inl e \<Rightarrow> Inl e | Inr b \<Rightarrow> Inr (tx # b))
      else flag_dec (tx @ [x]) rest)"

lemma flag_dec_close:
  "flag_dec tx (0 # rest) = (case flag_dec [] rest of Inl e \<Rightarrow> Inl e | Inr b \<Rightarrow> Inr (tx # b))"
  by (cases rest) auto

lemma flag_dec_bytes:
  "flag_dec acc (concat (map (\<lambda>x. [1, x]) tx) @ rest) = flag_dec (acc @ tx) rest"
  by (induction tx arbitrary: acc) auto

lemma flag_dec_enc [simp]: "flag_dec [] (flag_enc b) = Inr b"
proof (induction b)
  case Nil
  then show ?case by (simp add: flag_enc_def)
next
  case (Cons tx b)
  then show ?case by (simp add: flag_enc_def flag_dec_bytes flag_dec_close)
qed

end
