(* ===== verification/Epoch.thy ===== *)
theory Epoch
  imports Prelude
begin

text \<open>
  The arithmetic of DA epochs, \<^verbatim>\<open>src/types/epoch.go\<close>: which epoch a DA height belongs to and
  the first and last height of that epoch. Heights are \<^verbatim>\<open>uint64\<close>; the lemmas say under which
  bound the products and sums of the code do not wrap around.
\<close>

definition CalculateEpochNumber :: "u64 \<Rightarrow> u64 \<Rightarrow> u64 \<Rightarrow> u64" where
  "CalculateEpochNumber daHeight daStartHeight daEpochSize =
     (if daHeight < daStartHeight then 0
      else if daEpochSize = 0 then 1
      else (daHeight - daStartHeight) div daEpochSize + 1)"

definition CalculateEpochBoundaries :: "u64 \<Rightarrow> u64 \<Rightarrow> u64 \<Rightarrow> u64 \<times> u64 \<times> u64" where
  "CalculateEpochBoundaries daHeight daStartHeight daEpochSize =
     (let epochNum = CalculateEpochNumber daHeight daStartHeight daEpochSize in
      if daEpochSize = 0 then (daStartHeight, daStartHeight, epochNum)
      else if daHeight < daStartHeight
        then (daStartHeight, daStartHeight + daEpochSize - 1, epochNum)
      else (daStartHeight + (epochNum - 1) * daEpochSize,
            daStartHeight + epochNum * daEpochSize - 1,
            epochNum))"

section \<open>The epoch of a height over the natural numbers\<close>

text \<open>The reference definition: epochs of \<open>sz\<close> heights each, counted from \<open>start\<close>.\<close>

definition epoch_first :: "nat \<Rightarrow> nat \<Rightarrow> nat \<Rightarrow> nat" where
  "epoch_first h start sz = start + (h - start) div sz * sz"

definition epoch_last :: "nat \<Rightarrow> nat \<Rightarrow> nat \<Rightarrow> nat" where
  "epoch_last h start sz = epoch_first h start sz + sz - 1"

text \<open>The end of the epoch of \<open>h\<close> is still a \<^verbatim>\<open>uint64\<close> with a successor.\<close>

definition epoch_fits :: "u64 \<Rightarrow> u64 \<Rightarrow> u64 \<Rightarrow> bool" where
  "epoch_fits h start sz \<longleftrightarrow> start \<le> h \<and> 0 < sz \<and>
     epoch_last (unat h) (unat start) (unat sz) + 1 < 2 ^ 64"

lemma epoch_first_le:
  "start \<le> h \<Longrightarrow> 0 < sz \<Longrightarrow> epoch_first h start sz \<le> h"
proof -
  assume "start \<le> h" "0 < sz"
  have "(h - start) div sz * sz \<le> h - start" by (rule div_times_less_eq_dividend)
  then show ?thesis using \<open>start \<le> h\<close> unfolding epoch_first_def by linarith
qed

lemma epoch_last_ge:
  "start \<le> h \<Longrightarrow> 0 < sz \<Longrightarrow> h \<le> epoch_last h start sz"
proof -
  assume h: "start \<le> h" and s: "0 < sz"
  have "h - start < ((h - start) div sz + 1) * sz"
    using dividend_less_times_div [OF s, of "h - start"] by (simp add: algebra_simps)
  then have "h - start < (h - start) div sz * sz + sz" by simp
  then show ?thesis using h s by (simp add: epoch_last_def epoch_first_def)
qed

lemma epoch_div_shift:
  assumes s: "0 < sz" and lo: "start \<le> h"
    and h': "epoch_first h start sz \<le> h'" "h' \<le> epoch_last h start sz"
  shows "(h' - start) div sz = (h - start) div sz"
proof (rule div_nat_eqI)
  show "sz * ((h - start) div sz) \<le> h' - start"
    using h' by (simp add: epoch_first_def mult.commute)
  show "h' - start < sz * Suc ((h - start) div sz)"
    using h' s by (simp add: epoch_last_def epoch_first_def algebra_simps)
qed

lemma unat_epoch_number:
  assumes "epoch_fits h start sz"
  shows "unat (CalculateEpochNumber h start sz) = (unat h - unat start) div unat sz + 1"
proof -
  have le: "start \<le> h" and s: "0 < sz" using assms by (simp_all add: epoch_fits_def)
  have s1: "1 \<le> unat sz" using s by (simp add: word_less_nat_alt)
  have q: "unat ((h - start) div sz) = (unat h - unat start) div unat sz"
    using le by (simp add: unat_div unat_u64_diff)
  have "(unat h - unat start) div unat sz * 1 \<le> (unat h - unat start) div unat sz * unat sz"
    using s1 by (rule mult_le_mono2)
  also have "\<dots> \<le> epoch_last (unat h) (unat start) (unat sz)"
    using s1 by (simp add: epoch_last_def epoch_first_def)
  finally have "unat ((h - start) div sz) + unat (1 :: u64) < 18446744073709551616"
    using assms by (simp add: q epoch_fits_def)
  then have "unat ((h - start) div sz + 1) = unat ((h - start) div sz) + 1"
    by (simp add: unat_u64_add)
  then show ?thesis using le s q by (auto simp: CalculateEpochNumber_def)
qed

lemma unat_epoch_boundaries:
  assumes fits: "epoch_fits h start sz"
    and b: "CalculateEpochBoundaries h start sz = (es, ee, en)"
  shows "unat es = epoch_first (unat h) (unat start) (unat sz)"
    and "unat ee = epoch_last (unat h) (unat start) (unat sz)"
    and "unat en = (unat h - unat start) div unat sz + 1"
proof -
  let ?q = "(unat h - unat start) div unat sz"
  have le: "start \<le> h" and s: "0 < sz" using fits by (simp_all add: epoch_fits_def)
  have s1: "1 \<le> unat sz" using s by (simp add: word_less_nat_alt)
  have en: "en = CalculateEpochNumber h start sz"
    and f: "es = start + (en - 1) * sz" and l: "ee = start + en * sz - 1"
    using b le s by (auto simp: CalculateEpochBoundaries_def Let_def split: if_splits)
  show n: "unat en = ?q + 1" unfolding en by (rule unat_epoch_number [OF fits])
  have top: "unat start + ?q * unat sz + unat sz < 18446744073709551616"
    using fits s1 by (simp add: epoch_fits_def epoch_last_def epoch_first_def)
  have n1: "unat (en - 1) = ?q"
    using n by (subst unat_u64_diff) (simp_all add: word_le_nat_alt)
  have m1: "unat ((en - 1) * sz) = ?q * unat sz"
    using top by (simp add: unat_word_ariths n1)
  have m2: "unat (en * sz) = ?q * unat sz + unat sz"
  proof -
    have "unat en * unat sz = ?q * unat sz + unat sz" by (simp add: n)
    then show ?thesis using top by (simp add: unat_word_ariths(2))
  qed
  show "unat es = epoch_first (unat h) (unat start) (unat sz)"
    using top by (simp add: f epoch_first_def m1 unat_u64_add)
  have a: "unat (start + en * sz) = unat start + (?q * unat sz + unat sz)"
    using top by (simp add: m2 unat_u64_add)
  then have "unat (start + en * sz - 1) = unat (start + en * sz) - 1"
    using s1 by (subst unat_u64_diff) (simp_all add: word_le_nat_alt)
  then show "unat ee = epoch_last (unat h) (unat start) (unat sz)"
    by (simp add: l a epoch_last_def epoch_first_def)
qed

section \<open>Epochs one height further\<close>

lemma epoch_first_Suc:
  assumes "start \<le> h" "0 < sz"
  shows "epoch_first (Suc h) start sz = (if h = epoch_last h start sz then Suc h else epoch_first h start sz)"
proof (cases "h = epoch_last h start sz")
  case True
  then have eq: "Suc h - start = Suc ((h - start) div sz) * sz"
    using assms by (simp add: epoch_last_def epoch_first_def)
  then have "(Suc h - start) div sz = Suc ((h - start) div sz)" using assms(2) by (metis nonzero_mult_div_cancel_right not_gr_zero)
  then show ?thesis using True eq assms(1) by (simp add: epoch_first_def)
next
  case False
  then have "Suc h \<le> epoch_last h start sz" using epoch_last_ge [OF assms] by simp
  then have "(Suc h - start) div sz = (h - start) div sz"
    using epoch_first_le [OF assms] by (intro epoch_div_shift [OF assms(2,1)]) simp_all
  then show ?thesis using False by (simp add: epoch_first_def)
qed

lemma epoch_fits_le:
  assumes "epoch_fits h' start sz" "start \<le> h" "h \<le> h'"
  shows "epoch_fits h start sz"
proof -
  have "(unat h - unat start) div unat sz * unat sz \<le> (unat h' - unat start) div unat sz * unat sz"
    using assms(3) by (intro mult_le_mono1 div_le_mono diff_le_mono) (simp add: word_le_nat_alt)
  then show ?thesis using assms unfolding epoch_fits_def epoch_last_def epoch_first_def by linarith
qed

lemma epoch_fits_bounds:
  assumes "epoch_fits h start sz"
  shows "unat start \<le> unat h" "0 < unat sz" "h < - 1" "unat (h + 1) = Suc (unat h)"
proof -
  show le: "unat start \<le> unat h" "0 < unat sz"
    using assms by (simp_all add: epoch_fits_def word_le_nat_alt word_less_nat_alt)
  have "unat h + 1 < 2 ^ 64" using assms epoch_last_ge [OF le] by (simp add: epoch_fits_def)
  then show "h < - 1" "unat (h + 1) = Suc (unat h)" by (simp_all add: u64_less_max_iff unat_u64_add)
qed

section \<open>What the boundaries promise\<close>

lemma epoch_fits_mono:
  assumes "epoch_fits h start sz"
    and "epoch_first (unat h) (unat start) (unat sz) \<le> unat h'"
    and "unat h' \<le> epoch_last (unat h) (unat start) (unat sz)"
  shows "epoch_fits h' start sz \<and>
    epoch_first (unat h') (unat start) (unat sz) = epoch_first (unat h) (unat start) (unat sz) \<and>
    (unat h' - unat start) div unat sz = (unat h - unat start) div unat sz"
proof -
  have s: "0 < unat sz" and le: "unat start \<le> unat h"
    using assms(1) by (simp_all add: epoch_fits_def word_less_nat_alt word_le_nat_alt)
  have d: "(unat h' - unat start) div unat sz = (unat h - unat start) div unat sz"
    by (rule epoch_div_shift [OF s le assms(2,3)])
  have "unat start \<le> unat h'" using assms(2) by (simp add: epoch_first_def)
  with d assms(1) show ?thesis
    by (simp add: epoch_fits_def epoch_last_def epoch_first_def word_le_nat_alt)
qed

lemma epoch_boundaries_same:
  assumes "epoch_fits h start sz" and "CalculateEpochBoundaries h start sz = (es, ee, en)"
    and h': "es \<le> h'" "h' \<le> ee"
  shows "CalculateEpochBoundaries h' start sz = (es, ee, en)"
proof -
  note u = unat_epoch_boundaries [OF assms(1,2)]
  obtain f' l' n' where b': "CalculateEpochBoundaries h' start sz = (f', l', n')"
    by (metis prod_cases3)
  note m = epoch_fits_mono [OF assms(1), of h']
  have fits': "epoch_fits h' start sz" using m h' u by (simp add: word_le_nat_alt)
  note u' = unat_epoch_boundaries [OF fits' b']
  have "unat f' = unat es" "unat l' = unat ee" "unat n' = unat en"
    using u u' m h' by (simp_all add: epoch_last_def word_le_nat_alt)
  then show ?thesis using b' by (simp add: word_unat_eq_iff)
qed

lemma epoch_boundaries_next:
  assumes "epoch_fits h start sz" and "CalculateEpochBoundaries h start sz = (es, ee, en)"
    and fits': "epoch_fits (ee + 1) start sz"
  shows "CalculateEpochBoundaries (ee + 1) start sz = (ee + 1, ee + sz, en + 1)"
proof -
  note u = unat_epoch_boundaries [OF assms(1,2)]
  have s: "0 < unat sz" using assms(1) by (simp add: epoch_fits_def word_less_nat_alt)
  obtain f' l' n' where b': "CalculateEpochBoundaries (ee + 1) start sz = (f', l', n')"
    by (metis prod_cases3)
  note u' = unat_epoch_boundaries [OF fits' b']
  let ?q = "(unat h - unat start) div unat sz"
  have l1: "unat (ee + 1) = unat start + (?q + 1) * unat sz"
    using assms(1) s u(2)
    by (subst unat_u64_add) (simp_all add: epoch_fits_def epoch_last_def epoch_first_def)
  have q': "(unat (ee + 1) - unat start) div unat sz = ?q + 1"
    using s by (simp add: l1)
  have f': "unat f' = unat (ee + 1)" using u'(1) s by (simp add: epoch_first_def q' l1)
  have bound: "unat (ee + 1) + unat sz < 2 ^ 64"
    using fits' s u' f' by (simp add: epoch_fits_def epoch_last_def)
  have "unat l' = unat (ee + 1) + unat sz - 1" using u'(2) u'(1) f' by (simp add: epoch_last_def)
  also have "\<dots> = unat ee + unat sz" using l1 u(2) s by (simp add: epoch_last_def epoch_first_def)
  also have "\<dots> = unat (ee + sz)"
    using bound l1 u(2) s by (subst unat_u64_add) (simp_all add: epoch_last_def epoch_first_def)
  finally have l': "unat l' = unat (ee + sz)" .
  have "unat en + 1 < 2 ^ 64" using u'(3) q' u(3) unat_u64_max [of n'] by simp
  then have n': "unat n' = unat (en + 1)"
    using u'(3) q' u(3) by (simp add: unat_u64_add)
  show ?thesis using b' f' l' n' by (simp add: word_unat_eq_iff)
qed

text \<open>
  C27: The boundaries of the epoch of a DA height enclose that height, span exactly the epoch size,
  are the same for every height between them, and the epoch that follows starts right after the
  last height with the next number; so the epochs tile the DA heights from the start height on.
\<close>

theorem epoch_boundaries_tile:
  assumes "epoch_fits h start sz"
    and "CalculateEpochBoundaries h start sz = (es, ee, en)"
  shows "es \<le> h \<and> h \<le> ee \<and> unat ee - unat es + 1 = unat sz \<and>
    (\<forall>h'. es \<le> h' \<and> h' \<le> ee \<longrightarrow> CalculateEpochBoundaries h' start sz = (es, ee, en)) \<and>
    (epoch_fits (ee + 1) start sz \<longrightarrow>
       CalculateEpochBoundaries (ee + 1) start sz = (ee + 1, ee + sz, en + 1))"
proof -
  note u = unat_epoch_boundaries [OF assms]
  have le: "unat start \<le> unat h" and s: "0 < unat sz"
    using assms(1) by (simp_all add: epoch_fits_def word_less_nat_alt word_le_nat_alt)
  have "es \<le> h" using epoch_first_le [OF le s] u by (simp add: word_le_nat_alt)
  moreover have "h \<le> ee" using epoch_last_ge [OF le s] u by (simp add: word_le_nat_alt)
  moreover have "unat ee - unat es + 1 = unat sz" using s u by (simp add: epoch_last_def)
  ultimately show ?thesis
    using epoch_boundaries_same [OF assms] epoch_boundaries_next [OF assms] by blast
qed

theorem epoch_boundaries_tile_witness:
  "CalculateEpochBoundaries 57 10 20 = (50, 69, 3) \<and>
   CalculateEpochBoundaries 50 10 20 = (50, 69, 3) \<and>
   CalculateEpochBoundaries 70 10 20 = (70, 89, 4)"
proof -
  have f: "epoch_fits 57 10 20" "epoch_fits 70 10 20"
    by (simp_all add: epoch_fits_def epoch_last_def epoch_first_def)
  have b: "CalculateEpochBoundaries 57 10 20 = (50, 69, 3)"
    by (simp add: CalculateEpochBoundaries_def CalculateEpochNumber_def Let_def)
  from epoch_boundaries_tile [OF f(1) b] f(2) b show ?thesis by simp
qed

end
