(* ===== verification/Datastore.thy ===== *)
theory Datastore
  imports Prelude
begin

text \<open>
  The key-value datastore the components persist to. It is a third-party library
  (\<^verbatim>\<open>github.com/ipfs/go-datastore\<close> over badger), so its operations are a parameter of the
  model: a record of functions over an arbitrary database type, every one of which may fail.
  \<^verbatim>\<open>datastore_ok\<close> states the documented behaviour the code relies on, relative to a view of
  the database as a finite map. The last section builds one such datastore, a map whose operations
  never fail, which the witnesses of the properties run on.
\<close>

datatype ds_op = DsPut string bytes | DsDelete string

text \<open>
  \<^verbatim>\<open>ds_query\<close> is \<^verbatim>\<open>Query\<close> with \<^verbatim>\<open>OrderByKey\<close>: an error, or the results, each an error
  or an entry; \<^verbatim>\<open>ds_query_prefix\<close> is \<^verbatim>\<open>Query\<close> with a \<^verbatim>\<open>Prefix\<close> and no order. \<^verbatim>\<open>ds_batch\<close> and \<^verbatim>\<open>ds_batch_add\<close> are the errors of creating a batch and of adding
  an operation to one; \<^verbatim>\<open>ds_commit\<close> is \<^verbatim>\<open>Batch.Commit\<close> on the operations collected in it.
  \<^verbatim>\<open>ds_new_key\<close> and \<^verbatim>\<open>ds_key_name\<close> are \<^verbatim>\<open>ds.NewKey(s).String()\<close> and
  \<^verbatim>\<open>Key.Name()\<close>.
\<close>

record 'db datastore =
  ds_get :: "'db \<Rightarrow> string \<Rightarrow> bytes result"
  ds_put :: "'db \<Rightarrow> string \<Rightarrow> bytes \<Rightarrow> goerr option \<times> 'db"
  ds_delete :: "'db \<Rightarrow> string \<Rightarrow> goerr option \<times> 'db"
  ds_query :: "'db \<Rightarrow> (string \<times> bytes) result list result"
  ds_query_prefix :: "'db \<Rightarrow> string \<Rightarrow> (string \<times> bytes) result list result"
  ds_batch :: "'db \<Rightarrow> goerr option"
  ds_batch_add :: "'db \<Rightarrow> ds_op list \<Rightarrow> ds_op \<Rightarrow> goerr option"
  ds_commit :: "'db \<Rightarrow> ds_op list \<Rightarrow> goerr option \<times> 'db"
  ds_new_key :: "string \<Rightarrow> string"
  ds_key_name :: "string \<Rightarrow> string"

type_synonym view = "string \<rightharpoonup> bytes"

fun apply_op :: "ds_op \<Rightarrow> view \<Rightarrow> view" where
  "apply_op (DsPut k v) m = m(k \<mapsto> v)"
| "apply_op (DsDelete k) m = m(k := None)"

definition apply_ops :: "ds_op list \<Rightarrow> view \<Rightarrow> view" where
  "apply_ops ops m = fold apply_op ops m"

lemma apply_ops_simps [simp]:
  "apply_ops [] m = m"
  "apply_ops (op # ops) m = apply_ops ops (apply_op op m)"
  "apply_ops (ops @ ops') m = apply_ops ops' (apply_ops ops m)"
  by (simp_all add: apply_ops_def)

fun ok_entries :: "'a result list \<Rightarrow> 'a list" where
  "ok_entries [] = []"
| "ok_entries (Inl e # rs) = ok_entries rs"
| "ok_entries (Inr x # rs) = x # ok_entries rs"

lemma ok_entries_map_Inr [simp]: "ok_entries (map (\<lambda>x. Inr (f x)) xs) = map f xs"
  by (induction xs) auto

text \<open>A plain key component: not empty, with neither of the characters \<^verbatim>\<open>NewKey\<close> and
  \<^verbatim>\<open>Name\<close> give a meaning to.\<close>

definition plain_key :: "string \<Rightarrow> bool" where
  "plain_key s \<longleftrightarrow> s \<noteq> [] \<and> CHR ''/'' \<notin> set s \<and> CHR '':'' \<notin> set s \<and> CHR ''.'' \<notin> set s"

lemma plain_format_uint [simp]: "plain_key (format_uint h)"
  using dec_string_chars [of "CHR ''/''" "unat h"] dec_string_chars [of "CHR '':''" "unat h"]
    dec_string_chars [of "CHR ''.''" "unat h"] by (auto simp: plain_key_def format_uint_def)

section \<open>What the code relies on\<close>

definition get_ok :: "'db datastore \<Rightarrow> ('db \<Rightarrow> view) \<Rightarrow> bool" where
  "get_ok ops vw \<longleftrightarrow>
     (\<forall>db k v. ds_get ops db k = Inr v \<longrightarrow> vw db k = Some v) \<and>
     (\<forall>db k e. ds_get ops db k = Inl e \<longrightarrow> (errors_is e ErrNotFound \<longleftrightarrow> vw db k = None))"

definition put_ok :: "'db datastore \<Rightarrow> ('db \<Rightarrow> view) \<Rightarrow> bool" where
  "put_ok ops vw \<longleftrightarrow>
     (\<forall>db k v db'. ds_put ops db k v = (None, db') \<longrightarrow> vw db' = (vw db)(k \<mapsto> v)) \<and>
     (\<forall>db k v e db'. ds_put ops db k v = (Some e, db') \<longrightarrow> vw db' = vw db)"

definition delete_ok :: "'db datastore \<Rightarrow> ('db \<Rightarrow> view) \<Rightarrow> bool" where
  "delete_ok ops vw \<longleftrightarrow>
     (\<forall>db k db'. ds_delete ops db k = (None, db') \<longrightarrow> vw db' = (vw db)(k := None)) \<and>
     (\<forall>db k e db'. ds_delete ops db k = (Some e, db') \<longrightarrow> vw db' = vw db)"

definition query_ok :: "'db datastore \<Rightarrow> ('db \<Rightarrow> view) \<Rightarrow> bool" where
  "query_ok ops vw \<longleftrightarrow>
     (\<forall>db rs. ds_query ops db = Inr rs \<longrightarrow>
        sorted_wrt (<) (map fst (ok_entries rs)) \<and>
        (\<forall>(k, v) \<in> set (ok_entries rs). vw db k = Some v) \<and>
        (list_all is_ok rs \<longrightarrow> dom (vw db) \<subseteq> fst ` set (ok_entries rs)))"

definition commit_ok :: "'db datastore \<Rightarrow> ('db \<Rightarrow> view) \<Rightarrow> bool" where
  "commit_ok ops vw \<longleftrightarrow>
     (\<forall>db bs db'. ds_commit ops db bs = (None, db') \<longrightarrow> vw db' = apply_ops bs (vw db)) \<and>
     (\<forall>db bs e db'. ds_commit ops db bs = (Some e, db') \<longrightarrow> vw db' = vw db)"

text \<open>A key made of components.\<close>

definition path :: "string list \<Rightarrow> string" where
  "path cs = concat (map (\<lambda>c. CHR ''/'' # c) cs)"

definition keys_ok :: "'db datastore \<Rightarrow> bool" where
  "keys_ok ops \<longleftrightarrow>
     (\<forall>cs. cs \<noteq> [] \<and> list_all plain_key cs \<longrightarrow> ds_new_key ops (path cs) = path cs) \<and>
     (\<forall>s. plain_key s \<longrightarrow> ds_new_key ops s = CHR ''/'' # s \<and>
        ds_new_key ops (CHR ''/'' # s) = CHR ''/'' # s \<and> ds_key_name ops (CHR ''/'' # s) = s)"

definition datastore_ok :: "'db datastore \<Rightarrow> ('db \<Rightarrow> view) \<Rightarrow> bool" where
  "datastore_ok ops vw \<longleftrightarrow> get_ok ops vw \<and> put_ok ops vw \<and> delete_ok ops vw \<and>
     query_ok ops vw \<and> commit_ok ops vw \<and> keys_ok ops"

lemma datastore_getD:
  assumes "datastore_ok ops vw"
  shows "ds_get ops db k = Inr v \<Longrightarrow> vw db k = Some v"
    and "ds_get ops db k = Inl e \<Longrightarrow> errors_is e ErrNotFound \<longleftrightarrow> vw db k = None"
  using assms by (auto simp: datastore_ok_def get_ok_def)

lemma datastore_putD:
  assumes "datastore_ok ops vw"
  shows "ds_put ops db k v = (None, db') \<Longrightarrow> vw db' = (vw db)(k \<mapsto> v)"
    and "ds_put ops db k v = (Some e, db') \<Longrightarrow> vw db' = vw db"
  using assms by (auto simp: datastore_ok_def put_ok_def)

lemma datastore_deleteD:
  assumes "datastore_ok ops vw"
  shows "ds_delete ops db k = (None, db') \<Longrightarrow> vw db' = (vw db)(k := None)"
    and "ds_delete ops db k = (Some e, db') \<Longrightarrow> vw db' = vw db"
  using assms by (auto simp: datastore_ok_def delete_ok_def)

lemma datastore_commitD:
  assumes "datastore_ok ops vw"
  shows "ds_commit ops db bs = (None, db') \<Longrightarrow> vw db' = apply_ops bs (vw db)"
    and "ds_commit ops db bs = (Some e, db') \<Longrightarrow> vw db' = vw db"
  using assms by (auto simp: datastore_ok_def commit_ok_def)

lemma datastore_queryD:
  assumes "datastore_ok ops vw" and "ds_query ops db = Inr rs"
  shows "sorted_wrt (<) (map fst (ok_entries rs))"
    and "(k, v) \<in> set (ok_entries rs) \<Longrightarrow> vw db k = Some v"
    and "list_all is_ok rs \<Longrightarrow> vw db k = Some v \<Longrightarrow> (k, v) \<in> set (ok_entries rs)"
proof -
  have *: "sorted_wrt (<) (map fst (ok_entries rs))"
      "\<And>k v. (k, v) \<in> set (ok_entries rs) \<Longrightarrow> vw db k = Some v"
      "list_all is_ok rs \<Longrightarrow> dom (vw db) \<subseteq> fst ` set (ok_entries rs)"
    using assms by (fastforce simp: datastore_ok_def query_ok_def)+
  then show "sorted_wrt (<) (map fst (ok_entries rs))"
    and "(k, v) \<in> set (ok_entries rs) \<Longrightarrow> vw db k = Some v" by blast+
  assume "list_all is_ok rs" and kv: "vw db k = Some v"
  then have "k \<in> fst ` set (ok_entries rs)" using *(3) by auto
  then obtain v' where "(k, v') \<in> set (ok_entries rs)" by auto
  moreover from this kv have "v' = v" using *(2) by fastforce
  ultimately show "(k, v) \<in> set (ok_entries rs)" by simp
qed

lemma keysD:
  assumes "datastore_ok ops vw" and "plain_key s"
  shows "ds_new_key ops s = CHR ''/'' # s" and "ds_new_key ops (CHR ''/'' # s) = CHR ''/'' # s"
    and "ds_key_name ops (CHR ''/'' # s) = s"
  using assms by (auto simp: datastore_ok_def keys_ok_def)

lemma path_keysD:
  assumes "datastore_ok ops vw" and "cs \<noteq> []" and "list_all plain_key cs"
  shows "ds_new_key ops (path cs) = path cs"
  using assms by (auto simp: datastore_ok_def keys_ok_def)

lemma plain_component: "plain_key c \<Longrightarrow> takeWhile (\<lambda>x. x \<noteq> CHR ''/'') (c @ CHR ''/'' # r) = c"
  by (subst takeWhile_append2) (auto simp: plain_key_def)

lemma path_inject:
  "list_all plain_key cs \<Longrightarrow> list_all plain_key ds \<Longrightarrow> path cs = path ds \<longleftrightarrow> cs = ds"
proof (induction cs arbitrary: ds)
  case Nil
  then show ?case by (cases ds) (auto simp: path_def)
next
  case (Cons c cs)
  show ?case
  proof (cases ds)
    case Nil
    then show ?thesis by (simp add: path_def)
  next
    case ds: (Cons d ds')
    have eq: "c = d \<and> path cs = path ds'" if "c @ path cs = d @ path ds'"
    proof -
      have slash: "path xs = [] \<or> (\<exists>r. path xs = CHR ''/'' # r)" for xs by (cases xs) (simp_all add: path_def)
      have tw: "takeWhile (\<lambda>x. x \<noteq> CHR ''/'') (a @ path xs) = a" if "plain_key a" for a xs
        using slash [of xs] plain_component [OF that] that
        by (auto simp: plain_key_def takeWhile_eq_all_conv)
      have "c = d" using tw [of c cs] tw [of d ds'] that Cons.prems by (simp add: ds)
      then show ?thesis using that by simp
    qed
    then show ?thesis using Cons by (auto simp: ds path_def)
  qed
qed

section \<open>A datastore that never fails\<close>

text \<open>The log of the operations done so far, whose view is the map they produce.\<close>

type_synonym mem_db = "ds_op list"

definition mem_view :: "mem_db \<Rightarrow> view" where
  "mem_view db = apply_ops db Map.empty"

primrec op_key :: "ds_op \<Rightarrow> string" where
  "op_key (DsPut k v) = k"
| "op_key (DsDelete k) = k"

definition mem_keys :: "mem_db \<Rightarrow> string list" where
  "mem_keys db = filter (\<lambda>k. mem_view db k \<noteq> None) (sort (remdups (map op_key db)))"

text \<open>\<^verbatim>\<open>NewKey\<close> puts a slash in front where there is none; \<^verbatim>\<open>Name\<close> is what follows the
  last slash.\<close>

definition slash_key :: "string \<Rightarrow> string" where
  "slash_key s = (case s of [] \<Rightarrow> ''/'' | c # cs \<Rightarrow> if c = CHR ''/'' then s else CHR ''/'' # s)"

definition base_name :: "string \<Rightarrow> string" where
  "base_name s = rev (takeWhile (\<lambda>c. c \<noteq> CHR ''/'') (rev s))"

definition mem_datastore :: "mem_db datastore" where
  "mem_datastore = \<lparr>
     ds_get = (\<lambda>db k. case mem_view db k of None \<Rightarrow> Inl (Sentinel ErrNotFound) | Some v \<Rightarrow> Inr v),
     ds_put = (\<lambda>db k v. (None, db @ [DsPut k v])),
     ds_delete = (\<lambda>db k. (None, db @ [DsDelete k])),
     ds_query = (\<lambda>db. Inr (map (\<lambda>k. Inr (k, the (mem_view db k))) (mem_keys db))),
     ds_query_prefix = (\<lambda>db pfx. Inr (map (\<lambda>k. Inr (k, the (mem_view db k)))
       (filter (\<lambda>k. take (length pfx) k = pfx) (mem_keys db)))),
     ds_batch = (\<lambda>db. None), ds_batch_add = (\<lambda>db ops op. None),
     ds_commit = (\<lambda>db ops. (None, db @ ops)),
     ds_new_key = slash_key,
     ds_key_name = base_name\<rparr>"

lemma mem_view_append [simp]: "mem_view (db @ ops) = apply_ops ops (mem_view db)"
  by (simp add: mem_view_def)

lemma dom_apply_ops: "dom (apply_ops ops m) \<subseteq> dom m \<union> op_key ` set ops"
proof (induction ops arbitrary: m)
  case Nil
  then show ?case by simp
next
  case (Cons op ops)
  have "dom (apply_op op m) \<subseteq> dom m \<union> {op_key op}" by (cases op) (auto split: if_splits)
  with Cons [of "apply_op op m"] show ?case by auto
qed

lemma set_mem_keys: "set (mem_keys db) = dom (mem_view db)"
  using dom_apply_ops [of db Map.empty] by (auto simp: mem_keys_def mem_view_def)

lemma sorted_mem_keys: "sorted_wrt (<) (mem_keys db)"
  unfolding mem_keys_def
  by (intro sorted_wrt_filter) (simp add: strict_sorted_iff)

lemma mem_datastore_query:
  "ds_query mem_datastore db = Inr rs \<Longrightarrow>
     rs = map (\<lambda>k. Inr (k, the (mem_view db k))) (mem_keys db) \<and>
     ok_entries rs = map (\<lambda>k. (k, the (mem_view db k))) (mem_keys db) \<and> list_all is_ok rs"
proof -
  assume "ds_query mem_datastore db = Inr rs"
  then have rs: "rs = map (\<lambda>k. Inr (k, the (mem_view db k))) (mem_keys db)"
    by (simp add: mem_datastore_def)
  then show ?thesis by (simp add: list_all_iff)
qed

lemma slash_key_plain: "plain_key s \<Longrightarrow> slash_key s = CHR ''/'' # s"
  by (cases s) (auto simp: slash_key_def plain_key_def)

lemma base_name_plain: "plain_key s \<Longrightarrow> base_name (CHR ''/'' # s) = s"
proof -
  assume "plain_key s"
  then have "takeWhile (\<lambda>c. c \<noteq> CHR ''/'') (rev s @ [CHR ''/'']) = rev s"
    by (subst takeWhile_append2) (auto simp: plain_key_def)
  then show ?thesis by (simp add: base_name_def)
qed

lemma mem_datastore_ok [simp]: "datastore_ok mem_datastore mem_view"
proof -
  have "query_ok mem_datastore mem_view"
    unfolding query_ok_def
  proof (intro allI impI)
    fix db rs
    assume "ds_query mem_datastore db = Inr rs"
    from mem_datastore_query [OF this]
    have rs: "ok_entries rs = map (\<lambda>k. (k, the (mem_view db k))) (mem_keys db)" by blast
    then have "map fst (ok_entries rs) = mem_keys db" by (simp add: comp_def)
    then show "sorted_wrt (<) (map fst (ok_entries rs)) \<and>
        (\<forall>(k, v) \<in> set (ok_entries rs). mem_view db k = Some v) \<and>
        (list_all is_ok rs \<longrightarrow> dom (mem_view db) \<subseteq> fst ` set (ok_entries rs))"
      using sorted_mem_keys [of db] set_mem_keys [of db] by (auto simp: rs image_image)
  qed
  moreover have "slash_key (path cs) = path cs" if "cs \<noteq> []" for cs
    using that by (cases cs) (simp_all add: slash_key_def path_def)
  then have "keys_ok mem_datastore"
    by (auto simp: keys_ok_def mem_datastore_def slash_key_plain base_name_plain)
      (simp add: slash_key_def)
  ultimately show ?thesis
    by (auto simp: datastore_ok_def get_ok_def put_ok_def delete_ok_def commit_ok_def
        mem_datastore_def split: option.splits)
qed

lemma mem_delete_ok [simp]: "fst (ds_delete mem_datastore db k) = None"
  by (simp add: mem_datastore_def)

end
