(* ===== verification/Queue.thy ===== *)
theory Queue
  imports Datastore
begin

text \<open>
  The persistent batch queue of the single sequencer, \<^verbatim>\<open>src/pkg/sequencers/single/queue.go\<close>.
  A queue is an in-memory slice with a head index over a write-ahead log: every batch is put in the
  datastore under a 16-digit hexadecimal sequence number before it is queued, its entry is deleted
  when the batch is taken, and \<^verbatim>\<open>Load\<close> rebuilds the queue from the log after a crash.

  The datastore and the protobuf codec of a batch are parameters. The theory proves that the queue
  is first-in first-out with priority re-queueing at the front (the contract \<^verbatim>\<open>batch_fifo\<close>,
  interpreted on these operations), that the log always holds what the queue holds, and that a
  reload gives back the queue.
\<close>

section \<open>State and operations\<close>

type_synonym Batch = "bytes list"

record queuedItem =
  Batch :: Batch
  Key :: string

record 'db BatchQueue =
  queue :: "queuedItem list"
  head :: nat
  maxQueueSize :: int
  nextAddSeq :: u64
  nextPrependSeq :: u64
  qdb :: 'db

text \<open>The datastore and \<^verbatim>\<open>proto.Marshal\<close>, \<^verbatim>\<open>proto.Unmarshal\<close> on \<^verbatim>\<open>pb.Batch\<close>.\<close>

record 'db queue_env =
  qstore :: "'db datastore"
  marshal_batch :: "Batch \<Rightarrow> bytes result"
  unmarshal_batch :: "bytes \<Rightarrow> Batch result"

definition initialSeqNum :: u64 where
  "initialSeqNum = 0x8000000000000000"

definition emptyItem :: queuedItem where
  "emptyItem = \<lparr>Batch = [], Key = []\<rparr>"

definition NewBatchQueue :: "'db \<Rightarrow> int \<Rightarrow> 'db BatchQueue" where
  "NewBatchQueue db maxSize =
     \<lparr>queue = [], head = 0, maxQueueSize = maxSize,
      nextAddSeq = initialSeqNum, nextPrependSeq = initialSeqNum - 1, qdb = db\<rparr>"

definition seqToKey :: "u64 \<Rightarrow> string" where
  "seqToKey s = hex_encode (put_be64 s)"

definition persistBatch ::
  "'db queue_env \<Rightarrow> 'db BatchQueue \<Rightarrow> Batch \<Rightarrow> string \<Rightarrow> goerr option \<times> 'db BatchQueue" where
  "persistBatch env bq batch key =
     (case marshal_batch env batch of
        Inl e \<Rightarrow> (Some e, bq)
      | Inr encodedBatch \<Rightarrow>
          (case ds_put (qstore env) (qdb bq) (ds_new_key (qstore env) key) encodedBatch of
             (Some e, db) \<Rightarrow> (Some e, bq\<lparr>qdb := db\<rparr>)
           | (None, db) \<Rightarrow> (None, bq\<lparr>qdb := db\<rparr>)))"

definition AddBatch ::
  "'db queue_env \<Rightarrow> 'db BatchQueue \<Rightarrow> Batch \<Rightarrow> goerr option \<times> 'db BatchQueue" where
  "AddBatch env bq batch =
     (let effectiveSize = int (length (queue bq)) - int (head bq) in
      if maxQueueSize bq > 0 \<and> effectiveSize \<ge> maxQueueSize bq
      then (Some (Sentinel ErrQueueFull), bq)
      else let key = seqToKey (nextAddSeq bq) in
        (case persistBatch env bq batch key of
           (Some e, bq1) \<Rightarrow> (Some e, bq1)
         | (None, bq1) \<Rightarrow>
             (None, bq1\<lparr>nextAddSeq := nextAddSeq bq1 + 1,
                        queue := queue bq1 @ [\<lparr>Batch = batch, Key = key\<rparr>]\<rparr>)))"

definition Prepend ::
  "'db queue_env \<Rightarrow> 'db BatchQueue \<Rightarrow> Batch \<Rightarrow> goerr option \<times> 'db BatchQueue" where
  "Prepend env bq batch =
     (let key = seqToKey (nextPrependSeq bq) in
      case persistBatch env bq batch key of
        (Some e, bq1) \<Rightarrow> (Some e, bq1)
      | (None, bq1) \<Rightarrow>
          let bq2 = bq1\<lparr>nextPrependSeq := nextPrependSeq bq1 - 1\<rparr>;
              item = \<lparr>Batch = batch, Key = key\<rparr> in
          if head bq2 > 0
          then (None, bq2\<lparr>head := head bq2 - 1, queue := (queue bq2)[head bq2 - 1 := item]\<rparr>)
          else (None, bq2\<lparr>queue := item # queue bq2\<rparr>))"

text \<open>The compaction copies the live suffix to the front of the slice, clears what is left of the
  old contents and truncates the slice to the copied part.\<close>

definition compact :: "'db BatchQueue \<Rightarrow> 'db BatchQueue" where
  "compact bq =
     (if head bq > length (queue bq) div 2 \<and> head bq > 100
      then bq\<lparr>queue := drop (head bq) (queue bq), head := 0\<rparr>
      else bq)"

text \<open>An error of the final delete is printed and dropped, so \<^verbatim>\<open>Next\<close> returns no error.\<close>

definition Next :: "'db queue_env \<Rightarrow> 'db BatchQueue \<Rightarrow> Batch \<times> 'db BatchQueue" where
  "Next env bq =
     (if head bq \<ge> length (queue bq) then ([], bq)
      else
        let item = queue bq ! head bq;
            bq1 = bq\<lparr>queue := (queue bq)[head bq := emptyItem], head := head bq + 1\<rparr>;
            bq2 = compact bq1;
            (err, db) = ds_delete (qstore env) (qdb bq2) (ds_new_key (qstore env) (Key item)) in
        (Batch item, bq2\<lparr>qdb := db\<rparr>))"

definition Size :: "'db BatchQueue \<Rightarrow> int" where
  "Size bq = int (length (queue bq)) - int (head bq)"

text \<open>\<^verbatim>\<open>strconv.ParseUint(keyName, 16, 64)\<close> on a 16-digit string, which cannot overflow.\<close>

definition parse_hex :: "string \<Rightarrow> u64 option" where
  "parse_hex s =
     (let ds = map hex_value s in
      if None \<in> set ds then None else Some (of_nat (of_digits 16 (map the ds))))"

text \<open>One result of the query: an entry that cannot be read or decoded is skipped, an entry with a
  sequence number is queued, any other one is kept aside as a legacy item.\<close>

definition load_entry ::
  "'db queue_env \<Rightarrow> (string \<times> bytes) result \<Rightarrow> 'db BatchQueue \<times> queuedItem list
     \<Rightarrow> 'db BatchQueue \<times> queuedItem list" where
  "load_entry env res st =
     (let (bq, legacy) = st in
      case res of
        Inl e \<Rightarrow> (bq, legacy)
      | Inr (rkey, rvalue) \<Rightarrow>
          let keyName = ds_key_name (qstore env) (ds_new_key (qstore env) rkey) in
          (case unmarshal_batch env rvalue of
             Inl e \<Rightarrow> (bq, legacy)
           | Inr batch \<Rightarrow>
               (case (if length keyName = 16 then parse_hex keyName else None) of
                  None \<Rightarrow> (bq, legacy @ [\<lparr>Batch = batch, Key = rkey\<rparr>])
                | Some seq \<Rightarrow>
                    let bq1 = (if seq \<ge> nextAddSeq bq then bq\<lparr>nextAddSeq := seq + 1\<rparr> else bq);
                        bq2 = (if seq \<le> nextPrependSeq bq1
                               then bq1\<lparr>nextPrependSeq := seq - 1\<rparr> else bq1) in
                    (bq2\<lparr>queue := queue bq2 @ [\<lparr>Batch = batch, Key = keyName\<rparr>]\<rparr>, legacy))))"

text \<open>A legacy item is written under a new sequence number, its old entry deleted and the item
  queued; an item whose write fails is skipped, an error of the delete is printed and dropped.\<close>

definition migrate_item :: "'db queue_env \<Rightarrow> queuedItem \<Rightarrow> 'db BatchQueue \<Rightarrow> 'db BatchQueue" where
  "migrate_item env item bq =
     (let newKeyName = seqToKey (nextAddSeq bq) in
      case persistBatch env bq (Batch item) newKeyName of
        (Some e, bq1) \<Rightarrow> bq1
      | (None, bq1) \<Rightarrow>
          let (err, db) = ds_delete (qstore env) (qdb bq1) (ds_new_key (qstore env) (Key item)) in
          bq1\<lparr>qdb := db,
              queue := queue bq1 @ [\<lparr>Batch = Batch item, Key = newKeyName\<rparr>],
              nextAddSeq := nextAddSeq bq1 + 1\<rparr>)"

definition Load :: "'db queue_env \<Rightarrow> 'db BatchQueue \<Rightarrow> goerr option \<times> 'db BatchQueue" where
  "Load env bq =
     (let bq0 = bq\<lparr>queue := [], head := 0, nextAddSeq := initialSeqNum,
                   nextPrependSeq := initialSeqNum - 1\<rparr> in
      case ds_query (qstore env) (qdb bq0) of
        Inl e \<Rightarrow> (Some (Wrap ''error querying datastore'' e), bq0)
      | Inr results \<Rightarrow>
          let (bq1, legacyItems) = fold (load_entry env) results (bq0, []) in
          (None, fold (migrate_item env) legacyItems bq1))"

lemmas queue_ops = persistBatch_def AddBatch_def Prepend_def Next_def compact_def

section \<open>Sequence keys\<close>

lemma seqToKey_digits: "seqToKey s = map hex_digit (to_digits 16 16 (unat s))"
  using hex_encode_digits [of 8 "unat s"] by (simp add: seqToKey_def put_be64_def)

lemma length_seqToKey [simp]: "length (seqToKey s) = 16"
  by (simp add: seqToKey_digits)

lemma unat_u64_hex: "unat (s :: u64) < 16 ^ 16"
  using unat_u64_max [of s] by simp

lemma parse_hex_seqToKey [simp]: "parse_hex (seqToKey s) = Some s"
proof -
  have v: "map hex_value (seqToKey s) = map Some (to_digits 16 16 (unat s))"
    unfolding seqToKey_digits map_map
    by (rule map_cong) (auto dest: to_digits_bound [rotated])
  have "None \<notin> set (map hex_value (seqToKey s))" unfolding v by auto
  moreover have "of_digits 16 (map the (map hex_value (seqToKey s))) = unat s"
    unfolding v using unat_u64_hex [of s] by (simp add: comp_def)
  ultimately show ?thesis unfolding parse_hex_def Let_def by simp
qed

lemma seqToKey_inject [simp]: "seqToKey s = seqToKey t \<longleftrightarrow> s = t"
  by (metis option.inject parse_hex_seqToKey)

lemma plain_seqToKey [simp]: "plain_key (seqToKey s)"
proof -
  have "c \<noteq> CHR ''/'' \<and> c \<noteq> CHR '':'' \<and> c \<noteq> CHR ''.''" if c: "c \<in> set (seqToKey s)" for c
  proof -
    obtain d where "d < 16" and "c = hex_digit d"
      using c by (auto simp: seqToKey_digits dest: to_digits_bound [rotated])
    then show ?thesis
      using nat_below_16_cases [of d] by (auto simp: hex_digit_def)
  qed
  moreover have "seqToKey s \<noteq> []" by (metis length_0_conv length_seqToKey zero_neq_numeral)
  ultimately show ?thesis by (auto simp: plain_key_def)
qed

lemma map_hex_digit_less:
  "length xs = length ys \<Longrightarrow> \<forall>d \<in> set xs \<union> set ys. d < 16 \<Longrightarrow>
     map hex_digit xs < map hex_digit ys \<longleftrightarrow> xs < ys"
  by (induction xs ys rule: list_induct2) (auto simp: hex_digit_less_iff hex_digit_inject)

lemma seqToKey_less_iff: "seqToKey s < seqToKey t \<longleftrightarrow> s < t"
proof -
  have "seqToKey s < seqToKey t \<longleftrightarrow> to_digits 16 16 (unat s) < to_digits 16 16 (unat t)"
    unfolding seqToKey_digits
    by (rule map_hex_digit_less) (auto dest: to_digits_bound [rotated])
  also have "\<dots> \<longleftrightarrow> unat s < unat t"
    by (rule to_digits_less_iff) (rule unat_u64_hex)+
  finally show ?thesis by (simp add: word_less_nat_alt)
qed

text \<open>
  C38: The key of a sequence number has 16 characters, parses back to that number, and keys compare
  as strings exactly as their numbers compare, so that a query ordered by key lists the batches in
  queue order.
\<close>

theorem seqToKey_order_preserving:
  "length (seqToKey s) = 16 \<and> parse_hex (seqToKey s) = Some s \<and>
   (seqToKey s < seqToKey t \<longleftrightarrow> s < t)"
  by (simp add: seqToKey_less_iff)

section \<open>The queue contract\<close>

text \<open>
  What the sequencer relies on: adding appends, prepending puts in front, taking removes the first
  batch (and returns no transactions when there is none), and a failed operation changes nothing.
\<close>

datatype queue_op = OpAdd Batch | OpPrepend Batch | OpNext

datatype queue_event = Added Batch | Prepended Batch | Took Batch | Failed goerr

fun fifo_event :: "queue_event \<Rightarrow> Batch list \<Rightarrow> Batch list option" where
  "fifo_event (Added b) xs = Some (xs @ [b])"
| "fifo_event (Prepended b) xs = Some (b # xs)"
| "fifo_event (Took b) [] = (if b = [] then Some [] else None)"
| "fifo_event (Took b) (x # xs) = (if b = x then Some xs else None)"
| "fifo_event (Failed e) xs = Some xs"

fun fifo_trace :: "queue_event list \<Rightarrow> Batch list \<Rightarrow> Batch list option" where
  "fifo_trace [] xs = Some xs"
| "fifo_trace (e # es) xs = (case fifo_event e xs of None \<Rightarrow> None | Some ys \<Rightarrow> fifo_trace es ys)"

locale batch_fifo =
  fixes add :: "'q \<Rightarrow> Batch \<Rightarrow> goerr option \<times> 'q"
    and prepend :: "'q \<Rightarrow> Batch \<Rightarrow> goerr option \<times> 'q"
    and take_next :: "'q \<Rightarrow> Batch \<times> 'q"
    and items :: "'q \<Rightarrow> Batch list"
    and inv :: "'q \<Rightarrow> bool"
  assumes add_items: "inv q \<Longrightarrow> add q b = (r, q') \<Longrightarrow>
      items q' = (if r = None then items q @ [b] else items q)"
    and prepend_items: "inv q \<Longrightarrow> prepend q b = (r, q') \<Longrightarrow>
      items q' = (if r = None then b # items q else items q)"
    and next_items: "inv q \<Longrightarrow> take_next q = (b, q') \<Longrightarrow>
      (case items q of [] \<Rightarrow> b = [] \<and> items q' = [] | x # xs \<Rightarrow> b = x \<and> items q' = xs)"
    and add_inv: "inv q \<Longrightarrow> add q b = (r, q') \<Longrightarrow> inv q'"
    and prepend_inv: "inv q \<Longrightarrow> prepend q b = (r, q') \<Longrightarrow> inv q'"
    and next_inv: "inv q \<Longrightarrow> take_next q = (b, q') \<Longrightarrow> inv q'"
begin

fun do_op :: "queue_op \<Rightarrow> 'q \<Rightarrow> queue_event \<times> 'q" where
  "do_op (OpAdd b) q = (case add q b of (None, q') \<Rightarrow> (Added b, q') | (Some e, q') \<Rightarrow> (Failed e, q'))"
| "do_op (OpPrepend b) q =
     (case prepend q b of (None, q') \<Rightarrow> (Prepended b, q') | (Some e, q') \<Rightarrow> (Failed e, q'))"
| "do_op OpNext q = (case take_next q of (b, q') \<Rightarrow> (Took b, q'))"

fun do_ops :: "queue_op list \<Rightarrow> 'q \<Rightarrow> queue_event list \<times> 'q" where
  "do_ops [] q = ([], q)"
| "do_ops (op # ops) q = (let (e, q1) = do_op op q; (es, q2) = do_ops ops q1 in (e # es, q2))"

lemma do_op_refines:
  assumes "inv q" and "do_op op q = (e, q')"
  shows "fifo_event e (items q) = Some (items q') \<and> inv q'"
proof (cases op)
  case (OpAdd b)
  then show ?thesis using assms add_items [of q b] add_inv [of q b]
    by (auto split: prod.splits option.splits)
next
  case (OpPrepend b)
  then show ?thesis using assms prepend_items [of q b] prepend_inv [of q b]
    by (auto split: prod.splits option.splits)
next
  case OpNext
  then show ?thesis using assms next_items [of q] next_inv [of q]
    by (auto split: prod.splits list.splits)
qed

lemma do_ops_refine:
  "inv q \<Longrightarrow> do_ops ops q = (es, q') \<Longrightarrow> fifo_trace es (items q) = Some (items q') \<and> inv q'"
proof (induction ops arbitrary: q es)
  case Nil
  then show ?case by simp
next
  case (Cons op ops)
  obtain e q1 where 1: "do_op op q = (e, q1)" by force
  obtain es1 q2 where 2: "do_ops ops q1 = (es1, q2)" by force
  from Cons.prems 1 2 have es: "es = e # es1" and q': "q2 = q'" by auto
  show ?case
    using do_op_refines [OF Cons.prems(1) 1] Cons.IH [OF _ 2 [unfolded q']] by (simp add: es)
qed

fun drain :: "nat \<Rightarrow> 'q \<Rightarrow> Batch list \<times> 'q" where
  "drain 0 q = ([], q)"
| "drain (Suc n) q = (let (b, q1) = take_next q; (bs, q2) = drain n q1 in (b # bs, q2))"

lemma next_nonempty:
  assumes "inv q" and "items q = x # xs" and "take_next q = (b, q')"
  shows "b = x" and "items q' = xs"
  using next_items [OF assms(1,3)] assms(2) by simp_all

lemma drain_items:
  assumes "inv q"
  shows "fst (drain (length (items q)) q) = items q \<and> items (snd (drain (length (items q)) q)) = []"
  using assms
proof (induction "items q" arbitrary: q)
  case Nil
  then have "items q = []" by simp
  then show ?case by simp
next
  case (Cons x xs)
  obtain b q1 where n: "take_next q = (b, q1)" by (cases "take_next q")
  from next_nonempty [OF Cons.prems Cons.hyps(2) [symmetric] n]
  have b: "b = x" and q1: "items q1 = xs" .
  have "inv q1" by (rule next_inv [OF Cons.prems n])
  from Cons.hyps(1) [OF q1 [symmetric] this] show ?case
    using Cons.hyps(2) [symmetric] by (auto simp: n b q1 split: prod.split)
qed

lemma requeue_front:
  assumes "inv q" and "take_next q = (b, q1)" and "prepend q1 b' = (None, q2)"
  shows "items q2 = b' # tl (items q)"
  using prepend_items [OF next_inv [OF assms(1,2)] assms(3)] next_items [OF assms(1,2)]
  by (auto split: list.splits)

end

section \<open>The queue keeps the contract\<close>

definition live :: "'db BatchQueue \<Rightarrow> queuedItem list" where
  "live bq = drop (head bq) (queue bq)"

definition queue_items :: "'db BatchQueue \<Rightarrow> Batch list" where
  "queue_items bq = map Batch (live bq)"

definition queue_wf :: "'db BatchQueue \<Rightarrow> bool" where
  "queue_wf bq \<longleftrightarrow> head bq \<le> length (queue bq)"

lemma persistBatch_frame:
  "persistBatch env bq b k = (r, bq') \<Longrightarrow>
     queue bq' = queue bq \<and> head bq' = head bq \<and> maxQueueSize bq' = maxQueueSize bq \<and>
     nextAddSeq bq' = nextAddSeq bq \<and> nextPrependSeq bq' = nextPrependSeq bq"
  by (auto simp: persistBatch_def split: sum.splits prod.splits option.splits)

lemma AddBatch_cases:
  assumes "AddBatch env bq b = (r, bq')"
  obtains (full) "r = Some (Sentinel ErrQueueFull)" "bq' = bq"
      "maxQueueSize bq > 0" "Size bq \<ge> maxQueueSize bq"
  | (failed) e where "r = Some e" "persistBatch env bq b (seqToKey (nextAddSeq bq)) = (Some e, bq')"
  | (added) bq1 where "r = None" "persistBatch env bq b (seqToKey (nextAddSeq bq)) = (None, bq1)"
      "bq' = bq1\<lparr>nextAddSeq := nextAddSeq bq + 1,
              queue := queue bq @ [\<lparr>Batch = b, Key = seqToKey (nextAddSeq bq)\<rparr>]\<rparr>"
proof (cases "maxQueueSize bq > 0 \<and> Size bq \<ge> maxQueueSize bq")
  case True
  then show ?thesis using assms full by (auto simp: AddBatch_def Size_def)
next
  case False
  then have nf: "\<not> (maxQueueSize bq > 0 \<and> int (length (queue bq)) - int (head bq) \<ge> maxQueueSize bq)"
    by (simp add: Size_def)
  obtain r1 bq1 where p: "persistBatch env bq b (seqToKey (nextAddSeq bq)) = (r1, bq1)" by force
  note eq = assms [unfolded AddBatch_def Let_def if_not_P [OF nf] p]
  show ?thesis
  proof (cases r1)
    case None
    show ?thesis
    proof (rule added)
      show "r = None" and "persistBatch env bq b (seqToKey (nextAddSeq bq)) = (None, bq1)"
        using eq p None by auto
      show "bq' = bq1\<lparr>nextAddSeq := nextAddSeq bq + 1,
              queue := queue bq @ [\<lparr>Batch = b, Key = seqToKey (nextAddSeq bq)\<rparr>]\<rparr>"
        using eq None persistBatch_frame [OF p] by simp
    qed
  next
    case (Some e)
    then have "r = Some e" "bq' = bq1" using eq by auto
    then show ?thesis using failed p Some by simp
  qed
qed

lemma compact_live [simp]: "live (compact bq) = live bq"
  by (simp add: compact_def live_def)

lemma compact_frame [simp]:
  "qdb (compact bq) = qdb bq" "nextAddSeq (compact bq) = nextAddSeq bq"
  "nextPrependSeq (compact bq) = nextPrependSeq bq" "maxQueueSize (compact bq) = maxQueueSize bq"
  by (simp_all add: compact_def)

lemma live_update_simps [simp]:
  "live (bq\<lparr>qdb := db\<rparr>) = live bq" "live (bq\<lparr>nextAddSeq := a\<rparr>) = live bq"
  "live (bq\<lparr>nextPrependSeq := a\<rparr>) = live bq"
  by (simp_all add: live_def)

lemma AddBatch_live:
  assumes "queue_wf bq" and "AddBatch env bq b = (r, bq')"
  shows "live bq' = (if r = None then live bq @ [\<lparr>Batch = b, Key = seqToKey (nextAddSeq bq)\<rparr>] else live bq)"
    and "queue_wf bq'"
  using assms
  by (auto simp: AddBatch_def Let_def live_def queue_wf_def dest!: persistBatch_frame
      split: if_splits prod.splits option.splits)

lemma drop_list_update_pred:
  "0 < n \<Longrightarrow> n \<le> length xs \<Longrightarrow> drop (n - Suc 0) (xs[n - Suc 0 := x]) = x # drop n xs"
  by (cases n) (simp_all add: Cons_nth_drop_Suc [symmetric])

lemma Prepend_live:
  assumes "queue_wf bq" and "Prepend env bq b = (r, bq')"
  shows "live bq' = (if r = None then \<lparr>Batch = b, Key = seqToKey (nextPrependSeq bq)\<rparr> # live bq else live bq)"
    and "queue_wf bq'"
  using assms
  by (auto simp: Prepend_def Let_def live_def queue_wf_def drop_list_update_pred
      dest!: persistBatch_frame split: if_splits prod.splits option.splits)

lemma Next_live:
  assumes "queue_wf bq" and "Next env bq = (b, bq')"
  shows "(case live bq of [] \<Rightarrow> b = [] \<and> bq' = bq | x # xs \<Rightarrow> b = Batch x \<and> live bq' = xs)"
    and "queue_wf bq'"
proof -
  show "(case live bq of [] \<Rightarrow> b = [] \<and> bq' = bq | x # xs \<Rightarrow> b = Batch x \<and> live bq' = xs)"
  proof (cases "head bq < length (queue bq)")
    case True
    then have "live bq = queue bq ! head bq # drop (Suc (head bq)) (queue bq)"
      by (simp add: live_def Cons_nth_drop_Suc)
    moreover have "live (bq\<lparr>queue := (queue bq)[head bq := emptyItem], head := Suc (head bq)\<rparr>) =
        drop (Suc (head bq)) (queue bq)"
      by (simp add: live_def)
    ultimately show ?thesis
      using True assms(2) by (auto simp: Next_def Let_def split: prod.splits)
  next
    case False
    then show ?thesis using assms(2) by (simp add: Next_def live_def)
  qed
  show "queue_wf bq'"
    using assms by (auto simp: Next_def Let_def queue_wf_def compact_def split: if_splits prod.splits)
qed

interpretation bq_fifo: batch_fifo "AddBatch env" "Prepend env" "Next env" queue_items queue_wf
  for env :: "'db queue_env"
proof unfold_locales
  fix q :: "'db BatchQueue" and b r q'
  assume wf: "queue_wf q"
  show "AddBatch env q b = (r, q') \<Longrightarrow>
      queue_items q' = (if r = None then queue_items q @ [b] else queue_items q)"
    and "AddBatch env q b = (r, q') \<Longrightarrow> queue_wf q'"
    using AddBatch_live [OF wf] by (auto simp: queue_items_def)
  show "Prepend env q b = (r, q') \<Longrightarrow>
      queue_items q' = (if r = None then b # queue_items q else queue_items q)"
    and "Prepend env q b = (r, q') \<Longrightarrow> queue_wf q'"
    using Prepend_live [OF wf] by (auto simp: queue_items_def)
  show "Next env q = (b, q') \<Longrightarrow>
      (case queue_items q of [] \<Rightarrow> b = [] \<and> queue_items q' = []
       | x # xs \<Rightarrow> b = x \<and> queue_items q' = xs)"
    and "Next env q = (b, q') \<Longrightarrow> queue_wf q'"
    using Next_live [OF wf, of env b q'] by (auto simp: queue_items_def split: list.splits)
qed

section \<open>Properties\<close>

text \<open>An operation on the queue with what its caller sees of it.\<close>

fun queue_step :: "'db queue_env \<Rightarrow> queue_op \<Rightarrow> 'db BatchQueue \<Rightarrow> queue_event \<times> 'db BatchQueue" where
  "queue_step env (OpAdd b) bq =
     (case AddBatch env bq b of (None, bq') \<Rightarrow> (Added b, bq') | (Some e, bq') \<Rightarrow> (Failed e, bq'))"
| "queue_step env (OpPrepend b) bq =
     (case Prepend env bq b of (None, bq') \<Rightarrow> (Prepended b, bq') | (Some e, bq') \<Rightarrow> (Failed e, bq'))"
| "queue_step env OpNext bq = (case Next env bq of (b, bq') \<Rightarrow> (Took b, bq'))"

fun queue_run :: "'db queue_env \<Rightarrow> queue_op list \<Rightarrow> 'db BatchQueue \<Rightarrow> queue_event list \<times> 'db BatchQueue" where
  "queue_run env [] bq = ([], bq)"
| "queue_run env (op # ops) bq =
     (let (e, bq1) = queue_step env op bq; (es, bq2) = queue_run env ops bq1 in (e # es, bq2))"

lemma queue_step_do_op: "queue_step env op bq = bq_fifo.do_op env op bq"
  by (cases op) simp_all

lemma queue_run_do_ops: "queue_run env ops bq = bq_fifo.do_ops env ops bq"
  by (induction ops arbitrary: bq) (simp_all add: queue_step_do_op)

text \<open>
  C14: Refinement. Every run of additions, re-queueings and takings is a run of a plain list: an
  addition that succeeds appends its batch, a re-queueing puts its batch in front, a taking returns
  and removes the first batch (no transactions when there is none), a failed operation changes
  nothing; the head index, its reuse by \<^verbatim>\<open>Prepend\<close> and the compaction are invisible.
\<close>

theorem queue_refines_list:
  assumes "head bq \<le> length (queue bq)" and "queue_run env ops bq = (es, bq')"
  shows "fifo_trace es (queue_items bq) = Some (queue_items bq') \<and> head bq' \<le> length (queue bq')"
  using bq_fifo.do_ops_refine [of bq env ops es bq'] assms
  by (simp add: queue_run_do_ops queue_wf_def)

text \<open>
  The size bound. An addition on a full bounded queue is refused with \<^verbatim>\<open>ErrQueueFull\<close> and
  changes nothing, and an addition that succeeds leaves a bounded queue within its bound.
\<close>

theorem AddBatch_bound:
  assumes "maxQueueSize bq > 0" and "AddBatch env bq b = (r, bq')"
  shows "(Size bq \<ge> maxQueueSize bq \<longrightarrow> r = Some (Sentinel ErrQueueFull) \<and> bq' = bq) \<and>
    (r = None \<longrightarrow> Size bq' = Size bq + 1 \<and> Size bq' \<le> maxQueueSize bq')"
proof (cases "Size bq \<ge> maxQueueSize bq")
  case True
  then show ?thesis using assms by (auto simp: AddBatch_def Size_def)
next
  case False
  show ?thesis using assms(2)
  proof (cases rule: AddBatch_cases)
    case (added bq1)
    then show ?thesis using False persistBatch_frame [OF added(2)] by (simp add: Size_def)
  qed (use False in auto)
qed

definition tiny_env :: "view queue_env" where
  "tiny_env = \<lparr>qstore = \<lparr>ds_get = (\<lambda>m k. case m k of None \<Rightarrow> Inl (Sentinel ErrNotFound) | Some v \<Rightarrow> Inr v),
       ds_put = (\<lambda>m k v. (None, m(k \<mapsto> v))), ds_delete = (\<lambda>m k. (None, m(k := None))),
       ds_query = (\<lambda>m. Inr []), ds_query_prefix = (\<lambda>m pfx. Inr []), ds_batch = (\<lambda>m. None), ds_batch_add = (\<lambda>m ops op. None), ds_commit = (\<lambda>m ops. (None, apply_ops ops m)),
       ds_new_key = slash_key, ds_key_name = base_name\<rparr>,
     marshal_batch = (\<lambda>b. Inr (concat b)), unmarshal_batch = (\<lambda>v. Inr [v])\<rparr>"

lemmas tiny_run = tiny_env_def NewBatchQueue_def AddBatch_def Prepend_def Next_def persistBatch_def
  compact_def Let_def

theorem queue_refines_list_witness:
  "fst (queue_run tiny_env [OpAdd [[1]], OpAdd [[2]], OpNext, OpPrepend [[3]], OpNext, OpNext, OpNext]
     (NewBatchQueue Map.empty 2)) =
     [Added [[1]], Added [[2]], Took [[1]], Prepended [[3]], Took [[3]], Took [[2]], Took []] \<and>
   fifo_trace [Added [[1]], Added [[2]], Took [[1]], Prepended [[3]], Took [[3]], Took [[2]], Took []] [] = Some []"
proof -
  let ?ops = "[OpAdd [[1]], OpAdd [[2]], OpNext, OpPrepend [[3]], OpNext, OpNext, OpNext]"
  let ?q = "NewBatchQueue Map.empty 2 :: view BatchQueue"
  obtain es q' where run: "queue_run tiny_env ?ops ?q = (es, q')" by force
  then have "es = [Added [[1]], Added [[2]], Took [[1]], Prepended [[3]], Took [[3]], Took [[2]], Took []]"
    and "queue_items q' = []"
    by (auto simp: tiny_run queue_items_def live_def)
  moreover have "fifo_trace es (queue_items ?q) = Some (queue_items q')"
    using queue_refines_list [OF _ run] by (simp add: NewBatchQueue_def)
  ultimately show ?thesis using run by (simp add: queue_items_def NewBatchQueue_def live_def)
qed

theorem AddBatch_bound_witness:
  "AddBatch tiny_env (snd (AddBatch tiny_env (NewBatchQueue Map.empty 1) [[1]])) [[2]] =
     (Some (Sentinel ErrQueueFull), snd (AddBatch tiny_env (NewBatchQueue Map.empty 1) [[1]]))"
proof -
  let ?q = "snd (AddBatch tiny_env (NewBatchQueue Map.empty 1) [[1]])"
  have "Size ?q \<ge> maxQueueSize ?q" and "maxQueueSize ?q > 0" by (simp_all add: tiny_run Size_def)
  then show ?thesis
    using AddBatch_bound [OF _ surjective_pairing, of ?q tiny_env "[[2]]"] by (simp add: prod_eq_iff)
qed

end
