(* ===== verification/Queue_Log.thy ===== *)
theory Queue_Log
  imports Queue
begin

text \<open>
  Durability of the batch queue of \<^verbatim>\<open>src/pkg/sequencers/single/queue.go\<close>. The log holds every
  live batch under its sequence key, in queue order, through additions, re-queueings, takings and
  restarts, whatever operation of the datastore fails; a reload therefore gives back the queue, and
  more than the queue only where the deletion of a taken batch failed.
\<close>

section \<open>The write-ahead log\<close>

text \<open>The codec gives back the batch it encoded.\<close>

definition batch_codec_ok :: "'db queue_env \<Rightarrow> bool" where
  "batch_codec_ok env \<longleftrightarrow> (\<forall>b v. marshal_batch env b = Inr v \<longrightarrow> unmarshal_batch env v = Inr b)"

definition seq_path :: "u64 \<Rightarrow> string" where
  "seq_path s = CHR ''/'' # seqToKey s"

lemma seq_path_inject [simp]: "seq_path s = seq_path t \<longleftrightarrow> s = t"
  by (simp add: seq_path_def)

definition stored_batch :: "'db queue_env \<Rightarrow> view \<Rightarrow> u64 \<Rightarrow> Batch option" where
  "stored_batch env m s =
     (case m (seq_path s) of None \<Rightarrow> None
      | Some v \<Rightarrow> (case unmarshal_batch env v of Inl e \<Rightarrow> None | Inr b \<Rightarrow> Some b))"

definition stored_item :: "'db queue_env \<Rightarrow> view \<Rightarrow> u64 \<Rightarrow> queuedItem" where
  "stored_item env m s = \<lparr>Batch = the (stored_batch env m s), Key = seqToKey s\<rparr>"

lemma stored_batch_update [simp]:
  "stored_batch env (m(seq_path t \<mapsto> v)) s =
     (if s = t then (case unmarshal_batch env v of Inl e \<Rightarrow> None | Inr b \<Rightarrow> Some b)
      else stored_batch env m s)"
  "stored_batch env (m(seq_path t := None)) s = (if s = t then None else stored_batch env m s)"
  by (simp_all add: stored_batch_def)

text \<open>A log all of whose entries are decodable batches under sequence keys strictly between
  \<^verbatim>\<open>lo\<close> and \<^verbatim>\<open>hi\<close>.\<close>

definition log_wf :: "'db queue_env \<Rightarrow> u64 \<Rightarrow> u64 \<Rightarrow> view \<Rightarrow> bool" where
  "log_wf env lo hi m \<longleftrightarrow> lo < initialSeqNum \<and> initialSeqNum \<le> hi \<and>
     (\<forall>k \<in> dom m. \<exists>s. k = seq_path s \<and> lo < s \<and> s < hi \<and> stored_batch env m s \<noteq> None)"

text \<open>The log invariant: the live items are stored, in the order of their sequence numbers. The
  log may hold more than the queue, since a failed delete leaves the entry of a taken batch.\<close>

definition wal_seqs :: "'db queue_env \<Rightarrow> ('db \<Rightarrow> view) \<Rightarrow> 'db BatchQueue \<Rightarrow> u64 list \<Rightarrow> bool" where
  "wal_seqs env vw bq seqs \<longleftrightarrow> queue_wf bq \<and>
     log_wf env (nextPrependSeq bq) (nextAddSeq bq) (vw (qdb bq)) \<and>
     live bq = map (stored_item env (vw (qdb bq))) seqs \<and> sorted_wrt (<) seqs \<and>
     seq_path ` set seqs \<subseteq> dom (vw (qdb bq))"

definition wal_inv :: "'db queue_env \<Rightarrow> ('db \<Rightarrow> view) \<Rightarrow> 'db BatchQueue \<Rightarrow> bool" where
  "wal_inv env vw bq \<longleftrightarrow> (\<exists>seqs. wal_seqs env vw bq seqs)"

lemma log_wf_stored:
  assumes "log_wf env lo hi m" and "seq_path s \<in> dom m"
  shows "lo < s" and "s < hi" and "stored_batch env m s \<noteq> None"
proof -
  from assms obtain t where "seq_path s = seq_path t" "lo < t" "t < hi" "stored_batch env m t \<noteq> None"
    unfolding log_wf_def by blast
  then show "lo < s" and "s < hi" and "stored_batch env m s \<noteq> None" by simp_all
qed

lemma log_wfI:
  assumes "lo < initialSeqNum" and "initialSeqNum \<le> hi"
    and "\<And>k. k \<in> dom m \<Longrightarrow> \<exists>s. k = seq_path s \<and> lo < s \<and> s < hi \<and> stored_batch env m s \<noteq> None"
  shows "log_wf env lo hi m"
  using assms unfolding log_wf_def by blast

lemma log_wf_bounds:
  "log_wf env lo hi m \<Longrightarrow> lo < initialSeqNum" "log_wf env lo hi m \<Longrightarrow> initialSeqNum \<le> hi"
  by (simp_all add: log_wf_def)

lemma log_wf_key:
  "log_wf env lo hi m \<Longrightarrow> k \<in> dom m \<Longrightarrow>
     \<exists>s. k = seq_path s \<and> lo < s \<and> s < hi \<and> stored_batch env m s \<noteq> None"
  unfolding log_wf_def by blast

lemma log_wf_put:
  assumes wf: "log_wf env lo hi m" and v: "unmarshal_batch env v = Inr b"
    and lo: "lo' \<le> lo" and hi: "hi \<le> hi'" and s: "lo' < s" "s < hi'"
  shows "log_wf env lo' hi' (m(seq_path s \<mapsto> v))"
proof (rule log_wfI)
  show "lo' < initialSeqNum" "initialSeqNum \<le> hi'" using log_wf_bounds [OF wf] lo hi by auto
next
  fix k assume k: "k \<in> dom (m(seq_path s \<mapsto> v))"
  show "\<exists>t. k = seq_path t \<and> lo' < t \<and> t < hi' \<and> stored_batch env (m(seq_path s \<mapsto> v)) t \<noteq> None"
  proof (cases "k = seq_path s")
    case True then show ?thesis using s v by auto
  next
    case False
    then have "k \<in> dom m" using k by auto
    then obtain t where "k = seq_path t" "lo < t" "t < hi" "stored_batch env m t \<noteq> None"
      using log_wf_key [OF wf] by blast
    then show ?thesis using False lo hi by (intro exI [of _ t]) auto
  qed
qed

lemma log_wf_delete:
  assumes wf: "log_wf env lo hi m"
  shows "log_wf env lo hi (m(seq_path s := None))"
proof (rule log_wfI)
  fix k assume k: "k \<in> dom (m(seq_path s := None))"
  then have "k \<in> dom m" by (auto split: if_splits)
  then obtain t where "k = seq_path t" "lo < t" "t < hi" "stored_batch env m t \<noteq> None"
    using log_wf_key [OF wf] by blast
  then show "\<exists>t. k = seq_path t \<and> lo < t \<and> t < hi \<and> stored_batch env (m(seq_path s := None)) t \<noteq> None"
    using k by (intro exI [of _ t]) auto
qed (use log_wf_bounds [OF wf] in auto)

lemma persistBatch_ok:
  assumes "datastore_ok (qstore env) vw" and "batch_codec_ok env"
    and "persistBatch env bq b (seqToKey s) = (None, bq')"
  obtains v where "unmarshal_batch env v = Inr b" and "vw (qdb bq') = (vw (qdb bq))(seq_path s \<mapsto> v)"
  using assms datastore_putD(1) [OF assms(1)]
  by (fastforce simp: persistBatch_def batch_codec_ok_def seq_path_def keysD
      split: sum.splits prod.splits option.splits)

lemma persistBatch_error:
  assumes "datastore_ok (qstore env) vw" and "persistBatch env bq b k = (Some e, bq')"
  shows "vw (qdb bq') = vw (qdb bq)"
  using assms datastore_putD(2) [OF assms(1)]
  by (auto simp: persistBatch_def split: sum.splits prod.splits option.splits)

subsection \<open>Every operation keeps the log invariant\<close>

lemma wal_seqsI:
  assumes "queue_wf bq" and "log_wf env (nextPrependSeq bq) (nextAddSeq bq) (vw (qdb bq))"
    and "live bq = map (stored_item env (vw (qdb bq))) seqs" and "sorted_wrt (<) seqs"
    and "seq_path ` set seqs \<subseteq> dom (vw (qdb bq))"
  shows "wal_seqs env vw bq seqs"
  using assms unfolding wal_seqs_def by blast

lemma wal_seqsD:
  assumes "wal_seqs env vw bq seqs"
  shows "queue_wf bq" and "log_wf env (nextPrependSeq bq) (nextAddSeq bq) (vw (qdb bq))"
    and "live bq = map (stored_item env (vw (qdb bq))) seqs" and "sorted_wrt (<) seqs"
    and "seq_path ` set seqs \<subseteq> dom (vw (qdb bq))"
    and "\<forall>s \<in> set seqs. nextPrependSeq bq < s \<and> s < nextAddSeq bq"
proof -
  show *: "queue_wf bq" "log_wf env (nextPrependSeq bq) (nextAddSeq bq) (vw (qdb bq))"
    "live bq = map (stored_item env (vw (qdb bq))) seqs" "sorted_wrt (<) seqs"
    "seq_path ` set seqs \<subseteq> dom (vw (qdb bq))"
    using assms unfolding wal_seqs_def by blast+
  show "\<forall>s \<in> set seqs. nextPrependSeq bq < s \<and> s < nextAddSeq bq"
    using log_wf_stored(1,2) [OF *(2)] *(5) by blast
qed

lemma stored_item_put:
  "t \<notin> set seqs \<Longrightarrow> map (stored_item env (m(seq_path t \<mapsto> v))) seqs = map (stored_item env m) seqs"
  "t \<notin> set seqs \<Longrightarrow> map (stored_item env (m(seq_path t := None))) seqs = map (stored_item env m) seqs"
  by (auto simp: stored_item_def)

lemma stored_item_same:
  "unmarshal_batch env v = Inr b \<Longrightarrow>
     stored_item env (m(seq_path t \<mapsto> v)) t = \<lparr>Batch = b, Key = seqToKey t\<rparr>"
  by (simp add: stored_item_def)

lemma persistBatch_failed_inv:
  assumes "datastore_ok (qstore env) vw" and "wal_inv env vw bq"
    and "persistBatch env bq b k = (Some e, bq')"
  shows "wal_inv env vw bq'"
  using assms(2) persistBatch_error [OF assms(1,3)] persistBatch_frame [OF assms(3)]
  by (simp add: wal_inv_def wal_seqs_def queue_wf_def live_def)

lemma AddBatch_wal:
  assumes ok: "datastore_ok (qstore env) vw" "batch_codec_ok env"
    and inv: "wal_inv env vw bq" and room: "nextAddSeq bq < - 1"
    and add: "AddBatch env bq b = (r, bq')"
  shows "wal_inv env vw bq'"
  using add
proof (cases rule: AddBatch_cases)
  case full
  then show ?thesis using inv by simp
next
  case (failed e)
  then show ?thesis using persistBatch_failed_inv [OF ok(1) inv] by blast
next
  case (added bq1)
  let ?s = "nextAddSeq bq"
  from inv obtain seqs where ws: "wal_seqs env vw bq seqs" unfolding wal_inv_def ..
  note q = wal_seqsD [OF ws]
  from persistBatch_ok [OF ok added(2)] obtain v where v: "unmarshal_batch env v = Inr b"
    and m: "vw (qdb bq1) = (vw (qdb bq))(seq_path ?s \<mapsto> v)" by blast
  note fr = persistBatch_frame [OF added(2)]
  have fresh: "?s \<notin> set seqs" using q(6) by blast
  have lo: "nextPrependSeq bq < ?s" using log_wf_bounds [OF q(2)] by order
  have "wal_seqs env vw bq' (seqs @ [?s])"
  proof (rule wal_seqsI)
    show "live bq' = map (stored_item env (vw (qdb bq'))) (seqs @ [?s])"
      using AddBatch_live(1) [OF q(1) add] added(1) q(3)
      by (simp add: added(3) m stored_item_put(1) [OF fresh] stored_item_same [OF v] del: map_eq_conv)
    show "log_wf env (nextPrependSeq bq') (nextAddSeq bq') (vw (qdb bq'))"
      using log_wf_put [OF q(2) v, of "nextPrependSeq bq" "?s + 1" ?s] lo u64_less_succ [OF room]
      by (simp add: added(3) m fr)
    show "sorted_wrt (<) (seqs @ [?s])" using q(4,6) by (auto simp: sorted_wrt_append)
    show "queue_wf bq'" by (rule AddBatch_live(2) [OF q(1) add])
    show "seq_path ` set (seqs @ [?s]) \<subseteq> dom (vw (qdb bq'))"
      using q(5) by (auto simp: added(3) m)
  qed
  then show ?thesis unfolding wal_inv_def ..
qed

lemma Prepend_wal:
  assumes ok: "datastore_ok (qstore env) vw" "batch_codec_ok env"
    and inv: "wal_inv env vw bq" and room: "0 < nextPrependSeq bq"
    and pre: "Prepend env bq b = (r, bq')"
  shows "wal_inv env vw bq'"
proof (cases "persistBatch env bq b (seqToKey (nextPrependSeq bq))")
  case (Pair r1 bq1)
  show ?thesis
  proof (cases r1)
    case (Some e)
    then show ?thesis using pre Pair persistBatch_failed_inv [OF ok(1) inv, of b]
      by (auto simp: Prepend_def)
  next
    case None
    let ?s = "nextPrependSeq bq"
    note p = Pair [unfolded None]
    from inv obtain seqs where ws: "wal_seqs env vw bq seqs" unfolding wal_inv_def ..
    note q = wal_seqsD [OF ws]
    from persistBatch_ok [OF ok p] obtain v where v: "unmarshal_batch env v = Inr b"
      and m: "vw (qdb bq1) = (vw (qdb bq))(seq_path ?s \<mapsto> v)" by blast
    note fr = persistBatch_frame [OF p]
    have r: "r = None" and q': "qdb bq' = qdb bq1" "nextPrependSeq bq' = ?s - 1" "nextAddSeq bq' = nextAddSeq bq"
      using pre p fr by (auto simp: Prepend_def Let_def split: if_splits)
    have fresh: "?s \<notin> set seqs" using q(6) by blast
    have hi: "?s < nextAddSeq bq" using log_wf_bounds [OF q(2)] by order
    have "wal_seqs env vw bq' (?s # seqs)"
    proof (rule wal_seqsI)
      show "live bq' = map (stored_item env (vw (qdb bq'))) (?s # seqs)"
        using Prepend_live(1) [OF q(1) pre] r q(3)
        by (simp add: q' m stored_item_put(1) [OF fresh] stored_item_same [OF v] del: map_eq_conv)
      show "log_wf env (nextPrependSeq bq') (nextAddSeq bq') (vw (qdb bq'))"
        using log_wf_put [OF q(2) v, of "?s - 1" "nextAddSeq bq" ?s] hi u64_pred_less [OF room]
        by (simp add: q' m)
      show "sorted_wrt (<) (?s # seqs)" using q(4,6) by auto
      show "queue_wf bq'" by (rule Prepend_live(2) [OF q(1) pre])
      show "seq_path ` set (?s # seqs) \<subseteq> dom (vw (qdb bq'))"
        using q(5) by (auto simp: q' m)
    qed
    then show ?thesis unfolding wal_inv_def ..
  qed
qed

lemma Next_wal:
  assumes ok: "datastore_ok (qstore env) vw"
    and inv: "wal_inv env vw bq" and nxt: "Next env bq = (b, bq')"
  shows "wal_inv env vw bq'"
    and "nextAddSeq bq' = nextAddSeq bq \<and> nextPrependSeq bq' = nextPrependSeq bq"
proof -
  show "nextAddSeq bq' = nextAddSeq bq \<and> nextPrependSeq bq' = nextPrependSeq bq"
    using nxt by (auto simp: Next_def Let_def split: if_splits prod.splits)
  from inv obtain seqs where ws: "wal_seqs env vw bq seqs" unfolding wal_inv_def ..
  note q = wal_seqsD [OF ws]
  note lv = Next_live [OF q(1) nxt]
  show "wal_inv env vw bq'"
  proof (cases seqs)
    case Nil
    then show ?thesis using lv q(3) inv by simp
  next
    case (Cons s ss)
    then have hd: "live bq = stored_item env (vw (qdb bq)) s # map (stored_item env (vw (qdb bq))) ss"
      using q(3) by simp
    then have lt: "head bq < length (queue bq)" and nth: "queue bq ! head bq = stored_item env (vw (qdb bq)) s"
      by (auto simp: live_def) (metis drop_eq_Nil2 list.distinct(1) not_le, metis drop_eq_Nil2 hd_drop_conv_nth list.distinct(1) list.sel(1) not_le)
    obtain r db where del: "ds_delete (qstore env) (qdb bq) (seq_path s) = (r, db)" by force
    have "qdb bq' = db"
      using nxt lt del by (auto simp: Next_def nth stored_item_def seq_path_def keysD [OF ok] Let_def)
    moreover have "vw db = vw (qdb bq) \<or> vw db = (vw (qdb bq))(seq_path s := None)"
      using datastore_deleteD [OF ok] del by (cases r) auto
    moreover have "s \<notin> set ss" using q(4) Cons by auto
    moreover have "nextAddSeq bq' = nextAddSeq bq \<and> nextPrependSeq bq' = nextPrependSeq bq" by fact
    ultimately have "wal_seqs env vw bq' ss"
      using lv q(2,4,5) hd Cons log_wf_delete [OF q(2), of s]
      by (auto simp: wal_seqs_def stored_item_put simp del: map_eq_conv)
    then show ?thesis unfolding wal_inv_def ..
  qed
qed

subsection \<open>Recovery\<close>

text \<open>What the scan of the log does to the counters.\<close>

definition bump_add :: "u64 \<Rightarrow> u64 \<Rightarrow> u64" where
  "bump_add s a = (if a \<le> s then s + 1 else a)"

definition bump_prepend :: "u64 \<Rightarrow> u64 \<Rightarrow> u64" where
  "bump_prepend s a = (if s \<le> a then s - 1 else a)"

lemma fold_bump_add:
  assumes "\<forall>s \<in> set ss. s < hi" and "a \<le> hi"
  shows "a \<le> fold bump_add ss a \<and> fold bump_add ss a \<le> hi \<and> (\<forall>s \<in> set ss. s < fold bump_add ss a)"
  using assms
proof (induction ss arbitrary: a)
  case Nil
  then show ?case by simp
next
  case (Cons s ss)
  have s: "s < hi" using Cons.prems by simp
  then have "a \<le> bump_add s a" "bump_add s a \<le> hi" "s < bump_add s a"
    using Cons.prems u64_less_succ [OF s] inc_le [OF s] by (auto simp: bump_add_def)
  moreover from this Cons.IH [of "bump_add s a"] Cons.prems(1)
  have "bump_add s a \<le> fold bump_add ss (bump_add s a)" "fold bump_add ss (bump_add s a) \<le> hi"
    "\<forall>t \<in> set ss. t < fold bump_add ss (bump_add s a)" by auto
  ultimately show ?case by (auto intro: order_trans order.strict_trans2)
qed

lemma u64_le_pred: "(lo :: u64) < s \<Longrightarrow> lo \<le> s - 1"
  by (simp add: word_less_nat_alt word_le_nat_alt unat_u64_pred [of lo s, unfolded word_less_nat_alt])

lemma fold_bump_prepend:
  assumes "\<forall>s \<in> set ss. lo < s" and "lo \<le> a"
  shows "fold bump_prepend ss a \<le> a \<and> lo \<le> fold bump_prepend ss a \<and> (\<forall>s \<in> set ss. fold bump_prepend ss a < s)"
  using assms
proof (induction ss arbitrary: a)
  case Nil
  then show ?case by simp
next
  case (Cons s ss)
  have s: "lo < s" using Cons.prems by simp
  then have "bump_prepend s a \<le> a" "lo \<le> bump_prepend s a" "bump_prepend s a < s"
    using Cons.prems u64_pred_less [OF s] u64_le_pred [OF s] by (auto simp: bump_prepend_def)
  moreover from this Cons.IH [of "bump_prepend s a"] Cons.prems(1)
  have "fold bump_prepend ss (bump_prepend s a) \<le> bump_prepend s a" "lo \<le> fold bump_prepend ss (bump_prepend s a)"
    "\<forall>t \<in> set ss. fold bump_prepend ss (bump_prepend s a) < t" by auto
  ultimately show ?case by (auto intro: order_trans order.strict_trans1)
qed

lemma load_entry_seq:
  assumes ok: "datastore_ok (qstore env) vw" and b: "unmarshal_batch env v = Inr b"
  shows "load_entry env (Inr (seq_path s, v)) (bq, leg) =
    (bq\<lparr>nextAddSeq := bump_add s (nextAddSeq bq), nextPrependSeq := bump_prepend s (nextPrependSeq bq),
       queue := queue bq @ [\<lparr>Batch = b, Key = seqToKey s\<rparr>]\<rparr>, leg)"
  using b keysD [OF ok plain_seqToKey [of s]]
  by (simp add: load_entry_def seq_path_def bump_add_def bump_prepend_def)

lemma fold_load_entries:
  assumes ok: "datastore_ok (qstore env) vw" and st: "\<forall>s \<in> set ss. stored_batch env m s \<noteq> None"
  shows "fold (load_entry env) (map (\<lambda>s. Inr (seq_path s, the (m (seq_path s)))) ss) (bq, leg) =
    (bq\<lparr>nextAddSeq := fold bump_add ss (nextAddSeq bq),
       nextPrependSeq := fold bump_prepend ss (nextPrependSeq bq),
       queue := queue bq @ map (stored_item env m) ss\<rparr>, leg)"
  using st
proof (induction ss arbitrary: bq)
  case Nil
  then show ?case by simp
next
  case (Cons s ss)
  obtain v b where "m (seq_path s) = Some v" "unmarshal_batch env v = Inr b"
    using Cons.prems by (auto simp: stored_batch_def split: option.splits sum.splits)
  moreover from this have "stored_item env m s = \<lparr>Batch = b, Key = seqToKey s\<rparr>"
    by (simp add: stored_item_def stored_batch_def)
  ultimately show ?case using Cons load_entry_seq [OF ok] by simp
qed

definition path_seq :: "string \<Rightarrow> u64" where
  "path_seq k = the (parse_hex (tl k))"

lemma path_seq [simp]: "path_seq (seq_path s) = s"
  by (simp add: path_seq_def seq_path_def)

lemma seq_path_less [simp]: "seq_path s < seq_path t \<longleftrightarrow> s < t"
  by (simp add: seq_path_def seqToKey_less_iff)

lemma all_ok_entries: "list_all is_ok rs \<Longrightarrow> rs = map Inr (ok_entries rs)"
  by (induction rs rule: ok_entries.induct) auto

lemma query_seqs:
  assumes ok: "datastore_ok (qstore env) vw" and wf: "log_wf env lo hi (vw db)"
    and qry: "ds_query (qstore env) db = Inr rs" and all: "list_all is_ok rs"
  obtains ss where "rs = map (\<lambda>s. Inr (seq_path s, the (vw db (seq_path s)))) ss"
    and "sorted_wrt (<) ss" and "seq_path ` set ss = dom (vw db)"
proof -
  let ?es = "ok_entries rs"
  define ss where "ss = map (path_seq \<circ> fst) ?es"
  have key: "seq_path (path_seq k) = k" if "(k, v) \<in> set ?es" for k v
    using that datastore_queryD(2) [OF ok qry] log_wf_key [OF wf, of k] by (metis domI path_seq)
  have es: "?es = map (\<lambda>s. (seq_path s, the (vw db (seq_path s)))) ss"
    unfolding ss_def map_map
  proof (rule map_idI [symmetric])
    fix x assume x: "x \<in> set ?es"
    obtain k v where kv: "x = (k, v)" by (cases x)
    show "((\<lambda>s. (seq_path s, the (vw db (seq_path s)))) \<circ> (path_seq \<circ> fst)) x = x"
      using key [of k v] datastore_queryD(2) [OF ok qry, of k v] x by (simp add: kv)
  qed
  have keys: "map fst ?es = map seq_path ss" by (subst es) (simp add: comp_def)
  show thesis
  proof (rule that)
    show "rs = map (\<lambda>s. Inr (seq_path s, the (vw db (seq_path s)))) ss"
      by (subst all_ok_entries [OF all], subst es) (simp add: comp_def)
    show "sorted_wrt (<) ss"
      using datastore_queryD(1) [OF ok qry] by (simp add: keys sorted_wrt_map)
    have "seq_path ` set ss = fst ` set ?es" using arg_cong [OF keys, of set] by simp
    also have "\<dots> = dom (vw db)"
    proof (intro equalityI subsetI)
      fix k assume "k \<in> fst ` set ?es"
      then obtain v where "(k, v) \<in> set ?es" by force
      then show "k \<in> dom (vw db)" using datastore_queryD(2) [OF ok qry] by (intro domI)
    next
      fix k assume "k \<in> dom (vw db)"
      then obtain v where "vw db k = Some v" by blast
      then show "k \<in> fst ` set ?es" using datastore_queryD(3) [OF ok qry all] by force
    qed
    finally show "seq_path ` set ss = dom (vw db)" .
  qed
qed

lemma Load_wal:
  assumes ok: "datastore_ok (qstore env) vw" and wf: "log_wf env lo hi (vw (qdb bq))"
    and qry: "ds_query (qstore env) (qdb bq) = Inr rs" and all: "list_all is_ok rs"
  obtains bq' ss where "Load env bq = (None, bq')" and "wal_seqs env vw bq' ss"
    and "seq_path ` set ss = dom (vw (qdb bq))" and "qdb bq' = qdb bq"
    and "lo \<le> nextPrependSeq bq'" and "nextAddSeq bq' \<le> hi" and "head bq' = 0"
proof -
  obtain ss where rs: "rs = map (\<lambda>s. Inr (seq_path s, the (vw (qdb bq) (seq_path s)))) ss"
    and sorted: "sorted_wrt (<) ss" and dom: "seq_path ` set ss = dom (vw (qdb bq))"
    by (rule query_seqs [OF ok wf qry all])
  have st: "\<forall>s \<in> set ss. lo < s \<and> s < hi \<and> stored_batch env (vw (qdb bq)) s \<noteq> None"
    using log_wf_stored [OF wf] dom by blast
  define bq' where "bq' = bq\<lparr>queue := map (stored_item env (vw (qdb bq))) ss, head := 0,
      nextAddSeq := fold bump_add ss initialSeqNum,
      nextPrependSeq := fold bump_prepend ss (initialSeqNum - 1)\<rparr>"
  have init: "initialSeqNum - 1 < (initialSeqNum :: u64)" by (simp add: initialSeqNum_def)
  have lo: "lo \<le> initialSeqNum - 1" and hi: "initialSeqNum \<le> hi"
    using log_wf_bounds [OF wf] u64_le_pred by auto
  note a = fold_bump_add [of ss hi initialSeqNum] and p = fold_bump_prepend [of ss lo "initialSeqNum - 1"]
  show thesis
  proof (rule that)
    show "Load env bq = (None, bq')"
      using fold_load_entries [OF ok, of ss "vw (qdb bq)"] st qry
      by (simp add: Load_def rs bq'_def)
    show "wal_seqs env vw bq' ss"
    proof (rule wal_seqsI)
      show "log_wf env (nextPrependSeq bq') (nextAddSeq bq') (vw (qdb bq'))"
      proof (rule log_wfI)
        show "nextPrependSeq bq' < initialSeqNum" "initialSeqNum \<le> nextAddSeq bq'"
          using a p st lo hi init by (auto simp: bq'_def)
        fix k assume "k \<in> dom (vw (qdb bq'))"
        then obtain s where "s \<in> set ss" "k = seq_path s" using dom by (auto simp: bq'_def)
        then show "\<exists>s. k = seq_path s \<and> nextPrependSeq bq' < s \<and> s < nextAddSeq bq' \<and>
            stored_batch env (vw (qdb bq')) s \<noteq> None"
          using a p st lo hi by (auto simp: bq'_def)
      qed
    qed (use sorted dom in \<open>auto simp: bq'_def queue_wf_def live_def\<close>)
    show "lo \<le> nextPrependSeq bq'" "nextAddSeq bq' \<le> hi" using a p st lo hi by (auto simp: bq'_def)
    show "seq_path ` set ss = dom (vw (qdb bq))" by (rule dom)
  qed (simp_all add: bq'_def)
qed

text \<open>Two strictly sorted lists, one of whose elements are among the other's.\<close>

lemma sorted_sublist_filter:
  assumes "sorted_wrt (<) xs" and "sorted_wrt (<) ys" and "set xs \<subseteq> set (ys :: 'a :: linorder list)"
  shows "filter (\<lambda>y. y \<in> set xs) ys = xs"
  by (rule sorted_distinct_set_unique)
    (use assms sorted_wrt_filter [OF assms(2)] in \<open>auto simp: strict_sorted_iff\<close>)

subsection \<open>Reachable queues\<close>

text \<open>
  The states a queue can reach from an empty log in \<open>n\<close> writes: additions, re-queueings and
  takings in any order, with any of them failing, and restarts. A restart builds a new queue on the
  database as it is and loads it; the query must succeed and read every entry. A crash between the
  log write and the update of the slice is a restart after the operation, since the slice is lost
  in both cases.
\<close>

inductive queue_reach :: "'db queue_env \<Rightarrow> ('db \<Rightarrow> view) \<Rightarrow> nat \<Rightarrow> 'db BatchQueue \<Rightarrow> bool"
  for env :: "'db queue_env" and vw :: "'db \<Rightarrow> view" where
  new: "vw db = Map.empty \<Longrightarrow> queue_reach env vw 0 (NewBatchQueue db maxSize)"
| add: "queue_reach env vw n bq \<Longrightarrow> AddBatch env bq b = (r, bq') \<Longrightarrow> queue_reach env vw (Suc n) bq'"
| prepend: "queue_reach env vw n bq \<Longrightarrow> Prepend env bq b = (r, bq') \<Longrightarrow> queue_reach env vw (Suc n) bq'"
| take_next: "queue_reach env vw n bq \<Longrightarrow> Next env bq = (b, bq') \<Longrightarrow> queue_reach env vw n bq'"
| restart: "queue_reach env vw n bq \<Longrightarrow> ds_query (qstore env) (qdb bq) = Inr rs \<Longrightarrow>
    list_all is_ok rs \<Longrightarrow> Load env (NewBatchQueue (qdb bq) maxSize) = (r, bq') \<Longrightarrow>
    queue_reach env vw n bq'"

definition seq_room :: "nat \<Rightarrow> 'db BatchQueue \<Rightarrow> bool" where
  "seq_room n bq \<longleftrightarrow> unat (nextAddSeq bq) \<le> 2 ^ 63 + n \<and> 2 ^ 63 \<le> unat (nextPrependSeq bq) + 1 + n"

lemma unat_initialSeqNum: "unat initialSeqNum = 2 ^ 63" "unat (initialSeqNum - 1) = 2 ^ 63 - 1"
  by (simp_all add: initialSeqNum_def)

lemma seq_room_add:
  assumes "seq_room n bq" and "n < 2 ^ 63 - 1"
  shows "nextAddSeq bq < - 1" and "0 < nextPrependSeq bq"
proof -
  show "nextAddSeq bq < - 1" using assms unfolding u64_less_max_iff by (simp add: seq_room_def)
  show "0 < nextPrependSeq bq" using assms by (simp add: seq_room_def word_less_nat_alt)
qed

lemma AddBatch_counters:
  assumes "AddBatch env bq b = (r, bq')"
  shows "nextPrependSeq bq' = nextPrependSeq bq \<and>
    (nextAddSeq bq' = nextAddSeq bq \<or> nextAddSeq bq' = nextAddSeq bq + 1)"
  using assms
proof (cases rule: AddBatch_cases)
  case full
  then show ?thesis by simp
next
  case (failed e)
  then show ?thesis using persistBatch_frame [OF failed(2)] by simp
next
  case (added bq1)
  show ?thesis using persistBatch_frame [OF added(2)] by (simp add: added(3))
qed

lemma Prepend_counters:
  assumes "Prepend env bq b = (r, bq')"
  shows "nextAddSeq bq' = nextAddSeq bq \<and>
    (nextPrependSeq bq' = nextPrependSeq bq \<or> nextPrependSeq bq' = nextPrependSeq bq - 1)"
  using assms
  by (auto simp: Prepend_def Let_def dest!: persistBatch_frame split: if_splits prod.splits option.splits)

lemma seq_room_step:
  assumes "seq_room n bq" and "n < 2 ^ 63 - 1"
    and "nextAddSeq bq' = nextAddSeq bq \<or> nextAddSeq bq' = nextAddSeq bq + 1"
    and "nextPrependSeq bq' = nextPrependSeq bq \<or> nextPrependSeq bq' = nextPrependSeq bq - 1"
  shows "seq_room (Suc n) bq'"
proof -
  have "unat (nextAddSeq bq') \<le> unat (nextAddSeq bq) + 1"
    using assms(3) unat_u64_Suc [OF seq_room_add(1) [OF assms(1,2)]] by auto
  moreover have "unat (nextPrependSeq bq) \<le> unat (nextPrependSeq bq') + 1"
    using assms(4) unat_u64_pred [OF seq_room_add(2) [OF assms(1,2)]] by auto
  ultimately show ?thesis using assms(1) unfolding seq_room_def by linarith
qed

lemma NewBatchQueue_simps [simp]:
  "qdb (NewBatchQueue db mx) = db" "live (NewBatchQueue db mx) = []" "queue_wf (NewBatchQueue db mx)"
  "nextAddSeq (NewBatchQueue db mx) = initialSeqNum"
  "nextPrependSeq (NewBatchQueue db mx) = initialSeqNum - 1"
  by (simp_all add: NewBatchQueue_def live_def queue_wf_def)

lemma NewBatchQueue_wal: "vw db = Map.empty \<Longrightarrow> wal_seqs env vw (NewBatchQueue db mx) []"
  by (simp add: wal_seqs_def log_wf_def initialSeqNum_def)

lemma queue_reach_inv:
  assumes ok: "datastore_ok (qstore env) vw" "batch_codec_ok env" and "queue_reach env vw n bq"
  shows "n < 2 ^ 63 \<Longrightarrow> wal_inv env vw bq \<and> seq_room n bq"
  using assms(3)
proof (induction rule: queue_reach.induct)
  case (new db mx)
  then show ?case
    using NewBatchQueue_wal [of vw db env mx] by (auto simp: wal_inv_def seq_room_def unat_initialSeqNum)
next
  case (add n bq b r bq')
  then have inv: "wal_inv env vw bq" and room: "seq_room n bq" "n < 2 ^ 63 - 1" by auto
  have "wal_inv env vw bq'" by (rule AddBatch_wal [OF ok inv seq_room_add(1) [OF room] add.hyps(2)])
  moreover have "seq_room (Suc n) bq'"
    using seq_room_step [OF room] AddBatch_counters [OF add.hyps(2)] by blast
  ultimately show ?case ..
next
  case (prepend n bq b r bq')
  then have inv: "wal_inv env vw bq" and room: "seq_room n bq" "n < 2 ^ 63 - 1" by auto
  have "wal_inv env vw bq'" by (rule Prepend_wal [OF ok inv seq_room_add(2) [OF room] prepend.hyps(2)])
  moreover have "seq_room (Suc n) bq'"
    using seq_room_step [OF room] Prepend_counters [OF prepend.hyps(2)] by blast
  ultimately show ?case ..
next
  case (take_next n bq b bq')
  then have inv: "wal_inv env vw bq" and room: "seq_room n bq" by auto
  show ?case using Next_wal [OF ok(1) inv take_next.hyps(2)] room by (simp add: seq_room_def)
next
  case (restart n bq rs mx r bq')
  then have inv: "wal_inv env vw bq" and room: "seq_room n bq" by auto
  let ?new = "NewBatchQueue (qdb bq) mx"
  from inv have wf: "log_wf env (nextPrependSeq bq) (nextAddSeq bq) (vw (qdb ?new))"
    by (auto simp: wal_inv_def wal_seqs_def)
  have qry: "ds_query (qstore env) (qdb ?new) = Inr rs" using restart.hyps by simp
  obtain bq1 ss where "Load env ?new = (None, bq1)" "wal_seqs env vw bq1 ss"
    "nextPrependSeq bq \<le> nextPrependSeq bq1" "nextAddSeq bq1 \<le> nextAddSeq bq"
    by (rule Load_wal [OF ok(1) wf qry restart.hyps(3)])
  moreover from this have "bq1 = bq'" using restart.hyps(4) by simp
  ultimately show ?case using room by (auto simp: wal_inv_def seq_room_def word_le_nat_alt)
qed

subsection \<open>Stale entries\<close>

text \<open>The entries of the log that no live item owns.\<close>

definition stale :: "('db \<Rightarrow> view) \<Rightarrow> 'db BatchQueue \<Rightarrow> string set" where
  "stale vw bq = dom (vw (qdb bq)) - (\<lambda>it. CHR ''/'' # Key it) ` set (live bq)"

lemma stale_seqs:
  "wal_seqs env vw bq seqs \<Longrightarrow> stale vw bq = dom (vw (qdb bq)) - seq_path ` set seqs"
  by (simp add: stale_def wal_seqs_def stored_item_def seq_path_def image_image)

lemma persist_stale:
  assumes ok: "datastore_ok (qstore env) vw" "batch_codec_ok env"
    and p: "persistBatch env bq b (seqToKey s) = (r, bq1)"
    and live: "set (live bq') = (if r = None then insert \<lparr>Batch = b, Key = seqToKey s\<rparr> (set (live bq)) else set (live bq))"
    and db: "qdb bq' = qdb bq1" and "stale vw bq = {}"
  shows "stale vw bq' = {}"
proof (cases r)
  case None
  from persistBatch_ok [OF ok p [unfolded None]] obtain v where
    "vw (qdb bq1) = (vw (qdb bq))(seq_path s \<mapsto> v)" by blast
  then show ?thesis using assms(6) None live db by (auto simp: stale_def seq_path_def)
next
  case (Some e)
  then show ?thesis using assms(6) live db persistBatch_error [OF ok(1) p [unfolded Some]]
    by (auto simp: stale_def)
qed

lemma AddBatch_stale:
  assumes ok: "datastore_ok (qstore env) vw" "batch_codec_ok env" and wf: "queue_wf bq"
    and add: "AddBatch env bq b = (r, bq')" and st: "stale vw bq = {}"
  shows "stale vw bq' = {}"
  using add
proof (cases rule: AddBatch_cases)
  case full
  then show ?thesis using st by simp
next
  case (failed e)
  show ?thesis
    by (rule persist_stale [OF ok failed(2) _ refl st]) (simp add: AddBatch_live(1) [OF wf add] failed(1))
next
  case (added bq1)
  show ?thesis
    by (rule persist_stale [OF ok added(2) _ _ st])
      (use AddBatch_live(1) [OF wf add] in \<open>simp_all add: added(1,3)\<close>)
qed

lemma Prepend_stale:
  assumes ok: "datastore_ok (qstore env) vw" "batch_codec_ok env" and wf: "queue_wf bq"
    and pre: "Prepend env bq b = (r, bq')" and st: "stale vw bq = {}"
  shows "stale vw bq' = {}"
proof -
  obtain r1 bq1 where p: "persistBatch env bq b (seqToKey (nextPrependSeq bq)) = (r1, bq1)" by force
  have "r1 = r" and db: "qdb bq' = qdb bq1"
    using pre p by (auto simp: Prepend_def Let_def split: option.splits if_splits)
  then show ?thesis
    using persist_stale [OF ok p _ db st] Prepend_live(1) [OF wf pre] by auto
qed

lemma Next_stale:
  assumes ok: "datastore_ok (qstore env) vw" and del: "\<And>db k. fst (ds_delete (qstore env) db k) = None"
    and inv: "wal_inv env vw bq" and nxt: "Next env bq = (b, bq')" and st: "stale vw bq = {}"
  shows "stale vw bq' = {}"
proof (cases "live bq")
  case Nil
  from inv have "queue_wf bq" by (auto simp: wal_inv_def wal_seqs_def)
  from Next_live(1) [OF this nxt] Nil st show ?thesis by simp
next
  case (Cons it its)
  from inv obtain seqs where ws: "wal_seqs env vw bq seqs" unfolding wal_inv_def ..
  note q = wal_seqsD [OF ws]
  from Cons q(3) obtain s ss where seqs: "seqs = s # ss" and it: "Key it = seqToKey s"
    by (cases seqs) (auto simp: stored_item_def)
  have lt: "head bq < length (queue bq)" and nth: "queue bq ! head bq = it"
    using Cons by (auto simp: live_def) (metis drop_eq_Nil2 list.distinct(1) not_le,
      metis drop_eq_Nil2 hd_drop_conv_nth list.distinct(1) list.sel(1) not_le)
  obtain db where d: "ds_delete (qstore env) (qdb bq) (seq_path s) = (None, db)"
    using del by (metis prod.collapse)
  have "qdb bq' = db"
    using nxt lt d by (auto simp: Next_def nth it seq_path_def keysD [OF ok] Let_def)
  moreover have "vw db = (vw (qdb bq))(seq_path s := None)" by (rule datastore_deleteD(1) [OF ok d])
  moreover have "live bq' = its" using Next_live(1) [OF q(1) nxt] Cons by simp
  ultimately show ?thesis using st Cons it by (auto simp: stale_def seq_path_def)
qed

lemma Load_restores:
  assumes ok: "datastore_ok (qstore env) vw" and inv: "wal_inv env vw bq"
    and qry: "ds_query (qstore env) (qdb bq) = Inr rs" "list_all is_ok rs"
  obtains bq' where "Load env (NewBatchQueue (qdb bq) mx) = (None, bq')"
    and "live bq = filter (\<lambda>it. it \<in> set (live bq)) (live bq')"
    and "stale vw bq = {} \<Longrightarrow> live bq' = live bq" and "stale vw bq' = {}"
proof -
  let ?new = "NewBatchQueue (qdb bq) mx" and ?m = "vw (qdb bq)"
  from inv obtain seqs where ws: "wal_seqs env vw bq seqs" unfolding wal_inv_def ..
  note q = wal_seqsD [OF ws]
  from q(2) have wf: "log_wf env (nextPrependSeq bq) (nextAddSeq bq) (vw (qdb ?new))" by simp
  obtain bq' ss where load: "Load env ?new = (None, bq')" and ws': "wal_seqs env vw bq' ss"
    and dom: "seq_path ` set ss = dom ?m" and db: "qdb bq' = qdb bq"
    by (rule Load_wal [OF ok wf, of rs]) (use qry in simp_all)
  note q' = wal_seqsD [OF ws', unfolded db]
  have sub: "set seqs \<subseteq> set ss" using q(5) dom by (auto simp: image_subset_iff) force
  have inj: "inj (stored_item env ?m)" by (rule injI) (simp add: stored_item_def)
  have "filter (\<lambda>it. it \<in> set (live bq)) (live bq') = map (stored_item env ?m) (filter (\<lambda>s. s \<in> set seqs) ss)"
    by (simp add: q(3) q'(3) filter_map comp_def inj_image_mem_iff [OF inj])
  then have "live bq = filter (\<lambda>it. it \<in> set (live bq)) (live bq')"
    using sorted_sublist_filter [OF q(4) q'(4) sub] q(3) by simp
  moreover have "live bq' = live bq" if "stale vw bq = {}"
  proof -
    have "seq_path ` set seqs = seq_path ` set ss" using that stale_seqs [OF ws] q(5) dom by auto
    then have "set seqs = set ss" by (simp add: inj_image_eq_iff inj_def)
    then have "seqs = ss" using q(4) q'(4) by (simp add: strict_sorted_equal)
    then show ?thesis using q(3) q'(3) by simp
  qed
  moreover have "stale vw bq' = {}" using stale_seqs [OF ws'] dom db by auto
  ultimately show thesis using that load by blast
qed

lemma queue_reach_stale:
  assumes ok: "datastore_ok (qstore env) vw" "batch_codec_ok env"
    and del: "\<And>db k. fst (ds_delete (qstore env) db k) = None" and "queue_reach env vw n bq"
  shows "n < 2 ^ 63 \<Longrightarrow> stale vw bq = {}"
  using assms(4)
proof (induction rule: queue_reach.induct)
  case (new db mx)
  then show ?case by (simp add: stale_def)
next
  case (add n bq b r bq')
  then have "queue_wf bq" using queue_reach_inv [OF ok add.hyps(1)] by (auto simp: wal_inv_def wal_seqs_def)
  then show ?case using AddBatch_stale [OF ok _ add.hyps(2)] add by auto
next
  case (prepend n bq b r bq')
  then have "queue_wf bq" using queue_reach_inv [OF ok prepend.hyps(1)] by (auto simp: wal_inv_def wal_seqs_def)
  then show ?case using Prepend_stale [OF ok _ prepend.hyps(2)] prepend by auto
next
  case (take_next n bq b bq')
  then show ?case
    using Next_stale [OF ok(1) del _ take_next.hyps(2)] queue_reach_inv [OF ok take_next.hyps(1)] by auto
next
  case (restart n bq rs mx r bq')
  then have "wal_inv env vw bq" using queue_reach_inv [OF ok] by auto
  then obtain bq1 where "Load env (NewBatchQueue (qdb bq) mx) = (None, bq1)" "stale vw bq1 = {}"
    using Load_restores [OF ok(1) _ restart.hyps(2,3)] by metis
  then show ?case using restart.hyps(4) by simp
qed

section \<open>Properties\<close>


subsection \<open>A codec and an environment to run the queue on\<close>

definition mem_queue_env :: "mem_db queue_env" where
  "mem_queue_env = \<lparr>qstore = mem_datastore, marshal_batch = (\<lambda>b. Inr (flag_enc b)), unmarshal_batch = flag_dec []\<rparr>"

lemma mem_queue_env_simps [simp]:
  "qstore mem_queue_env = mem_datastore" "batch_codec_ok mem_queue_env"
  by (simp_all add: mem_queue_env_def batch_codec_ok_def flag_dec_enc)

definition demo_queue :: "mem_db BatchQueue" where
  "demo_queue = snd (Next mem_queue_env (snd (AddBatch mem_queue_env
     (snd (AddBatch mem_queue_env (NewBatchQueue [] 0) [[7]])) [[8], [9]])))"

lemma demo_queue_reach: "queue_reach mem_queue_env mem_view 2 demo_queue"
proof -
  have "queue_reach mem_queue_env mem_view 0 (NewBatchQueue [] 0)"
    by (rule queue_reach.new) (simp add: mem_view_def)
  from queue_reach.add [OF this surjective_pairing]
  have "queue_reach mem_queue_env mem_view (Suc 0) (snd (AddBatch mem_queue_env (NewBatchQueue [] 0) [[7]]))" .
  from queue_reach.add [OF this surjective_pairing]
  have "queue_reach mem_queue_env mem_view (Suc (Suc 0)) (snd (AddBatch mem_queue_env
     (snd (AddBatch mem_queue_env (NewBatchQueue [] 0) [[7]])) [[8], [9]]))" .
  from queue_reach.take_next [OF this surjective_pairing]
  show ?thesis by (simp add: demo_queue_def numeral_2_eq_2)
qed

lemma demo_queue_items: "queue_items demo_queue = [[[8], [9]]]"
  by (simp add: demo_queue_def NewBatchQueue_def AddBatch_def Next_def persistBatch_def compact_def
      mem_queue_env_def mem_datastore_def flag_enc_def queue_items_def live_def Let_def)


end
