(* ===== verification/Wire.thy ===== *)
theory Wire
  imports Prelude
begin

text \<open>
  The protobuf layer. The messages of \<^verbatim>\<open>src/proto/evnode/v1\<close> are records with the fields of the
  \<^verbatim>\<open>.proto\<close> files: a sub-message is an option (nil is \<^verbatim>\<open>None\<close>), an \<^verbatim>\<open>optional\<close> scalar too,
  and \<^verbatim>\<open>pb_unknown\<close> holds the unknown fields of a header as \<^verbatim>\<open>ProtoReflect().GetUnknown()\<close>
  returns them. \<^verbatim>\<open>proto.Marshal\<close> and \<^verbatim>\<open>proto.Unmarshal\<close> are third-party code and stay a
  parameter, one codec per message, with the law that decoding gives back the encoded message;
  so do the functions of \<^verbatim>\<open>protowire\<close>. The last section gives a codec that keeps the law.
\<close>

section \<open>Messages\<close>

record pb_Version =
  pb_block :: u64
  pb_app :: u64

record pb_Header =
  pb_version :: "pb_Version option"
  pb_height :: u64
  pb_time :: u64
  pb_last_header_hash :: bytes
  pb_data_hash :: bytes
  pb_app_hash :: bytes
  pb_proposer_address :: bytes
  pb_validator_hash :: bytes
  pb_chain_id :: string
  pb_unknown :: bytes

record pb_Signer =
  pb_address :: bytes
  pb_pub_key :: bytes

record pb_SignedHeader =
  pbs_header :: "pb_Header option"
  pbs_signature :: bytes
  pbs_signer :: "pb_Signer option"

record pb_DAHeaderEnvelope =
  pbe_header :: "pb_Header option"
  pbe_signature :: bytes
  pbe_signer :: "pb_Signer option"
  pbe_envelope_signature :: bytes

record pb_Metadata =
  pbm_chain_id :: string
  pbm_height :: u64
  pbm_time :: u64
  pbm_last_data_hash :: bytes

record pb_Data =
  pbd_metadata :: "pb_Metadata option"
  pbd_txs :: "bytes list"

record pb_SignedData =
  pbsd_data :: "pb_Data option"
  pbsd_signature :: bytes
  pbsd_signer :: "pb_Signer option"

record pb_P2PSignedHeader =
  pbp_header :: "pb_Header option"
  pbp_signature :: bytes
  pbp_signer :: "pb_Signer option"
  pbp_da_height_hint :: "u64 option"

record pb_P2PData =
  pbpd_metadata :: "pb_Metadata option"
  pbpd_txs :: "bytes list"
  pbpd_da_height_hint :: "u64 option"

record pb_Timestamp =
  pbt_seconds :: u64
  pbt_nanos :: "32 word"

record pb_State =
  pbst_version :: "pb_Version option"
  pbst_chain_id :: string
  pbst_initial_height :: u64
  pbst_last_block_height :: u64
  pbst_last_block_time :: "pb_Timestamp option"
  pbst_da_height :: u64
  pbst_app_hash :: bytes
  pbst_last_header_hash :: bytes

section \<open>Codecs\<close>

record 'm codec =
  enc :: "'m \<Rightarrow> bytes result"
  dec :: "bytes \<Rightarrow> 'm result"

definition codec_ok_on :: "'m set \<Rightarrow> 'm codec \<Rightarrow> bool" where
  "codec_ok_on A c \<longleftrightarrow> (\<forall>m \<in> A. \<forall>b. enc c m = Inr b \<longrightarrow> dec c b = Inr m)"

abbreviation codec_ok :: "'m codec \<Rightarrow> bool" where
  "codec_ok c \<equiv> codec_ok_on UNIV c"

lemma codec_okD: "codec_ok_on A c \<Longrightarrow> m \<in> A \<Longrightarrow> enc c m = Inr b \<Longrightarrow> dec c b = Inr m"
  by (auto simp: codec_ok_on_def)

text \<open>Encodings of different messages differ, since decoding tells them apart.\<close>

lemma codec_inj:
  "codec_ok_on A c \<Longrightarrow> m \<in> A \<Longrightarrow> m' \<in> A \<Longrightarrow> enc c m = Inr b \<Longrightarrow> enc c m' = Inr b \<Longrightarrow> m = m'"
  by (metis codec_okD sum.inject(2))

record codecs =
  c_version :: "pb_Version codec"
  c_header :: "pb_Header codec"
  c_signed_header :: "pb_SignedHeader codec"
  c_envelope :: "pb_DAHeaderEnvelope codec"
  c_metadata :: "pb_Metadata codec"
  c_data :: "pb_Data codec"
  c_signed_data :: "pb_SignedData codec"
  c_p2p_signed_header :: "pb_P2PSignedHeader codec"
  c_p2p_data :: "pb_P2PData codec"
  c_state :: "pb_State codec"

section \<open>The wire format\<close>

text \<open>
  \<^verbatim>\<open>protowire\<close>: \<^verbatim>\<open>pw_tag\<close> and \<^verbatim>\<open>pw_varint\<close> are the bytes \<^verbatim>\<open>AppendTag\<close> and
  \<^verbatim>\<open>AppendVarint\<close> append; \<^verbatim>\<open>pw_consume_tag\<close>, \<^verbatim>\<open>pw_consume_bytes\<close> and
  \<^verbatim>\<open>pw_consume_field\<close> are the \<^verbatim>\<open>Consume\<close> functions, with a negative count as an error.
\<close>

record protowire =
  pw_tag :: "nat \<Rightarrow> nat \<Rightarrow> bytes"
  pw_varint :: "u64 \<Rightarrow> bytes"
  pw_consume_tag :: "bytes \<Rightarrow> (nat \<times> nat \<times> nat) result"
  pw_consume_bytes :: "bytes \<Rightarrow> (bytes \<times> nat) result"
  pw_consume_field :: "nat \<Rightarrow> nat \<Rightarrow> bytes \<Rightarrow> nat result"

definition VarintType :: nat where
  "VarintType = 0"

definition BytesType :: nat where
  "BytesType = 2"

text \<open>A tag and a varint have at most ten bytes, consuming a tag consumes at least one byte, and
  consuming reads back what appending wrote.\<close>

definition protowire_ok :: "protowire \<Rightarrow> bool" where
  "protowire_ok w \<longleftrightarrow>
     (\<forall>b num ty n. pw_consume_tag w b = Inr (num, ty, n) \<longrightarrow> 0 < n \<and> n \<le> length b) \<and>
     (\<forall>num ty. pw_tag w num ty \<noteq> [] \<and> length (pw_tag w num ty) \<le> 10) \<and>
     (\<forall>v. length (pw_varint w v) \<le> 10) \<and>
     (\<forall>num ty rest. 0 < num \<and> num < 2 ^ 29 \<and> ty < 8 \<longrightarrow>
        pw_consume_tag w (pw_tag w num ty @ rest) = Inr (num, ty, length (pw_tag w num ty))) \<and>
     (\<forall>v rest. length v < 2 ^ 64 \<longrightarrow>
        pw_consume_bytes w (pw_varint w (of_nat (length v)) @ v @ rest) =
          Inr (v, length (pw_varint w (of_nat (length v))) + length v))"

lemma protowire_tag_progress:
  "protowire_ok w \<Longrightarrow> pw_consume_tag w b = Inr (num, ty, n) \<Longrightarrow> 0 < n \<and> n \<le> length b"
  by (simp add: protowire_ok_def)

lemma protowire_tag:
  "protowire_ok w \<Longrightarrow> 0 < num \<Longrightarrow> num < 2 ^ 29 \<Longrightarrow> ty < 8 \<Longrightarrow>
     pw_consume_tag w (pw_tag w num ty @ rest) = Inr (num, ty, length (pw_tag w num ty))"
  by (simp add: protowire_ok_def)

lemma protowire_bytes:
  "protowire_ok w \<Longrightarrow> length v < 2 ^ 64 \<Longrightarrow>
     pw_consume_bytes w (pw_varint w (of_nat (length v)) @ v @ rest) =
       Inr (v, length (pw_varint w (of_nat (length v))) + length v)"
  by (simp add: protowire_ok_def)

lemma protowire_length:
  "protowire_ok w \<Longrightarrow> length (pw_tag w num ty) \<le> 10" "protowire_ok w \<Longrightarrow> length (pw_varint w v) \<le> 10"
  by (simp_all add: protowire_ok_def)

lemma protowire_tag_nonempty: "protowire_ok w \<Longrightarrow> pw_tag w num ty \<noteq> []"
  by (simp add: protowire_ok_def)

text \<open>Go strings as the bytes they are made of.\<close>

definition bytes_of_string :: "string \<Rightarrow> bytes" where
  "bytes_of_string s = map (\<lambda>c. of_nat (of_char c)) s"

definition string_of_bytes :: "bytes \<Rightarrow> string" where
  "string_of_bytes b = map (\<lambda>x. char_of (unat x)) b"

lemma string_of_bytes_of_string [simp]: "string_of_bytes (bytes_of_string s) = s"
proof -
  have "unat (of_nat (of_char c) :: byte) = of_char c" for c
    using of_char_mod_256 [of c, where ?'a = nat] by (simp add: unat_of_nat)
  then show ?thesis by (simp add: string_of_bytes_def bytes_of_string_def comp_def)
qed

section \<open>Codecs that keep the laws\<close>

text \<open>A message as the list of its fields, and the list as bytes.\<close>

definition fields_codec :: "('m \<Rightarrow> bytes list) \<Rightarrow> (bytes list \<Rightarrow> 'm option) \<Rightarrow> 'm codec" where
  "fields_codec f g = \<lparr>enc = (\<lambda>m. Inr (flag_enc (f m))),
     dec = (\<lambda>b. case flag_dec [] b of Inl e \<Rightarrow> Inl e
            | Inr xs \<Rightarrow> (case g xs of None \<Rightarrow> Inl (Msg ''cannot parse'') | Some m \<Rightarrow> Inr m))\<rparr>"

lemma fields_codec_ok: "(\<And>m. g (f m) = Some m) \<Longrightarrow> codec_ok (fields_codec f g)"
  by (auto simp: codec_ok_on_def fields_codec_def)

lemma enc_fields_codec [simp]: "enc (fields_codec f g) m = Inr (flag_enc (f m))"
  by (simp add: fields_codec_def)

definition opt_fields :: "('m \<Rightarrow> bytes list) \<Rightarrow> 'm option \<Rightarrow> bytes" where
  "opt_fields f m = (case m of None \<Rightarrow> [] | Some x \<Rightarrow> 1 # flag_enc (f x))"

definition of_opt_fields :: "(bytes list \<Rightarrow> 'm option) \<Rightarrow> bytes \<Rightarrow> 'm option" where
  "of_opt_fields g b = (case b of [] \<Rightarrow> None
     | _ # r \<Rightarrow> (case flag_dec [] r of Inl e \<Rightarrow> None | Inr xs \<Rightarrow> g xs))"

lemma of_opt_fields [simp]: "(\<And>x. g (f x) = Some x) \<Longrightarrow> of_opt_fields g (opt_fields f m) = m"
  by (cases m) (simp_all add: opt_fields_def of_opt_fields_def)

definition version_fields :: "pb_Version \<Rightarrow> bytes list" where
  "version_fields v = [put_be64 (pb_block v), put_be64 (pb_app v)]"

fun of_version_fields :: "bytes list \<Rightarrow> pb_Version option" where
  "of_version_fields [a, b] = Some \<lparr>pb_block = get_be64 a, pb_app = get_be64 b\<rparr>"
| "of_version_fields _ = None"

lemma of_version_fields [simp]: "of_version_fields (version_fields v) = Some v"
  by (simp add: version_fields_def)

definition header_fields :: "pb_Header \<Rightarrow> bytes list" where
  "header_fields h = [opt_fields version_fields (pb_version h), put_be64 (pb_height h),
     put_be64 (pb_time h), pb_last_header_hash h, pb_data_hash h, pb_app_hash h,
     pb_proposer_address h, pb_validator_hash h, bytes_of_string (pb_chain_id h), pb_unknown h]"

fun of_header_fields :: "bytes list \<Rightarrow> pb_Header option" where
  "of_header_fields [a, b, c, d, e, f, g, h, i, j] = Some
     \<lparr>pb_version = of_opt_fields of_version_fields a, pb_height = get_be64 b, pb_time = get_be64 c,
      pb_last_header_hash = d, pb_data_hash = e, pb_app_hash = f, pb_proposer_address = g,
      pb_validator_hash = h, pb_chain_id = string_of_bytes i, pb_unknown = j\<rparr>"
| "of_header_fields _ = None"

lemma of_header_fields [simp]: "of_header_fields (header_fields h) = Some h"
  by (simp add: header_fields_def)

definition signer_fields :: "pb_Signer \<Rightarrow> bytes list" where
  "signer_fields s = [pb_address s, pb_pub_key s]"

fun of_signer_fields :: "bytes list \<Rightarrow> pb_Signer option" where
  "of_signer_fields [a, b] = Some \<lparr>pb_address = a, pb_pub_key = b\<rparr>"
| "of_signer_fields _ = None"

lemma of_signer_fields [simp]: "of_signer_fields (signer_fields s) = Some s"
  by (simp add: signer_fields_def)

definition signed_header_fields :: "pb_SignedHeader \<Rightarrow> bytes list" where
  "signed_header_fields s = [opt_fields header_fields (pbs_header s), pbs_signature s,
     opt_fields signer_fields (pbs_signer s)]"

fun of_signed_header_fields :: "bytes list \<Rightarrow> pb_SignedHeader option" where
  "of_signed_header_fields [a, b, c] = Some \<lparr>pbs_header = of_opt_fields of_header_fields a,
     pbs_signature = b, pbs_signer = of_opt_fields of_signer_fields c\<rparr>"
| "of_signed_header_fields _ = None"

lemma of_signed_header_fields [simp]: "of_signed_header_fields (signed_header_fields s) = Some s"
  by (simp add: signed_header_fields_def)

definition envelope_fields :: "pb_DAHeaderEnvelope \<Rightarrow> bytes list" where
  "envelope_fields s = [opt_fields header_fields (pbe_header s), pbe_signature s,
     opt_fields signer_fields (pbe_signer s), pbe_envelope_signature s]"

fun of_envelope_fields :: "bytes list \<Rightarrow> pb_DAHeaderEnvelope option" where
  "of_envelope_fields [a, b, c, d] = Some \<lparr>pbe_header = of_opt_fields of_header_fields a,
     pbe_signature = b, pbe_signer = of_opt_fields of_signer_fields c, pbe_envelope_signature = d\<rparr>"
| "of_envelope_fields _ = None"

lemma of_envelope_fields [simp]: "of_envelope_fields (envelope_fields s) = Some s"
  by (simp add: envelope_fields_def)

definition metadata_fields :: "pb_Metadata \<Rightarrow> bytes list" where
  "metadata_fields m = [bytes_of_string (pbm_chain_id m), put_be64 (pbm_height m),
     put_be64 (pbm_time m), pbm_last_data_hash m]"

fun of_metadata_fields :: "bytes list \<Rightarrow> pb_Metadata option" where
  "of_metadata_fields [a, b, c, d] = Some \<lparr>pbm_chain_id = string_of_bytes a,
     pbm_height = get_be64 b, pbm_time = get_be64 c, pbm_last_data_hash = d\<rparr>"
| "of_metadata_fields _ = None"

lemma of_metadata_fields [simp]: "of_metadata_fields (metadata_fields m) = Some m"
  by (simp add: metadata_fields_def)

definition data_fields :: "pb_Data \<Rightarrow> bytes list" where
  "data_fields d = opt_fields metadata_fields (pbd_metadata d) # pbd_txs d"

fun of_data_fields :: "bytes list \<Rightarrow> pb_Data option" where
  "of_data_fields [] = None"
| "of_data_fields (a # txs) = Some \<lparr>pbd_metadata = of_opt_fields of_metadata_fields a, pbd_txs = txs\<rparr>"

lemma of_data_fields [simp]: "of_data_fields (data_fields d) = Some d"
  by (simp add: data_fields_def)

definition signed_data_fields :: "pb_SignedData \<Rightarrow> bytes list" where
  "signed_data_fields s = [opt_fields data_fields (pbsd_data s), pbsd_signature s,
     opt_fields signer_fields (pbsd_signer s)]"

fun of_signed_data_fields :: "bytes list \<Rightarrow> pb_SignedData option" where
  "of_signed_data_fields [a, b, c] = Some \<lparr>pbsd_data = of_opt_fields of_data_fields a,
     pbsd_signature = b, pbsd_signer = of_opt_fields of_signer_fields c\<rparr>"
| "of_signed_data_fields _ = None"

lemma of_signed_data_fields [simp]: "of_signed_data_fields (signed_data_fields s) = Some s"
  by (simp add: signed_data_fields_def)

definition hint_fields :: "u64 \<Rightarrow> bytes list" where
  "hint_fields h = [put_be64 h]"

fun of_hint_fields :: "bytes list \<Rightarrow> u64 option" where
  "of_hint_fields [a] = Some (get_be64 a)"
| "of_hint_fields _ = None"

lemma of_hint_fields [simp]: "of_hint_fields (hint_fields h) = Some h"
  by (simp add: hint_fields_def)

definition p2p_header_fields :: "pb_P2PSignedHeader \<Rightarrow> bytes list" where
  "p2p_header_fields s = [opt_fields header_fields (pbp_header s), pbp_signature s,
     opt_fields signer_fields (pbp_signer s), opt_fields hint_fields (pbp_da_height_hint s)]"

fun of_p2p_header_fields :: "bytes list \<Rightarrow> pb_P2PSignedHeader option" where
  "of_p2p_header_fields [a, b, c, d] = Some \<lparr>pbp_header = of_opt_fields of_header_fields a,
     pbp_signature = b, pbp_signer = of_opt_fields of_signer_fields c,
     pbp_da_height_hint = of_opt_fields of_hint_fields d\<rparr>"
| "of_p2p_header_fields _ = None"

lemma of_p2p_header_fields [simp]: "of_p2p_header_fields (p2p_header_fields s) = Some s"
  by (simp add: p2p_header_fields_def)

definition p2p_data_fields :: "pb_P2PData \<Rightarrow> bytes list" where
  "p2p_data_fields d = opt_fields metadata_fields (pbpd_metadata d) #
     opt_fields hint_fields (pbpd_da_height_hint d) # pbpd_txs d"

fun of_p2p_data_fields :: "bytes list \<Rightarrow> pb_P2PData option" where
  "of_p2p_data_fields (a # b # txs) = Some \<lparr>pbpd_metadata = of_opt_fields of_metadata_fields a,
     pbpd_txs = txs, pbpd_da_height_hint = of_opt_fields of_hint_fields b\<rparr>"
| "of_p2p_data_fields _ = None"

lemma of_p2p_data_fields [simp]: "of_p2p_data_fields (p2p_data_fields d) = Some d"
  by (simp add: p2p_data_fields_def)

definition time_fields :: "pb_Timestamp \<Rightarrow> bytes list" where
  "time_fields t = [put_be64 (pbt_seconds t), put_be64 (ucast (pbt_nanos t))]"

fun of_time_fields :: "bytes list \<Rightarrow> pb_Timestamp option" where
  "of_time_fields [a, b] = Some \<lparr>pbt_seconds = get_be64 a, pbt_nanos = ucast (get_be64 b)\<rparr>"
| "of_time_fields _ = None"

lemma of_time_fields [simp]: "of_time_fields (time_fields t) = Some t"
proof -
  have "ucast (ucast (pbt_nanos t) :: u64) = pbt_nanos t"
    by (rule bit_eqI) (simp add: bit_simps)
  then show ?thesis by (simp add: time_fields_def)
qed

definition state_fields :: "pb_State \<Rightarrow> bytes list" where
  "state_fields s = [opt_fields version_fields (pbst_version s), bytes_of_string (pbst_chain_id s),
     put_be64 (pbst_initial_height s), put_be64 (pbst_last_block_height s),
     opt_fields time_fields (pbst_last_block_time s), put_be64 (pbst_da_height s),
     pbst_app_hash s, pbst_last_header_hash s]"

fun of_state_fields :: "bytes list \<Rightarrow> pb_State option" where
  "of_state_fields [a, b, c, d, e, f, g, h] = Some
     \<lparr>pbst_version = of_opt_fields of_version_fields a, pbst_chain_id = string_of_bytes b,
      pbst_initial_height = get_be64 c, pbst_last_block_height = get_be64 d,
      pbst_last_block_time = of_opt_fields of_time_fields e, pbst_da_height = get_be64 f,
      pbst_app_hash = g, pbst_last_header_hash = h\<rparr>"
| "of_state_fields _ = None"

lemma of_state_fields [simp]: "of_state_fields (state_fields s) = Some s"
  by (simp add: state_fields_def)

definition field_codecs :: codecs where
  "field_codecs = \<lparr>c_version = fields_codec version_fields of_version_fields,
     c_header = fields_codec header_fields of_header_fields,
     c_signed_header = fields_codec signed_header_fields of_signed_header_fields,
     c_envelope = fields_codec envelope_fields of_envelope_fields,
     c_metadata = fields_codec metadata_fields of_metadata_fields,
     c_data = fields_codec data_fields of_data_fields,
     c_signed_data = fields_codec signed_data_fields of_signed_data_fields,
     c_p2p_signed_header = fields_codec p2p_header_fields of_p2p_header_fields,
     c_p2p_data = fields_codec p2p_data_fields of_p2p_data_fields,
     c_state = fields_codec state_fields of_state_fields\<rparr>"

lemma field_codecs_ok [simp]:
  "codec_ok (c_version field_codecs)" "codec_ok (c_header field_codecs)"
  "codec_ok (c_signed_header field_codecs)" "codec_ok (c_envelope field_codecs)"
  "codec_ok (c_metadata field_codecs)" "codec_ok (c_data field_codecs)"
  "codec_ok (c_signed_data field_codecs)" "codec_ok (c_p2p_signed_header field_codecs)"
  "codec_ok (c_p2p_data field_codecs)" "codec_ok (c_state field_codecs)"
  by (simp_all add: field_codecs_def fields_codec_ok)

text \<open>A wire format with tags and lengths of eight bytes.\<close>

definition wide_wire :: protowire where
  "wide_wire = \<lparr>pw_tag = (\<lambda>num ty. put_be64 (of_nat (num * 8 + ty))), pw_varint = put_be64,
     pw_consume_tag = (\<lambda>b. if length b < 8 then Inl (Msg ''unexpected EOF'')
        else let k = unat (get_be64 b) in Inr (k div 8, k mod 8, 8)),
     pw_consume_bytes = (\<lambda>b. if length b < 8 \<or> length b < 8 + unat (get_be64 b)
        then Inl (Msg ''unexpected EOF'')
        else Inr (take (unat (get_be64 b)) (drop 8 b), 8 + unat (get_be64 b))),
     pw_consume_field = (\<lambda>num ty b. if length b < 8 then Inl (Msg ''unexpected EOF'') else Inr 8)\<rparr>"

lemma wide_wire_ok [simp]: "protowire_ok wide_wire"
proof -
  have len: "unat (of_nat n :: u64) = n" if "n < 2 ^ 64" for n
    using that by (simp add: unat_of_nat)
  have tag: "unat (of_nat (num * 8 + ty) :: u64) = num * 8 + ty" if "num < 2 ^ 29" "ty < 8" for num ty
    by (rule len) (use that in simp)
  have ne: "put_be64 w \<noteq> []" for w by (metis length_put_be64 list.size(3) zero_neq_numeral)
  show ?thesis
    unfolding protowire_ok_def
    by (intro conjI allI impI)
      (auto simp: wide_wire_def Let_def tag len ne simp del: of_nat_add of_nat_mult split: if_splits)
qed

end
