(* ===== verification/Sha256.thy ===== *)
theory Sha256
  imports Prelude
begin

unbundle bit_operations_syntax

text \<open>
  \<^verbatim>\<open>crypto/sha256\<close> of the Go standard library (FIPS 180-4), executable: padding to 64-byte
  blocks, the message schedule, 64 rounds on eight 32-bit words, and the digest in big-endian
  order. The components use it through \<^verbatim>\<open>sha256.Sum256\<close>; what they need of it is that a digest
  has 32 bytes.
\<close>

type_synonym u32 = "32 word"

definition rotr :: "nat \<Rightarrow> u32 \<Rightarrow> u32" where
  "rotr n x = (drop_bit n x) OR (push_bit (32 - n) x)"

text \<open>The constants of the standard: the first 32 bits of the fractional parts of the cube roots of
  the first 64 primes, and of the square roots of the first eight. \<^term>\<open>root_from e n k r\<close> finds
  the greatest number whose \<open>e\<close>-th power is at most \<open>n\<close>, bit by bit.\<close>

fun root_from :: "nat \<Rightarrow> int \<Rightarrow> nat \<Rightarrow> int \<Rightarrow> int" where
  "root_from e n 0 r = r"
| "root_from e n (Suc k) r = root_from e n k (if (r + 2 ^ k) ^ e \<le> n then r + 2 ^ k else r)"

definition root_fraction :: "nat \<Rightarrow> int \<Rightarrow> u32" where
  "root_fraction e p = of_int (root_from e (p * 2 ^ (32 * e)) 40 0)"

definition small_primes :: "int list" where
  "small_primes = filter (\<lambda>n. \<forall>d \<in> set [2..n - 1]. n mod d \<noteq> 0) [2..311]"

definition sha_k :: "u32 list" where
  "sha_k = map (root_fraction 3) small_primes"

type_synonym sha_state = "u32 \<times> u32 \<times> u32 \<times> u32 \<times> u32 \<times> u32 \<times> u32 \<times> u32"

definition sha_init :: sha_state where
  "sha_init = (root_fraction 2 2, root_fraction 2 3, root_fraction 2 5, root_fraction 2 7,
     root_fraction 2 11, root_fraction 2 13, root_fraction 2 17, root_fraction 2 19)"

text \<open>A 1 bit, zeros up to 56 modulo 64, and the length in bits as a big-endian 64-bit number.\<close>

definition sha_pad :: "bytes \<Rightarrow> bytes" where
  "sha_pad msg =
     msg @ [0x80] @ replicate ((119 - length msg mod 64) mod 64) 0 @ put_be64 (of_nat (8 * length msg))"

fun chunks :: "nat \<Rightarrow> 'a list \<Rightarrow> 'a list list" where
  "chunks n xs = (if n = 0 \<or> xs = [] then [] else take n xs # chunks n (drop n xs))"

declare chunks.simps [simp del]

definition be32 :: "bytes \<Rightarrow> u32" where
  "be32 bs = foldl (\<lambda>acc b. push_bit 8 acc OR ucast b) 0 bs"

definition put_be32 :: "u32 \<Rightarrow> bytes" where
  "put_be32 w = [ucast (drop_bit 24 w), ucast (drop_bit 16 w), ucast (drop_bit 8 w), ucast w]"

text \<open>The schedule is kept with its latest word first.\<close>

fun sha_extend :: "nat \<Rightarrow> u32 list \<Rightarrow> u32 list" where
  "sha_extend 0 ws = ws"
| "sha_extend (Suc k) ws =
     (let w15 = ws ! 14; w2 = ws ! 1;
          s0 = rotr 7 w15 XOR rotr 18 w15 XOR drop_bit 3 w15;
          s1 = rotr 17 w2 XOR rotr 19 w2 XOR drop_bit 10 w2 in
      sha_extend k ((ws ! 15 + s0 + ws ! 6 + s1) # ws))"

definition sha_schedule :: "bytes \<Rightarrow> u32 list" where
  "sha_schedule block = rev (sha_extend 48 (rev (map be32 (chunks 4 block))))"

fun sha_round :: "u32 \<times> u32 \<Rightarrow> sha_state \<Rightarrow> sha_state" where
  "sha_round (k, w) (a, b, c, d, e, f, g, h) =
     (let s1 = rotr 6 e XOR rotr 11 e XOR rotr 25 e;
          ch = (e AND f) XOR ((NOT e) AND g);
          t1 = h + s1 + ch + k + w;
          s0 = rotr 2 a XOR rotr 13 a XOR rotr 22 a;
          maj = (a AND b) XOR (a AND c) XOR (b AND c);
          t2 = s0 + maj in
      (t1 + t2, a, b, c, d + t1, e, f, g))"

fun sha_add :: "sha_state \<Rightarrow> sha_state \<Rightarrow> sha_state" where
  "sha_add (a, b, c, d, e, f, g, h) (a', b', c', d', e', f', g', h') =
     (a + a', b + b', c + c', d + d', e + e', f + f', g + g', h + h')"

definition sha_block :: "bytes \<Rightarrow> sha_state \<Rightarrow> sha_state" where
  "sha_block block st = sha_add st (fold sha_round (zip sha_k (sha_schedule block)) st)"

fun sha_digest :: "sha_state \<Rightarrow> bytes" where
  "sha_digest (a, b, c, d, e, f, g, h) = concat (map put_be32 [a, b, c, d, e, f, g, h])"

definition sha256 :: "bytes \<Rightarrow> bytes" where
  "sha256 msg = sha_digest (fold sha_block (chunks 64 (sha_pad msg)) sha_init)"

lemma length_put_be32 [simp]: "length (put_be32 w) = 4"
  by (simp add: put_be32_def)

lemma length_sha_digest [simp]: "length (sha_digest st) = 32"
  by (cases st rule: sha_digest.cases) simp

lemma length_sha256 [simp]: "length (sha256 msg) = 32"
  by (simp add: sha256_def)

lemma sha256_not_Nil [simp]: "sha256 msg \<noteq> []"
  by (metis length_sha256 list.size(3) zero_neq_numeral)


end
