(* ===== verification/Types.thy ===== *)
theory Types
  imports Wire Sha256
begin

text \<open>
  The block types of \<^verbatim>\<open>src/types\<close> and their binary forms: headers with the deprecated fields of
  the legacy format, signed headers, data, signed data, state (\<^verbatim>\<open>header.go\<close>,
  \<^verbatim>\<open>signed_header.go\<close>, \<^verbatim>\<open>data.go\<close>, \<^verbatim>\<open>state.go\<close>, \<^verbatim>\<open>signer.go\<close>), their conversions to
  and from protobuf messages (\<^verbatim>\<open>serialization.go\<close>, \<^verbatim>\<open>p2p_envelope.go\<close>) and their hashes
  (\<^verbatim>\<open>hashing.go\<close>). A receiver that a \<^verbatim>\<open>FromProto\<close> fills is returned as a value; the fields
  it leaves alone are taken from the old receiver. The theory proves the round trips and that the
  scan of the unknown fields ends.
\<close>

section \<open>Types\<close>

record Version =
  vBlock :: u64
  vApp :: u64

record BaseHeader =
  bhHeight :: u64
  bhTime :: u64
  bhChainID :: string

text \<open>The code tests these hashes for nil, so they are options.\<close>

record LegacyHeaderFields =
  LastCommitHash :: "bytes option"
  ConsensusHash :: "bytes option"
  LastResultsHash :: "bytes option"

record Header =
  base :: BaseHeader
  hVersion :: Version
  LastHeaderHash :: bytes
  DataHash :: bytes
  AppHash :: bytes
  ValidatorHash :: bytes
  ProposerAddress :: bytes
  Legacy :: "LegacyHeaderFields option"

record Metadata =
  mChainID :: string
  mHeight :: u64
  mTime :: u64
  LastDataHash :: bytes

record Data =
  dMetadata :: "Metadata option"
  Txs :: "bytes list"

record 'pk Signer =
  PubKey :: "'pk option"
  Address :: bytes
  marshalledPubKey :: bytes

record 'pk SignedHeader =
  shHeader :: Header
  shSignature :: bytes
  shSigner :: "'pk Signer"
  aggregatorSignatureProvider :: "(Header \<Rightarrow> bytes result) option"
  syncNodeSignatureBytesProvider :: "(Header \<Rightarrow> Data \<Rightarrow> bytes result) option"

record 'pk SignedData =
  sdData :: Data
  sdSignature :: bytes
  sdSigner :: "'pk Signer"

record State =
  sVersion :: Version
  sChainID :: string
  InitialHeight :: u64
  LastBlockHeight :: u64
  LastBlockTime :: gotime
  sLastHeaderHash :: bytes
  sDAHeight :: u64
  sAppHash :: bytes

text \<open>Third-party code: the codecs, the wire format, and the public keys of libp2p.\<close>

record 'pk types_env =
  cds :: codecs
  wire :: protowire
  pk_verify :: "'pk \<Rightarrow> bytes \<Rightarrow> bytes \<Rightarrow> bool result"
  pk_raw :: "'pk \<Rightarrow> bytes result"
  pk_marshal :: "'pk \<Rightarrow> bytes result"
  pk_unmarshal :: "bytes \<Rightarrow> 'pk result"

definition emptySigner :: "'pk Signer" where
  "emptySigner = \<lparr>PubKey = None, Address = [], marshalledPubKey = []\<rparr>"

section \<open>Header basics\<close>

definition Header_Height :: "Header \<Rightarrow> u64" where
  "Header_Height h = bhHeight (base h)"

definition Header_ChainID :: "Header \<Rightarrow> string" where
  "Header_ChainID h = bhChainID (base h)"

definition Header_Time :: "Header \<Rightarrow> gotime" where
  "Header_Time h = time_of_u64 (bhTime (base h))"

definition len_opt :: "bytes option \<Rightarrow> nat" where
  "len_opt b = (case b of None \<Rightarrow> 0 | Some x \<Rightarrow> length x)"

definition cloneBytes :: "bytes option \<Rightarrow> bytes option" where
  "cloneBytes b = (if len_opt b = 0 then None else b)"

definition emptyLegacy :: LegacyHeaderFields where
  "emptyLegacy = \<lparr>LastCommitHash = None, ConsensusHash = None, LastResultsHash = None\<rparr>"

definition Legacy_IsZero :: "LegacyHeaderFields option \<Rightarrow> bool" where
  "Legacy_IsZero l = (case l of None \<Rightarrow> True
     | Some l \<Rightarrow> len_opt (LastCommitHash l) = 0 \<and> len_opt (ConsensusHash l) = 0 \<and>
                 len_opt (LastResultsHash l) = 0)"

definition EnsureDefaults :: "LegacyHeaderFields \<Rightarrow> LegacyHeaderFields" where
  "EnsureDefaults l = (if ConsensusHash l = None then l\<lparr>ConsensusHash := Some (replicate 32 0)\<rparr> else l)"

definition Legacy_Clone :: "LegacyHeaderFields option \<Rightarrow> LegacyHeaderFields option" where
  "Legacy_Clone l = map_option (\<lambda>l. \<lparr>LastCommitHash = cloneBytes (LastCommitHash l),
     ConsensusHash = cloneBytes (ConsensusHash l),
     LastResultsHash = cloneBytes (LastResultsHash l)\<rparr>) l"

definition ApplyLegacyDefaults :: "Header \<Rightarrow> Header" where
  "ApplyLegacyDefaults h =
     (let l = (case Legacy h of None \<Rightarrow> emptyLegacy | Some l \<Rightarrow> l) in
      h\<lparr>Legacy := Some (EnsureDefaults l)\<rparr>)"

text \<open>The copied slices hold the same bytes; only the legacy fields tell nil from empty.\<close>

definition Header_Clone :: "Header \<Rightarrow> Header" where
  "Header_Clone h = h\<lparr>Legacy := Legacy_Clone (Legacy h)\<rparr>"

section \<open>Legacy header fields\<close>

definition legacyLastCommitHashField :: nat where
  "legacyLastCommitHashField = 5"

definition legacyConsensusHashField :: nat where
  "legacyConsensusHashField = 7"

definition legacyLastResultsHashField :: nat where
  "legacyLastResultsHashField = 9"

definition maxUnknownFieldSize :: nat where
  "maxUnknownFieldSize = 1024 * 1024"

definition maxLegacyHashSize :: nat where
  "maxLegacyHashSize = 1024"

lemmas legacy_fields = legacyLastCommitHashField_def legacyConsensusHashField_def
  legacyLastResultsHashField_def

definition appendBytesField :: "protowire \<Rightarrow> bytes \<Rightarrow> nat \<Rightarrow> bytes \<Rightarrow> bytes" where
  "appendBytesField w buf number value =
     buf @ pw_tag w number BytesType @ pw_varint w (of_nat (length value)) @ value"

definition append_legacy :: "protowire \<Rightarrow> nat \<Rightarrow> bytes option \<Rightarrow> bytes \<Rightarrow> bytes" where
  "append_legacy w number value buf =
     (if len_opt value > 0 then appendBytesField w buf number (the value) else buf)"

definition encodeLegacyUnknownFields :: "protowire \<Rightarrow> LegacyHeaderFields option \<Rightarrow> bytes" where
  "encodeLegacyUnknownFields w legacy =
     (case legacy of None \<Rightarrow> []
      | Some l \<Rightarrow> if Legacy_IsZero legacy then [] else
          append_legacy w legacyLastResultsHashField (LastResultsHash l)
            (append_legacy w legacyConsensusHashField (ConsensusHash l)
              (append_legacy w legacyLastCommitHashField (LastCommitHash l) [])))"

definition set_legacy :: "nat \<Rightarrow> bytes option \<Rightarrow> LegacyHeaderFields \<Rightarrow> LegacyHeaderFields" where
  "set_legacy num v l =
     (if num = legacyLastCommitHashField then l\<lparr>LastCommitHash := v\<rparr>
      else if num = legacyConsensusHashField then l\<lparr>ConsensusHash := v\<rparr>
      else l\<lparr>LastResultsHash := v\<rparr>)"

text \<open>One iteration of the scan of the unknown fields: an error, or the bytes and the fields to go
  on with.\<close>

definition decode_step ::
  "protowire \<Rightarrow> bytes \<Rightarrow> LegacyHeaderFields \<Rightarrow> (bytes \<times> LegacyHeaderFields) result" where
  "decode_step w buf legacy =
     (case pw_consume_tag w buf of
        Inl e \<Rightarrow> Inl e
      | Inr (fieldNum, ty, n) \<Rightarrow>
          let unknown = drop n buf in
          if fieldNum = legacyLastCommitHashField \<or> fieldNum = legacyConsensusHashField \<or>
             fieldNum = legacyLastResultsHashField
          then
            if ty \<noteq> BytesType then
              (case pw_consume_field w fieldNum ty unknown of
                 Inl e \<Rightarrow> Inl e
               | Inr sz \<Rightarrow> Inr (drop sz unknown, legacy))
            else
              (case pw_consume_bytes w unknown of
                 Inl e \<Rightarrow> Inl e
               | Inr (value, sz) \<Rightarrow>
                   if length value > maxLegacyHashSize
                   then Inl (Msg ''legacy hash field too large'')
                   else Inr (drop sz unknown,
                          set_legacy fieldNum (if value = [] then None else Some value) legacy))
          else
            (case pw_consume_field w fieldNum ty unknown of
               Inl e \<Rightarrow> Inl e
             | Inr sz \<Rightarrow> Inr (drop sz unknown, legacy)))"

text \<open>
  The scan, with a bound on the iterations: \<^verbatim>\<open>None\<close> is a scan that has not ended within it. An
  iteration consumes at least the bytes of a tag, so as many iterations as there are bytes are
  enough (\<^verbatim>\<open>decode_loop_ends\<close>).
\<close>

fun decode_loop ::
  "protowire \<Rightarrow> nat \<Rightarrow> bytes \<Rightarrow> LegacyHeaderFields \<Rightarrow> LegacyHeaderFields result option" where
  "decode_loop w fuel [] legacy = Some (Inr legacy)"
| "decode_loop w 0 (x # xs) legacy = None"
| "decode_loop w (Suc fuel) (x # xs) legacy =
     (case decode_step w (x # xs) legacy of
        Inl e \<Rightarrow> Some (Inl e)
      | Inr (unknown, legacy') \<Rightarrow> decode_loop w fuel unknown legacy')"

definition decodeLegacyHeaderFields :: "protowire \<Rightarrow> pb_Header \<Rightarrow> LegacyHeaderFields option result" where
  "decodeLegacyHeaderFields w pHeader =
     (let unknown = pb_unknown pHeader in
      if unknown = [] then Inr None
      else if length unknown > maxUnknownFieldSize then Inl (Msg ''unknown fields too large'')
      else (case decode_loop w (length unknown) unknown emptyLegacy of
              None \<Rightarrow> Inl (Msg ''no progress'')
            | Some (Inl e) \<Rightarrow> Inl e
            | Some (Inr l) \<Rightarrow> if Legacy_IsZero (Some l) then Inr None else Inr (Some l)))"

section \<open>Binary forms\<close>

definition Version_ToProto :: "Version \<Rightarrow> pb_Version" where
  "Version_ToProto v = \<lparr>pb_block = vBlock v, pb_app = vApp v\<rparr>"

definition Version_FromProto :: "pb_Version option \<Rightarrow> Version" where
  "Version_FromProto v = (case v of None \<Rightarrow> \<lparr>vBlock = 0, vApp = 0\<rparr>
     | Some v \<Rightarrow> \<lparr>vBlock = pb_block v, vApp = pb_app v\<rparr>)"

definition Header_ToProto :: "'pk types_env \<Rightarrow> Header \<Rightarrow> pb_Header" where
  "Header_ToProto env h =
     \<lparr>pb_version = Some (Version_ToProto (hVersion h)), pb_height = bhHeight (base h),
      pb_time = bhTime (base h), pb_last_header_hash = LastHeaderHash h, pb_data_hash = DataHash h,
      pb_app_hash = AppHash h, pb_proposer_address = ProposerAddress h,
      pb_validator_hash = ValidatorHash h, pb_chain_id = bhChainID (base h),
      pb_unknown = encodeLegacyUnknownFields (wire env) (Legacy h)\<rparr>"

definition Header_FromProto :: "'pk types_env \<Rightarrow> pb_Header option \<Rightarrow> Header result" where
  "Header_FromProto env other =
     (case other of None \<Rightarrow> Inl (Msg ''header is nil'')
      | Some p \<Rightarrow>
          (case decodeLegacyHeaderFields (wire env) p of
             Inl e \<Rightarrow> Inl e
           | Inr legacy \<Rightarrow> Inr
               \<lparr>base = \<lparr>bhHeight = pb_height p, bhTime = pb_time p, bhChainID = pb_chain_id p\<rparr>,
                hVersion = Version_FromProto (pb_version p), LastHeaderHash = pb_last_header_hash p,
                DataHash = pb_data_hash p, AppHash = pb_app_hash p,
                ValidatorHash = pb_validator_hash p, ProposerAddress = pb_proposer_address p,
                Legacy = legacy\<rparr>))"

definition Header_MarshalBinary :: "'pk types_env \<Rightarrow> Header \<Rightarrow> bytes result" where
  "Header_MarshalBinary env h = enc (c_header (cds env)) (Header_ToProto env h)"

definition Header_UnmarshalBinary :: "'pk types_env \<Rightarrow> bytes \<Rightarrow> Header result" where
  "Header_UnmarshalBinary env data =
     (case dec (c_header (cds env)) data of Inl e \<Rightarrow> Inl e
      | Inr pHeader \<Rightarrow> Header_FromProto env (Some pHeader))"

text \<open>The legacy encoding writes the fields of the header in the order of their numbers, the
  version, height and time always and the others where they are not empty.\<close>

definition append_field :: "protowire \<Rightarrow> nat \<Rightarrow> bytes \<Rightarrow> bytes \<Rightarrow> bytes" where
  "append_field w number value buf =
     (if length value > 0 then appendBytesField w buf number value else buf)"

definition marshalLegacyHeader :: "'pk types_env \<Rightarrow> Header \<Rightarrow> bytes result" where
  "marshalLegacyHeader env h =
     (let clone = ApplyLegacyDefaults (Header_Clone h); w = wire env; l = the (Legacy clone) in
      case enc (c_version (cds env)) (Version_ToProto (hVersion clone)) of
        Inl e \<Rightarrow> Inl e
      | Inr versionBytes \<Rightarrow>
          let p1 = appendBytesField w [] 1 versionBytes;
              p2 = p1 @ pw_tag w 2 VarintType @ pw_varint w (bhHeight (base clone));
              p3 = p2 @ pw_tag w 3 VarintType @ pw_varint w (bhTime (base clone));
              p4 = append_field w 4 (LastHeaderHash clone) p3;
              p5 = append_legacy w legacyLastCommitHashField (LastCommitHash l) p4;
              p6 = append_field w 6 (DataHash clone) p5;
              p7 = append_legacy w legacyConsensusHashField (ConsensusHash l) p6;
              p8 = append_field w 8 (AppHash clone) p7;
              p9 = append_legacy w legacyLastResultsHashField (LastResultsHash l) p8;
              p10 = append_field w 10 (ProposerAddress clone) p9;
              p11 = append_field w 11 (ValidatorHash clone) p10 in
          Inr (append_field w 12 (bytes_of_string (bhChainID (base clone))) p11))"

definition MarshalBinaryLegacy :: "'pk types_env \<Rightarrow> Header \<Rightarrow> bytes result" where
  "MarshalBinaryLegacy env h = marshalLegacyHeader env h"

definition Metadata_ToProto :: "Metadata \<Rightarrow> pb_Metadata" where
  "Metadata_ToProto m = \<lparr>pbm_chain_id = mChainID m, pbm_height = mHeight m, pbm_time = mTime m,
     pbm_last_data_hash = LastDataHash m\<rparr>"

definition Metadata_FromProto :: "pb_Metadata option \<Rightarrow> Metadata result" where
  "Metadata_FromProto other = (case other of None \<Rightarrow> Inl (Msg ''metadata is nil'')
     | Some p \<Rightarrow> Inr \<lparr>mChainID = pbm_chain_id p, mHeight = pbm_height p, mTime = pbm_time p,
                     LastDataHash = pbm_last_data_hash p\<rparr>)"

definition Metadata_MarshalBinary :: "'pk types_env \<Rightarrow> Metadata \<Rightarrow> bytes result" where
  "Metadata_MarshalBinary env m = enc (c_metadata (cds env)) (Metadata_ToProto m)"

definition Metadata_UnmarshalBinary :: "'pk types_env \<Rightarrow> bytes \<Rightarrow> Metadata result" where
  "Metadata_UnmarshalBinary env b = (case dec (c_metadata (cds env)) b of Inl e \<Rightarrow> Inl e
     | Inr p \<Rightarrow> Metadata_FromProto (Some p))"

definition Data_ToProto :: "Data \<Rightarrow> pb_Data" where
  "Data_ToProto d = \<lparr>pbd_metadata = map_option Metadata_ToProto (dMetadata d), pbd_txs = Txs d\<rparr>"

definition Data_FromProto :: "pb_Data option \<Rightarrow> Data result" where
  "Data_FromProto other = (case other of None \<Rightarrow> Inl (Msg ''data is nil'')
     | Some p \<Rightarrow> (case pbd_metadata p of
         None \<Rightarrow> Inr \<lparr>dMetadata = None, Txs = pbd_txs p\<rparr>
       | Some m \<Rightarrow> (case Metadata_FromProto (Some m) of Inl e \<Rightarrow> Inl e
           | Inr m' \<Rightarrow> Inr \<lparr>dMetadata = Some m', Txs = pbd_txs p\<rparr>)))"

definition Data_MarshalBinary :: "'pk types_env \<Rightarrow> Data \<Rightarrow> bytes result" where
  "Data_MarshalBinary env d = enc (c_data (cds env)) (Data_ToProto d)"

definition Data_UnmarshalBinary :: "'pk types_env \<Rightarrow> bytes \<Rightarrow> Data result" where
  "Data_UnmarshalBinary env b = (case dec (c_data (cds env)) b of Inl e \<Rightarrow> Inl e
     | Inr p \<Rightarrow> Data_FromProto (Some p))"

section \<open>Signers and signed types\<close>

text \<open>The second component is the signer with its cache filled.\<close>

definition MarshalledPubKey :: "'pk types_env \<Rightarrow> 'pk Signer \<Rightarrow> bytes result \<times> 'pk Signer" where
  "MarshalledPubKey env s =
     (if length (marshalledPubKey s) > 0 then (Inr (marshalledPubKey s), s)
      else (case PubKey s of
              None \<Rightarrow> (Inr [], s)
            | Some pk \<Rightarrow> (case pk_marshal env pk of
                Inl e \<Rightarrow> (Inl e, s)
              | Inr bz \<Rightarrow> (Inr bz, s\<lparr>marshalledPubKey := bz\<rparr>))))"

definition NewSigner :: "'pk types_env \<Rightarrow> 'pk \<Rightarrow> 'pk Signer result" where
  "NewSigner env pk =
     (case pk_raw env pk of Inl e \<Rightarrow> Inl e
      | Inr bz \<Rightarrow> (case pk_marshal env pk of Inl e \<Rightarrow> Inl e
          | Inr m \<Rightarrow> Inr \<lparr>PubKey = Some pk, Address = sha256 bz, marshalledPubKey = m\<rparr>))"

definition KeyAddress :: "'pk types_env \<Rightarrow> 'pk \<Rightarrow> bytes" where
  "KeyAddress env pk = (case pk_raw env pk of Inl e \<Rightarrow> [] | Inr bz \<Rightarrow> sha256 bz)"

text \<open>The signer of a message: the empty one where there is no public key.\<close>

definition signer_proto :: "'pk types_env \<Rightarrow> 'pk Signer \<Rightarrow> pb_Signer result \<times> 'pk Signer" where
  "signer_proto env s =
     (case PubKey s of
        None \<Rightarrow> (Inr \<lparr>pb_address = [], pb_pub_key = []\<rparr>, s)
      | Some pk \<Rightarrow> (case MarshalledPubKey env s of
          (Inl e, s') \<Rightarrow> (Inl e, s')
        | (Inr bz, s') \<Rightarrow> (Inr \<lparr>pb_address = Address s', pb_pub_key = bz\<rparr>, s')))"

definition signer_of_proto :: "'pk types_env \<Rightarrow> pb_Signer option \<Rightarrow> 'pk Signer result" where
  "signer_of_proto env other =
     (case other of None \<Rightarrow> Inr emptySigner
      | Some p \<Rightarrow> if length (pb_pub_key p) > 0
          then (case pk_unmarshal env (pb_pub_key p) of Inl e \<Rightarrow> Inl e
                | Inr pk \<Rightarrow> Inr \<lparr>PubKey = Some pk, Address = pb_address p,
                                marshalledPubKey = pb_pub_key p\<rparr>)
          else Inr emptySigner)"

definition SignedHeader_ToProto ::
  "'pk types_env \<Rightarrow> 'pk SignedHeader \<Rightarrow> pb_SignedHeader result \<times> 'pk SignedHeader" where
  "SignedHeader_ToProto env sh =
     (case signer_proto env (shSigner sh) of
        (Inl e, s) \<Rightarrow> (Inl e, sh\<lparr>shSigner := s\<rparr>)
      | (Inr sg, s) \<Rightarrow>
          (Inr \<lparr>pbs_header = Some (Header_ToProto env (shHeader sh)), pbs_signature = shSignature sh,
                pbs_signer = Some sg\<rparr>, sh\<lparr>shSigner := s\<rparr>))"

definition SignedHeader_FromProto ::
  "'pk types_env \<Rightarrow> 'pk SignedHeader \<Rightarrow> pb_SignedHeader option \<Rightarrow> 'pk SignedHeader result" where
  "SignedHeader_FromProto env sh other =
     (case other of None \<Rightarrow> Inl (Msg ''signed header is nil'')
      | Some p \<Rightarrow>
          if pbs_header p = None then Inl (Msg ''signed header's Header is nil'')
          else (case Header_FromProto env (pbs_header p) of
              Inl e \<Rightarrow> Inl e
            | Inr h \<Rightarrow> (case signer_of_proto env (pbs_signer p) of
                Inl e \<Rightarrow> Inl e
              | Inr s \<Rightarrow> Inr (sh\<lparr>shHeader := h, shSignature := pbs_signature p, shSigner := s\<rparr>))))"

definition SignedHeader_MarshalBinary ::
  "'pk types_env \<Rightarrow> 'pk SignedHeader \<Rightarrow> bytes result \<times> 'pk SignedHeader" where
  "SignedHeader_MarshalBinary env sh =
     (case SignedHeader_ToProto env sh of
        (Inl e, sh') \<Rightarrow> (Inl e, sh')
      | (Inr hp, sh') \<Rightarrow> (enc (c_signed_header (cds env)) hp, sh'))"

definition SignedHeader_UnmarshalBinary ::
  "'pk types_env \<Rightarrow> 'pk SignedHeader \<Rightarrow> bytes \<Rightarrow> 'pk SignedHeader result" where
  "SignedHeader_UnmarshalBinary env sh data =
     (case dec (c_signed_header (cds env)) data of Inl e \<Rightarrow> Inl e
      | Inr p \<Rightarrow> SignedHeader_FromProto env sh (Some p))"

definition ToDAEnvelopeProto ::
  "'pk types_env \<Rightarrow> 'pk SignedHeader \<Rightarrow> bytes \<Rightarrow> pb_DAHeaderEnvelope result \<times> 'pk SignedHeader" where
  "ToDAEnvelopeProto env sh envelopeSignature =
     (case signer_proto env (shSigner sh) of
        (Inl e, s) \<Rightarrow> (Inl e, sh\<lparr>shSigner := s\<rparr>)
      | (Inr sg, s) \<Rightarrow>
          (Inr \<lparr>pbe_header = Some (Header_ToProto env (shHeader sh)), pbe_signature = shSignature sh,
                pbe_signer = Some sg, pbe_envelope_signature = envelopeSignature\<rparr>, sh\<lparr>shSigner := s\<rparr>))"

definition FromDAEnvelopeProto ::
  "'pk types_env \<Rightarrow> 'pk SignedHeader \<Rightarrow> pb_DAHeaderEnvelope option \<Rightarrow> 'pk SignedHeader result" where
  "FromDAEnvelopeProto env sh envelope =
     (case envelope of None \<Rightarrow> Inl (Msg ''da header envelope is nil'')
      | Some p \<Rightarrow>
          if pbe_header p = None then Inl (Msg ''da header envelope's Header is nil'')
          else (case Header_FromProto env (pbe_header p) of
              Inl e \<Rightarrow> Inl e
            | Inr h \<Rightarrow> (case signer_of_proto env (pbe_signer p) of
                Inl e \<Rightarrow> Inl e
              | Inr s \<Rightarrow> Inr (sh\<lparr>shHeader := h, shSignature := pbe_signature p, shSigner := s\<rparr>))))"

definition MarshalDAEnvelope ::
  "'pk types_env \<Rightarrow> 'pk SignedHeader \<Rightarrow> bytes \<Rightarrow> bytes result \<times> 'pk SignedHeader" where
  "MarshalDAEnvelope env sh envelopeSignature =
     (case ToDAEnvelopeProto env sh envelopeSignature of
        (Inl e, sh') \<Rightarrow> (Inl e, sh')
      | (Inr p, sh') \<Rightarrow> (enc (c_envelope (cds env)) p, sh'))"

definition UnmarshalDAEnvelope ::
  "'pk types_env \<Rightarrow> 'pk SignedHeader \<Rightarrow> bytes \<Rightarrow> (bytes \<times> 'pk SignedHeader) result" where
  "UnmarshalDAEnvelope env sh data =
     (case dec (c_envelope (cds env)) data of Inl e \<Rightarrow> Inl e
      | Inr envelope \<Rightarrow> (case FromDAEnvelopeProto env sh (Some envelope) of Inl e \<Rightarrow> Inl e
          | Inr sh' \<Rightarrow> Inr (pbe_envelope_signature envelope, sh')))"

definition SignedData_ToProto ::
  "'pk types_env \<Rightarrow> 'pk SignedData \<Rightarrow> pb_SignedData result \<times> 'pk SignedData" where
  "SignedData_ToProto env sd =
     (case signer_proto env (sdSigner sd) of
        (Inl e, s) \<Rightarrow> (Inl e, sd\<lparr>sdSigner := s\<rparr>)
      | (Inr sg, s) \<Rightarrow>
          (Inr \<lparr>pbsd_data = Some (Data_ToProto (sdData sd)), pbsd_signature = sdSignature sd,
                pbsd_signer = Some sg\<rparr>, sd\<lparr>sdSigner := s\<rparr>))"

definition SignedData_FromProto ::
  "'pk types_env \<Rightarrow> 'pk SignedData \<Rightarrow> pb_SignedData option \<Rightarrow> 'pk SignedData result" where
  "SignedData_FromProto env sd other =
     (case other of None \<Rightarrow> Inl (Msg ''signed data is nil'')
      | Some p \<Rightarrow>
          (case (if pbsd_data p = None then Inr (sdData sd) else Data_FromProto (pbsd_data p)) of
             Inl e \<Rightarrow> Inl e
           | Inr d \<Rightarrow> (case signer_of_proto env (pbsd_signer p) of
               Inl e \<Rightarrow> Inl e
             | Inr s \<Rightarrow> Inr \<lparr>sdData = d, sdSignature = pbsd_signature p, sdSigner = s\<rparr>)))"

definition SignedData_MarshalBinary ::
  "'pk types_env \<Rightarrow> 'pk SignedData \<Rightarrow> bytes result \<times> 'pk SignedData" where
  "SignedData_MarshalBinary env sd =
     (case SignedData_ToProto env sd of
        (Inl e, sd') \<Rightarrow> (Inl e, sd')
      | (Inr p, sd') \<Rightarrow> (enc (c_signed_data (cds env)) p, sd'))"

definition SignedData_UnmarshalBinary ::
  "'pk types_env \<Rightarrow> 'pk SignedData \<Rightarrow> bytes \<Rightarrow> 'pk SignedData result" where
  "SignedData_UnmarshalBinary env sd data =
     (case dec (c_signed_data (cds env)) data of Inl e \<Rightarrow> Inl e
      | Inr p \<Rightarrow> SignedData_FromProto env sd (Some p))"

section \<open>State\<close>

text \<open>\<^verbatim>\<open>Unix()\<close> and \<^verbatim>\<open>Nanosecond()\<close> of a time, and \<^verbatim>\<open>AsTime()\<close> of a timestamp.\<close>

definition time_ToProto :: "gotime \<Rightarrow> pb_Timestamp" where
  "time_ToProto t = \<lparr>pbt_seconds = word_of_int (t div 1000000000), pbt_nanos = word_of_int (t mod 1000000000)\<rparr>"

definition AsTime :: "pb_Timestamp \<Rightarrow> gotime" where
  "AsTime t = sint (pbt_seconds t) * 1000000000 + sint (pbt_nanos t)"

definition State_ToProto :: "State \<Rightarrow> pb_State" where
  "State_ToProto s =
     \<lparr>pbst_version = Some (Version_ToProto (sVersion s)), pbst_chain_id = sChainID s,
      pbst_initial_height = InitialHeight s, pbst_last_block_height = LastBlockHeight s,
      pbst_last_block_time = Some (time_ToProto (LastBlockTime s)), pbst_da_height = sDAHeight s,
      pbst_app_hash = sAppHash s, pbst_last_header_hash = sLastHeaderHash s\<rparr>"

definition State_FromProto :: "pb_State option \<Rightarrow> State result" where
  "State_FromProto other = (case other of None \<Rightarrow> Inl (Msg ''state is nil'')
     | Some p \<Rightarrow> Inr
         \<lparr>sVersion = Version_FromProto (pbst_version p), sChainID = pbst_chain_id p,
          InitialHeight = pbst_initial_height p, LastBlockHeight = pbst_last_block_height p,
          LastBlockTime = (case pbst_last_block_time p of None \<Rightarrow> zero_time | Some t \<Rightarrow> AsTime t),
          sLastHeaderHash = pbst_last_header_hash p, sDAHeight = pbst_da_height p,
          sAppHash = pbst_app_hash p\<rparr>)"

section \<open>Gossip envelopes\<close>

record 'pk P2PSignedHeader =
  p2pSignedHeader :: "'pk SignedHeader"
  hDAHeightHint :: u64

record P2PData =
  p2pData :: Data
  dDAHeightHint :: u64

definition P2PSignedHeader_MarshalBinary ::
  "'pk types_env \<Rightarrow> 'pk P2PSignedHeader \<Rightarrow> bytes result \<times> 'pk P2PSignedHeader" where
  "P2PSignedHeader_MarshalBinary env p =
     (case SignedHeader_ToProto env (p2pSignedHeader p) of
        (Inl e, sh) \<Rightarrow> (Inl e, p\<lparr>p2pSignedHeader := sh\<rparr>)
      | (Inr psh, sh) \<Rightarrow>
          (enc (c_p2p_signed_header (cds env))
             \<lparr>pbp_header = pbs_header psh, pbp_signature = pbs_signature psh,
              pbp_signer = pbs_signer psh, pbp_da_height_hint = Some (hDAHeightHint p)\<rparr>,
           p\<lparr>p2pSignedHeader := sh\<rparr>))"

definition P2PSignedHeader_UnmarshalBinary ::
  "'pk types_env \<Rightarrow> 'pk P2PSignedHeader \<Rightarrow> bytes \<Rightarrow> 'pk P2PSignedHeader result" where
  "P2PSignedHeader_UnmarshalBinary env p data =
     (case dec (c_p2p_signed_header (cds env)) data of
        Inl e \<Rightarrow> Inl e
      | Inr msg \<Rightarrow>
          (case SignedHeader_FromProto env (p2pSignedHeader p)
                  (Some \<lparr>pbs_header = pbp_header msg, pbs_signature = pbp_signature msg,
                         pbs_signer = pbp_signer msg\<rparr>) of
             Inl e \<Rightarrow> Inl e
           | Inr sh \<Rightarrow> Inr \<lparr>p2pSignedHeader = sh,
               hDAHeightHint = (case pbp_da_height_hint msg of None \<Rightarrow> hDAHeightHint p | Some x \<Rightarrow> x)\<rparr>))"

definition P2PData_MarshalBinary :: "'pk types_env \<Rightarrow> P2PData \<Rightarrow> bytes result" where
  "P2PData_MarshalBinary env p =
     (let pData = Data_ToProto (p2pData p) in
      enc (c_p2p_data (cds env)) \<lparr>pbpd_metadata = pbd_metadata pData, pbpd_txs = pbd_txs pData,
        pbpd_da_height_hint = Some (dDAHeightHint p)\<rparr>)"

definition P2PData_UnmarshalBinary :: "'pk types_env \<Rightarrow> P2PData \<Rightarrow> bytes \<Rightarrow> P2PData result" where
  "P2PData_UnmarshalBinary env p data =
     (case dec (c_p2p_data (cds env)) data of
        Inl e \<Rightarrow> Inl e
      | Inr msg \<Rightarrow>
          (case Data_FromProto (Some \<lparr>pbd_metadata = pbpd_metadata msg, pbd_txs = pbpd_txs msg\<rparr>) of
             Inl e \<Rightarrow> Inl e
           | Inr d \<Rightarrow> Inr \<lparr>p2pData = d,
               dDAHeightHint = (case pbpd_da_height_hint msg of None \<Rightarrow> dDAHeightHint p | Some x \<Rightarrow> x)\<rparr>))"

section \<open>Hashes\<close>

definition HashSlim :: "'pk types_env \<Rightarrow> Header \<Rightarrow> bytes result" where
  "HashSlim env h = (case Header_MarshalBinary env h of Inl e \<Rightarrow> Inl e | Inr b \<Rightarrow> Inr (sha256 b))"

definition HashLegacy :: "'pk types_env \<Rightarrow> Header \<Rightarrow> bytes result" where
  "HashLegacy env h = (case MarshalBinaryLegacy env h of Inl e \<Rightarrow> Inl e | Inr b \<Rightarrow> Inr (sha256 b))"

definition Header_Hash :: "'pk types_env \<Rightarrow> Header \<Rightarrow> bytes" where
  "Header_Hash env h =
     (case HashSlim env h of
        Inl e \<Rightarrow> []
      | Inr slimHash \<Rightarrow>
          if Legacy h \<noteq> None \<and> \<not> Legacy_IsZero (Legacy h)
          then (case HashLegacy env h of Inr legacyHash \<Rightarrow> legacyHash | Inl e \<Rightarrow> slimHash)
          else slimHash)"

definition leafHashOpt :: "bytes \<Rightarrow> bytes" where
  "leafHashOpt leaf = sha256 (0 # leaf)"

text \<open>A marshalling error is ignored: the bytes are then empty.\<close>

definition ok_bytes :: "bytes result \<Rightarrow> bytes" where
  "ok_bytes r = (case r of Inl e \<Rightarrow> [] | Inr b \<Rightarrow> b)"

definition Data_Hash :: "'pk types_env \<Rightarrow> Data \<Rightarrow> bytes" where
  "Data_Hash env d = leafHashOpt (ok_bytes (Data_MarshalBinary env d))"

definition DACommitment :: "'pk types_env \<Rightarrow> Data \<Rightarrow> bytes" where
  "DACommitment env d = leafHashOpt (ok_bytes (Data_MarshalBinary env \<lparr>dMetadata = None, Txs = Txs d\<rparr>))"

end
