(* ===== verification/Serialization.thy ===== *)
theory Serialization
  imports Types
begin

text \<open>
  Round trips of the binary forms of \<^verbatim>\<open>src/types/serialization.go\<close> and
  \<^verbatim>\<open>src/types/p2p_envelope.go\<close>: decoding gives back what was encoded, for headers in both
  formats, signed headers, their DA and gossip envelopes, data, signed data and state. The codecs
  of the protobuf messages are assumed to decode what they encode; for headers the unknown fields
  carry the deprecated hashes, whose scan is proved to end on every input and to read back what the
  encoder wrote.
\<close>

section \<open>The legacy fields\<close>

lemma decode_step_progress:
  assumes "protowire_ok w" and "decode_step w buf l = Inr (buf', l')"
  shows "length buf' < length buf"
proof -
  obtain num ty n where t: "pw_consume_tag w buf = Inr (num, ty, n)"
    using assms(2) by (cases "pw_consume_tag w buf") (auto simp: decode_step_def)
  then have n: "0 < n" "n \<le> length buf" using protowire_tag_progress [OF assms(1)] by blast+
  have "\<exists>sz. buf' = drop sz (drop n buf)"
    using assms(2) t by (auto simp: decode_step_def Let_def split: if_splits sum.splits prod.splits)
  then show ?thesis using n by auto
qed

lemma decode_loop_ends:
  assumes "protowire_ok w" and "length u \<le> fuel"
  shows "\<exists>r. decode_loop w fuel u l = Some r"
  using assms(2)
proof (induction fuel arbitrary: u l)
  case 0
  then show ?case by simp
next
  case (Suc fuel)
  show ?case
  proof (cases u)
    case (Cons x xs)
    then show ?thesis
      using Suc decode_step_progress [OF assms(1), of u l]
      by (cases "decode_step w u l") fastforce+
  qed simp
qed

text \<open>A field the encoder wrote is read back and the scan goes on behind it.\<close>

lemma decode_loop_field:
  assumes w: "protowire_ok w"
    and num: "num = legacyLastCommitHashField \<or> num = legacyConsensusHashField \<or> num = legacyLastResultsHashField"
    and len: "length v \<le> maxLegacyHashSize"
  shows "decode_loop w (Suc fuel) (appendBytesField w [] num v @ rest) l =
    decode_loop w fuel rest (set_legacy num (if v = [] then None else Some v) l)"
proof -
  let ?u = "appendBytesField w [] num v @ rest"
  let ?tag = "pw_tag w num BytesType" and ?var = "pw_varint w (of_nat (length v))"
  have u: "?u = ?tag @ ?var @ v @ rest" by (simp add: appendBytesField_def)
  obtain x xs where x: "?u = x # xs"
    using protowire_tag_nonempty [OF w] u by (metis append_is_Nil_conv list.exhaust)
  have tag: "pw_consume_tag w ?u = Inr (num, BytesType, length ?tag)"
    unfolding u using num by (intro protowire_tag [OF w]) (auto simp: legacy_fields BytesType_def)
  have drop: "drop (length ?tag) (x # xs) = ?var @ v @ rest"
    unfolding x [symmetric] u by simp
  have len64: "length v < 2 ^ 64" using len by (simp add: maxLegacyHashSize_def)
  have "decode_step w (x # xs) l = Inr (rest, set_legacy num (if v = [] then None else Some v) l)"
    unfolding decode_step_def using tag [unfolded x] num len
    by (simp add: drop protowire_bytes [OF w len64])
  then show ?thesis unfolding x by simp
qed

text \<open>The fields as the scan leaves them: an empty hash is no hash, and no hash at all is no
  legacy block.\<close>

definition norm_legacy :: "LegacyHeaderFields option \<Rightarrow> LegacyHeaderFields option" where
  "norm_legacy l = (if Legacy_IsZero l then None else Legacy_Clone l)"

definition legacy_small :: "LegacyHeaderFields option \<Rightarrow> bool" where
  "legacy_small l = (case l of None \<Rightarrow> True | Some l \<Rightarrow>
     len_opt (LastCommitHash l) \<le> maxLegacyHashSize \<and> len_opt (ConsensusHash l) \<le> maxLegacyHashSize \<and>
     len_opt (LastResultsHash l) \<le> maxLegacyHashSize)"

lemma decode_loop_mono:
  "decode_loop w f u l = Some r \<Longrightarrow> f \<le> f' \<Longrightarrow> decode_loop w f' u l = Some r"
proof (induction f arbitrary: u l f')
  case 0
  then show ?case by (cases u) simp_all
next
  case (Suc f)
  obtain g where g: "f' = Suc g" and "f \<le> g" using Suc.prems(2) by (cases f') auto
  then have IH: "decode_loop w f u l = Some r \<Longrightarrow> decode_loop w g u l = Some r" for u l
    using Suc.IH by blast
  show ?case
  proof (cases u)
    case Nil
    then show ?thesis using Suc.prems by simp
  next
    case (Cons x xs)
    show ?thesis
      using Suc.prems(1) IH unfolding Cons g by (auto split: sum.splits)
  qed
qed

definition legacy_part :: "protowire \<Rightarrow> nat \<Rightarrow> bytes option \<Rightarrow> bytes" where
  "legacy_part w num v = (if len_opt v > 0 then appendBytesField w [] num (the v) else [])"

lemma append_legacy_part: "append_legacy w num v buf = buf @ legacy_part w num v"
  by (simp add: append_legacy_def legacy_part_def appendBytesField_def)

lemma encodeLegacy_parts:
  "encodeLegacyUnknownFields w (Some l) =
     legacy_part w legacyLastCommitHashField (LastCommitHash l) @
     legacy_part w legacyConsensusHashField (ConsensusHash l) @
     legacy_part w legacyLastResultsHashField (LastResultsHash l)"
  by (auto simp: encodeLegacyUnknownFields_def append_legacy_part Legacy_IsZero_def legacy_part_def)

lemma decode_legacy_part:
  assumes "protowire_ok w" and "num = legacyLastCommitHashField \<or> num = legacyConsensusHashField \<or> num = legacyLastResultsHashField"
    and "len_opt v \<le> maxLegacyHashSize"
    and "decode_loop w fuel rest (if len_opt v = 0 then l else set_legacy num v l) = Some r"
  shows "decode_loop w (Suc fuel) (legacy_part w num v @ rest) l = Some r"
proof (cases "len_opt v = 0")
  case True
  then show ?thesis using assms(4) by (auto simp: legacy_part_def intro: decode_loop_mono)
next
  case False
  then obtain b where "v = Some b" "b \<noteq> []" by (cases v) (auto simp: len_opt_def)
  then show ?thesis using assms decode_loop_field [OF assms(1,2), of b] by (simp add: legacy_part_def len_opt_def)
qed

lemma decode_encode_legacy:
  assumes w: "protowire_ok w" and small: "legacy_small (Some l)"
  shows "decode_loop w (length (encodeLegacyUnknownFields w (Some l)))
      (encodeLegacyUnknownFields w (Some l)) emptyLegacy = Some (Inr (the (Legacy_Clone (Some l))))"
proof -
  let ?u = "encodeLegacyUnknownFields w (Some l)"
  have l: "len_opt (LastCommitHash l) \<le> maxLegacyHashSize" "len_opt (ConsensusHash l) \<le> maxLegacyHashSize"
    "len_opt (LastResultsHash l) \<le> maxLegacyHashSize" using small by (auto simp: legacy_small_def)
  define upd where "upd num v l = (if len_opt v = 0 then l else set_legacy num v l)" for num v l
  define l1 where "l1 = upd legacyLastCommitHashField (LastCommitHash l) emptyLegacy"
  define l2 where "l2 = upd legacyConsensusHashField (ConsensusHash l) l1"
  define l3 where "l3 = upd legacyLastResultsHashField (LastResultsHash l) l2"
  have "decode_loop w (Suc 0) (legacy_part w legacyLastResultsHashField (LastResultsHash l) @ []) l2 = Some (Inr l3)"
    by (rule decode_legacy_part [OF w _ l(3)]) (simp_all add: l3_def upd_def)
  then have "decode_loop w (Suc (Suc 0)) (legacy_part w legacyConsensusHashField (ConsensusHash l) @
      legacy_part w legacyLastResultsHashField (LastResultsHash l)) l1 = Some (Inr l3)"
    by (intro decode_legacy_part [OF w _ l(2)]) (simp_all add: l2_def upd_def)
  then have "decode_loop w (Suc (Suc (Suc 0))) ?u emptyLegacy = Some (Inr l3)"
    unfolding encodeLegacy_parts
    by (intro decode_legacy_part [OF w _ l(1)]) (simp_all add: l1_def upd_def)
  moreover have "l3 = the (Legacy_Clone (Some l))"
    by (simp add: l3_def l2_def l1_def upd_def set_legacy_def legacy_fields emptyLegacy_def
        Legacy_Clone_def cloneBytes_def)
  ultimately have "decode_loop w 3 ?u emptyLegacy = Some (Inr (the (Legacy_Clone (Some l))))"
    by (simp add: numeral_3_eq_3)
  moreover obtain r where "decode_loop w (length ?u) ?u emptyLegacy = Some r"
    using decode_loop_ends [OF w order_refl] by blast
  ultimately show ?thesis
    using decode_loop_mono [of w 3 ?u _ _ "max 3 (length ?u)"]
      decode_loop_mono [of w "length ?u" ?u _ _ "max 3 (length ?u)"] by fastforce
qed

lemma decode_step_small:
  assumes "decode_step w buf l = Inr (buf', l')" and "legacy_small (Some l)"
  shows "legacy_small (Some l')"
  using assms
  by (auto simp: decode_step_def Let_def legacy_small_def set_legacy_def len_opt_def
      split: sum.splits if_splits prod.splits)

lemma decode_loop_small:
  "decode_loop w f u l = Some (Inr l') \<Longrightarrow> legacy_small (Some l) \<Longrightarrow> legacy_small (Some l')"
proof (induction f arbitrary: u l)
  case 0
  then show ?case by (cases u) simp_all
next
  case (Suc f)
  show ?case
  proof (cases u)
    case (Cons x xs)
    then show ?thesis
      using Suc decode_step_small [of w u l] by (cases "decode_step w u l") fastforce+
  qed (use Suc.prems in simp)
qed

lemma decodeLegacy_small:
  assumes "decodeLegacyHeaderFields w p = Inr l"
  shows "length (pb_unknown p) \<le> maxUnknownFieldSize \<and> legacy_small l"
proof (cases "pb_unknown p = []")
  case True
  then show ?thesis using assms by (simp add: decodeLegacyHeaderFields_def legacy_small_def)
next
  case False
  have e: "legacy_small (Some emptyLegacy)" by (simp add: legacy_small_def emptyLegacy_def len_opt_def)
  show ?thesis
    using assms False decode_loop_small [OF _ e, of w "length (pb_unknown p)" "pb_unknown p"]
    by (auto simp: decodeLegacyHeaderFields_def Let_def legacy_small_def
        split: if_splits option.splits sum.splits)
qed

section \<open>Headers\<close>

text \<open>The messages the header encoder produces: their unknown fields are legacy fields.\<close>

definition legacy_headers :: "protowire \<Rightarrow> pb_Header set" where
  "legacy_headers w = {p. \<exists>l. pb_unknown p = encodeLegacyUnknownFields w l}"

definition legacy_header_opt :: "protowire \<Rightarrow> pb_Header option \<Rightarrow> bool" where
  "legacy_header_opt w p = (case p of None \<Rightarrow> True | Some h \<Rightarrow> h \<in> legacy_headers w)"

text \<open>What is assumed of the codecs: they decode what they encode.\<close>

definition codecs_ok :: "'pk types_env \<Rightarrow> bool" where
  "codecs_ok env \<longleftrightarrow> protowire_ok (wire env) \<and>
     codec_ok_on (legacy_headers (wire env)) (c_header (cds env)) \<and>
     codec_ok_on {p. legacy_header_opt (wire env) (pbs_header p)} (c_signed_header (cds env)) \<and>
     codec_ok_on {p. legacy_header_opt (wire env) (pbe_header p)} (c_envelope (cds env)) \<and>
     codec_ok_on {p. legacy_header_opt (wire env) (pbp_header p)} (c_p2p_signed_header (cds env)) \<and>
     codec_ok (c_metadata (cds env)) \<and> codec_ok (c_data (cds env)) \<and>
     codec_ok (c_signed_data (cds env)) \<and> codec_ok (c_p2p_data (cds env)) \<and>
     codec_ok (c_state (cds env))"

lemma codecs_okD:
  assumes "codecs_ok env"
  shows "protowire_ok (wire env)" "codec_ok_on (legacy_headers (wire env)) (c_header (cds env))"
    "codec_ok_on {p. legacy_header_opt (wire env) (pbs_header p)} (c_signed_header (cds env))"
    "codec_ok_on {p. legacy_header_opt (wire env) (pbe_header p)} (c_envelope (cds env))"
    "codec_ok_on {p. legacy_header_opt (wire env) (pbp_header p)} (c_p2p_signed_header (cds env))"
    "codec_ok (c_metadata (cds env))" "codec_ok (c_data (cds env))"
    "codec_ok (c_signed_data (cds env))" "codec_ok (c_p2p_data (cds env))" "codec_ok (c_state (cds env))"
  using assms unfolding codecs_ok_def by blast+

lemma codec_ok_on_UNIV: "codec_ok c \<Longrightarrow> codec_ok_on A c"
  by (simp add: codec_ok_on_def)

definition norm_header :: "Header \<Rightarrow> Header" where
  "norm_header h = h\<lparr>Legacy := norm_legacy (Legacy h)\<rparr>"

lemma length_legacy_part:
  assumes "protowire_ok w" and "len_opt v \<le> maxLegacyHashSize"
  shows "length (legacy_part w num v) \<le> 20 + maxLegacyHashSize"
proof (cases v)
  case (Some b)
  have "length (pw_tag w num BytesType) \<le> 10" "length (pw_varint w (of_nat (length b))) \<le> 10"
    using protowire_length [OF assms(1)] by blast+
  then show ?thesis using assms(2) Some by (simp add: legacy_part_def appendBytesField_def len_opt_def)
qed (simp add: legacy_part_def len_opt_def)

lemma length_encodeLegacy:
  assumes "protowire_ok w" and "legacy_small (Some l)"
  shows "length (encodeLegacyUnknownFields w (Some l)) \<le> maxUnknownFieldSize"
proof -
  have "length (legacy_part w num v) \<le> 1044" if "len_opt v \<le> maxLegacyHashSize" for num v
    using length_legacy_part [OF assms(1) that] by (simp add: maxLegacyHashSize_def)
  then have "length (encodeLegacyUnknownFields w (Some l)) \<le> 1044 + (1044 + 1044)"
    using assms(2) unfolding encodeLegacy_parts length_append
    by (intro add_mono) (auto simp: legacy_small_def)
  then show ?thesis by (simp add: maxUnknownFieldSize_def)
qed

lemma Legacy_Clone_IsZero: "Legacy_IsZero (Some (the (Legacy_Clone (Some l)))) = Legacy_IsZero (Some l)"
  by (simp add: Legacy_IsZero_def Legacy_Clone_def cloneBytes_def len_opt_def)

lemma encodeLegacy_Nil:
  assumes "protowire_ok w"
  shows "encodeLegacyUnknownFields w l = [] \<longleftrightarrow> Legacy_IsZero l"
proof (cases l)
  case (Some x)
  have "legacy_part w num v = [] \<longleftrightarrow> len_opt v = 0" for num v
    using protowire_tag_nonempty [OF assms] by (simp add: legacy_part_def appendBytesField_def)
  then show ?thesis by (simp add: Some encodeLegacy_parts Legacy_IsZero_def)
qed (simp add: encodeLegacyUnknownFields_def Legacy_IsZero_def)

lemma decodeLegacy_encode:
  assumes w: "protowire_ok w" and small: "legacy_small l" and p: "pb_unknown p = encodeLegacyUnknownFields w l"
  shows "decodeLegacyHeaderFields w p = Inr (norm_legacy l)"
proof (cases "Legacy_IsZero l")
  case True
  then show ?thesis using encodeLegacy_Nil [OF w, of l] p by (simp add: decodeLegacyHeaderFields_def norm_legacy_def)
next
  case False
  then obtain x where l: "l = Some x" by (cases l) (auto simp: Legacy_IsZero_def)
  have "encodeLegacyUnknownFields w l \<noteq> []" using False encodeLegacy_Nil [OF w] by blast
  then show ?thesis
    using False p decode_encode_legacy [OF w small [unfolded l]] length_encodeLegacy [OF w small [unfolded l]]
      Legacy_Clone_IsZero [of x]
    by (simp add: decodeLegacyHeaderFields_def norm_legacy_def l) (simp add: Legacy_Clone_def)
qed

lemma Header_FromProto_ToProto:
  assumes "protowire_ok (wire env)" and "legacy_small (Legacy h)"
  shows "Header_FromProto env (Some (Header_ToProto env h)) = Inr (norm_header h)"
  using decodeLegacy_encode [OF assms, of "Header_ToProto env h"]
  by (simp add: Header_FromProto_def Header_ToProto_def norm_header_def Version_FromProto_def Version_ToProto_def)

lemma Header_ToProto_legacy [simp]:
  "Header_ToProto env h \<in> legacy_headers (wire env)"
  "legacy_header_opt (wire env) (Some (Header_ToProto env h))"
  by (auto simp: legacy_headers_def Header_ToProto_def legacy_header_opt_def)

section \<open>Signers\<close>

text \<open>A public key unmarshals from what it marshalled to, which is not empty.\<close>

definition keys_roundtrip :: "'pk types_env \<Rightarrow> bool" where
  "keys_roundtrip env \<longleftrightarrow> (\<forall>pk bz. pk_marshal env pk = Inr bz \<longrightarrow> bz \<noteq> [] \<and> pk_unmarshal env bz = Inr pk)"

text \<open>A signer as \<^verbatim>\<open>NewSigner\<close> and \<^verbatim>\<open>FromProto\<close> build them.\<close>

definition signer_ok :: "'pk types_env \<Rightarrow> 'pk Signer \<Rightarrow> bool" where
  "signer_ok env s = (case PubKey s of None \<Rightarrow> s = emptySigner
     | Some pk \<Rightarrow> pk_marshal env pk = Inr (marshalledPubKey s))"

lemma NewSigner_ok: "NewSigner env pk = Inr s \<Longrightarrow> signer_ok env s"
  by (auto simp: NewSigner_def signer_ok_def split: sum.splits)

lemma signer_proto_ok:
  assumes "keys_roundtrip env" and "signer_ok env s"
  shows "\<exists>p. signer_proto env s = (Inr p, s) \<and> signer_of_proto env (Some p) = Inr s"
proof (cases "PubKey s")
  case None
  then show ?thesis using assms(2)
    by (simp add: signer_ok_def signer_proto_def signer_of_proto_def emptySigner_def)
next
  case (Some pk)
  then have m: "pk_marshal env pk = Inr (marshalledPubKey s)" using assms(2) by (simp add: signer_ok_def)
  then have "marshalledPubKey s \<noteq> []" "pk_unmarshal env (marshalledPubKey s) = Inr pk"
    using assms(1) by (auto simp: keys_roundtrip_def)
  then show ?thesis using Some
    by (simp add: signer_proto_def MarshalledPubKey_def signer_of_proto_def)
qed

section \<open>Time\<close>

lemma AsTime_time_ToProto:
  assumes "- (2 ^ 63) \<le> t div 1000000000" and "t div 1000000000 < 2 ^ 63"
  shows "AsTime (time_ToProto t) = t"
proof -
  have "sint (word_of_int (t div 1000000000) :: u64) = t div 1000000000"
    using assms by (simp add: sint_sbintrunc' signed_take_bit_int_eq_self)
  moreover have "0 \<le> t mod 1000000000" "t mod 1000000000 < 1000000000" by simp_all
  then have "sint (word_of_int (t mod 1000000000) :: 32 word) = t mod 1000000000"
    by (simp add: sint_sbintrunc' signed_take_bit_int_eq_self)
  ultimately show ?thesis by (simp add: AsTime_def time_ToProto_def)
qed

section \<open>Messages of whole values\<close>

lemma Metadata_FromProto_ToProto [simp]: "Metadata_FromProto (Some (Metadata_ToProto m)) = Inr m"
  by (simp add: Metadata_FromProto_def Metadata_ToProto_def)

lemma Data_FromProto_ToProto [simp]: "Data_FromProto (Some (Data_ToProto d)) = Inr d"
  by (cases "dMetadata d") (simp_all add: Data_FromProto_def Data_ToProto_def)

lemma Data_roundtrip: "codecs_ok env \<Longrightarrow> Data_MarshalBinary env d = Inr b \<Longrightarrow> Data_UnmarshalBinary env b = Inr d"
  using codec_okD [OF codecs_okD(7), of env "Data_ToProto d" b]
  by (simp add: Data_MarshalBinary_def Data_UnmarshalBinary_def)

definition state_time_ok :: "State \<Rightarrow> bool" where
  "state_time_ok s \<longleftrightarrow> - (2 ^ 63) \<le> LastBlockTime s div 1000000000 \<and> LastBlockTime s div 1000000000 < 2 ^ 63"

lemma State_FromProto_ToProto: "state_time_ok s \<Longrightarrow> State_FromProto (Some (State_ToProto s)) = Inr s"
  using AsTime_time_ToProto [of "LastBlockTime s"]
  by (simp add: state_time_ok_def State_FromProto_def State_ToProto_def Version_FromProto_def Version_ToProto_def)

text \<open>A signed header that its binary form keeps.\<close>

definition sendable :: "'pk types_env \<Rightarrow> 'pk SignedHeader \<Rightarrow> bool" where
  "sendable env sh \<longleftrightarrow> signer_ok env (shSigner sh) \<and> legacy_small (Legacy (shHeader sh)) \<and>
     norm_header (shHeader sh) = shHeader sh"

lemma SignedHeader_roundtrip:
  assumes "codecs_ok env" and "keys_roundtrip env" and "sendable env sh"
    and "fst (SignedHeader_MarshalBinary env sh) = Inr b"
  shows "SignedHeader_UnmarshalBinary env old b =
    Inr (old\<lparr>shHeader := shHeader sh, shSignature := shSignature sh, shSigner := shSigner sh\<rparr>)"
proof -
  obtain sg where sg: "signer_proto env (shSigner sh) = (Inr sg, shSigner sh)"
    "signer_of_proto env (Some sg) = Inr (shSigner sh)"
    using signer_proto_ok [OF assms(2)] assms(3) by (auto simp: sendable_def)
  have h: "Header_FromProto env (Some (Header_ToProto env (shHeader sh))) = Inr (shHeader sh)"
    using Header_FromProto_ToProto [OF codecs_okD(1) [OF assms(1)]] assms(3) by (simp add: sendable_def)
  let ?p = "\<lparr>pbs_header = Some (Header_ToProto env (shHeader sh)), pbs_signature = shSignature sh, pbs_signer = Some sg\<rparr>"
  have "enc (c_signed_header (cds env)) ?p = Inr b"
    using assms(4) by (simp add: SignedHeader_MarshalBinary_def SignedHeader_ToProto_def sg)
  then have "dec (c_signed_header (cds env)) b = Inr ?p"
    by (intro codec_okD [OF codecs_okD(3) [OF assms(1)]]) simp_all
  then show ?thesis by (simp add: SignedHeader_UnmarshalBinary_def SignedHeader_FromProto_def h sg)
qed

section \<open>Properties\<close>

text \<open>An environment that keeps the laws: the keys are byte strings, and a signature of a message
  under a key is the key followed by the message.\<close>

definition demo_env :: "bytes types_env" where
  "demo_env = \<lparr>cds = field_codecs, wire = wide_wire,
     pk_verify = (\<lambda>pk msg sig. Inr (sig = pk @ msg)), pk_raw = Inr,
     pk_marshal = (\<lambda>pk. Inr (1 # pk)), pk_unmarshal = (\<lambda>b. if b = [] then Inl (Msg ''empty'') else Inr (tl b))\<rparr>"

lemma demo_env_ok [simp]: "codecs_ok demo_env" "keys_roundtrip demo_env"
proof -
  show "codecs_ok demo_env" by (simp add: codecs_ok_def demo_env_def codec_ok_on_UNIV)
  show "keys_roundtrip demo_env" by (simp add: keys_roundtrip_def demo_env_def)
qed

definition demo_header :: Header where
  "demo_header = \<lparr>base = \<lparr>bhHeight = 3, bhTime = 1000, bhChainID = ''evolve''\<rparr>,
     hVersion = \<lparr>vBlock = 11, vApp = 0\<rparr>, LastHeaderHash = [1, 2], DataHash = [3], AppHash = [4],
     ValidatorHash = [], ProposerAddress = [7, 7],
     Legacy = Some \<lparr>LastCommitHash = Some [9], ConsensusHash = None, LastResultsHash = Some [8, 8]\<rparr>\<rparr>"

lemma demo_header_simps [simp]: "legacy_small (Legacy demo_header)" "norm_header demo_header = demo_header"
  by (simp_all add: demo_header_def legacy_small_def len_opt_def maxLegacyHashSize_def norm_header_def
      norm_legacy_def Legacy_IsZero_def Legacy_Clone_def cloneBytes_def)

text \<open>
  C30: Scanning the unknown fields of a header received from the network ends on every input, and
  the hashes it yields are bounded in size; a header whose unknown fields exceed 1 MB is refused.
\<close>

theorem decodeLegacy_total:
  assumes "protowire_ok w"
  shows "(\<exists>r. decode_loop w (length u) u l = Some r) \<and>
    (decodeLegacyHeaderFields w p = Inr l' \<longrightarrow> length (pb_unknown p) \<le> maxUnknownFieldSize \<and> legacy_small l')"
  using decode_loop_ends [OF assms order_refl] decodeLegacy_small by blast

theorem decodeLegacy_total_witness:
  "(\<exists>r. decode_loop wide_wire (length [0, 1]) [0, 1] emptyLegacy = Some r) \<and>
   decodeLegacyHeaderFields wide_wire (Header_ToProto demo_env demo_header) = Inr (Legacy demo_header) \<and>
   legacy_small (Legacy demo_header)"
proof -
  have "decodeLegacyHeaderFields wide_wire (Header_ToProto demo_env demo_header) = Inr (norm_legacy (Legacy demo_header))"
    by (rule decodeLegacy_encode) (simp_all add: Header_ToProto_def demo_env_def)
  then have "decodeLegacyHeaderFields wide_wire (Header_ToProto demo_env demo_header) = Inr (Legacy demo_header)"
    by (metis demo_header_simps(2) norm_header_def Header.select_convs(8) Header.surjective Header.update_convs(8))
  then show ?thesis
    using decodeLegacy_total [OF wide_wire_ok, of "[0, 1]" emptyLegacy "Header_ToProto demo_env demo_header"
        "Legacy demo_header"] by simp
qed

text \<open>
  Header round trip. Decoding the binary form of a header whose legacy hashes have at most
  1024 bytes gives back the header, legacy hashes included; only the difference between an empty
  and an absent legacy hash is lost.
\<close>

theorem header_roundtrip:
  assumes "codecs_ok env" and "legacy_small (Legacy h)" and "Header_MarshalBinary env h = Inr b"
  shows "Header_UnmarshalBinary env b = Inr (norm_header h)"
proof -
  have "dec (c_header (cds env)) b = Inr (Header_ToProto env h)"
    using codec_okD [OF codecs_okD(2) [OF assms(1)]] assms(3) by (simp add: Header_MarshalBinary_def)
  then show ?thesis
    using Header_FromProto_ToProto [OF codecs_okD(1) [OF assms(1)] assms(2)]
    by (simp add: Header_UnmarshalBinary_def)
qed

theorem header_roundtrip_witness:
  "\<exists>b. Header_MarshalBinary demo_env demo_header = Inr b \<and> Header_UnmarshalBinary demo_env b = Inr demo_header"
proof -
  obtain b where b: "Header_MarshalBinary demo_env demo_header = Inr b"
    by (simp add: Header_MarshalBinary_def demo_env_def field_codecs_def)
  then show ?thesis using header_roundtrip [OF demo_env_ok(1) demo_header_simps(1) b] by simp
qed

text \<open>
  C28: Signed headers survive the three formats they travel in: the plain one, the DA envelope,
  which also carries the envelope signature, and the gossip envelope, which also carries the DA
  height hint. The signer keeps its key and address; the signature providers are the receiver's own.
\<close>

theorem signed_header_roundtrips:
  assumes "codecs_ok env" and "keys_roundtrip env" and "signer_ok env (shSigner sh)"
    and "legacy_small (Legacy (shHeader sh))" and "norm_header (shHeader sh) = shHeader sh"
  shows "(fst (SignedHeader_MarshalBinary env sh) = Inr b \<longrightarrow>
      SignedHeader_UnmarshalBinary env (sh\<lparr>shHeader := oldh, shSignature := olds, shSigner := oldg\<rparr>) b = Inr sh) \<and>
    (fst (MarshalDAEnvelope env sh es) = Inr b \<longrightarrow>
      UnmarshalDAEnvelope env (sh\<lparr>shHeader := oldh, shSignature := olds, shSigner := oldg\<rparr>) b = Inr (es, sh)) \<and>
    (fst (P2PSignedHeader_MarshalBinary env \<lparr>p2pSignedHeader = sh, hDAHeightHint = d\<rparr>) = Inr b \<longrightarrow>
      P2PSignedHeader_UnmarshalBinary env
        \<lparr>p2pSignedHeader = sh\<lparr>shHeader := oldh, shSignature := olds, shSigner := oldg\<rparr>, hDAHeightHint = oldd\<rparr> b =
      Inr \<lparr>p2pSignedHeader = sh, hDAHeightHint = d\<rparr>)"
proof -
  obtain sg where sg: "signer_proto env (shSigner sh) = (Inr sg, shSigner sh)"
    "signer_of_proto env (Some sg) = Inr (shSigner sh)"
    using signer_proto_ok [OF assms(2,3)] by blast
  note h = Header_FromProto_ToProto [OF codecs_okD(1) [OF assms(1)] assms(4), unfolded assms(5)]
  let ?H = "Some (Header_ToProto env (shHeader sh))" and ?sh = "sh\<lparr>shHeader := oldh, shSignature := olds, shSigner := oldg\<rparr>"
  have to: "SignedHeader_ToProto env sh = (Inr \<lparr>pbs_header = ?H, pbs_signature = shSignature sh, pbs_signer = Some sg\<rparr>, sh)"
    "ToDAEnvelopeProto env sh es = (Inr \<lparr>pbe_header = ?H, pbe_signature = shSignature sh,
       pbe_signer = Some sg, pbe_envelope_signature = es\<rparr>, sh)"
    by (simp_all add: SignedHeader_ToProto_def ToDAEnvelopeProto_def sg)
  have from_proto: "SignedHeader_FromProto env ?sh (Some \<lparr>pbs_header = ?H, pbs_signature = shSignature sh, pbs_signer = Some sg\<rparr>) = Inr sh"
    "FromDAEnvelopeProto env ?sh (Some \<lparr>pbe_header = ?H, pbe_signature = shSignature sh,
       pbe_signer = Some sg, pbe_envelope_signature = es\<rparr>) = Inr sh"
    by (simp_all add: SignedHeader_FromProto_def FromDAEnvelopeProto_def h sg)
  have dec: "enc (c_signed_header (cds env)) \<lparr>pbs_header = ?H, pbs_signature = g, pbs_signer = r\<rparr> = Inr b \<Longrightarrow>
      dec (c_signed_header (cds env)) b = Inr \<lparr>pbs_header = ?H, pbs_signature = g, pbs_signer = r\<rparr>"
    "enc (c_envelope (cds env)) \<lparr>pbe_header = ?H, pbe_signature = g, pbe_signer = r, pbe_envelope_signature = es\<rparr> = Inr b \<Longrightarrow>
      dec (c_envelope (cds env)) b = Inr \<lparr>pbe_header = ?H, pbe_signature = g, pbe_signer = r, pbe_envelope_signature = es\<rparr>"
    "enc (c_p2p_signed_header (cds env)) \<lparr>pbp_header = ?H, pbp_signature = g, pbp_signer = r, pbp_da_height_hint = x\<rparr> = Inr b \<Longrightarrow>
      dec (c_p2p_signed_header (cds env)) b = Inr \<lparr>pbp_header = ?H, pbp_signature = g, pbp_signer = r, pbp_da_height_hint = x\<rparr>"
    for g r x
    by (rule codec_okD [OF codecs_okD(3) [OF assms(1)]] codec_okD [OF codecs_okD(4) [OF assms(1)]]
        codec_okD [OF codecs_okD(5) [OF assms(1)]]; simp)+
  show ?thesis
    by (intro conjI impI)
      (simp_all add: SignedHeader_MarshalBinary_def SignedHeader_UnmarshalBinary_def MarshalDAEnvelope_def
        UnmarshalDAEnvelope_def P2PSignedHeader_MarshalBinary_def P2PSignedHeader_UnmarshalBinary_def
        to dec from_proto)
qed

definition demo_signed_header :: "bytes SignedHeader" where
  "demo_signed_header = \<lparr>shHeader = demo_header, shSignature = [5, 5],
     shSigner = \<lparr>PubKey = Some [6], Address = [7, 7], marshalledPubKey = [1, 6]\<rparr>,
     aggregatorSignatureProvider = None, syncNodeSignatureBytesProvider = None\<rparr>"

theorem signed_header_roundtrips_witness:
  "\<exists>b. fst (MarshalDAEnvelope demo_env demo_signed_header [42]) = Inr b \<and>
     UnmarshalDAEnvelope demo_env (demo_signed_header\<lparr>shHeader := demo_header, shSignature := [], shSigner := emptySigner\<rparr>) b =
       Inr ([42], demo_signed_header)"
proof -
  have ok: "signer_ok demo_env (shSigner demo_signed_header)" "shHeader demo_signed_header = demo_header"
    by (simp_all add: demo_signed_header_def signer_ok_def demo_env_def)
  obtain b where b: "fst (MarshalDAEnvelope demo_env demo_signed_header [42]) = Inr b"
    by (simp add: MarshalDAEnvelope_def ToDAEnvelopeProto_def signer_proto_def MarshalledPubKey_def
        demo_env_def demo_signed_header_def field_codecs_def)
  show ?thesis
    using signed_header_roundtrips [OF demo_env_ok ok(1), where b = b and oldh = demo_header and olds = "[]"
        and oldg = emptySigner and es = "[42]"] b
    by (auto simp: ok(2))
qed

text \<open>
  C29: Data, signed data, gossiped data and state survive their binary forms; a state does if its
  last block time is in the range of 64-bit seconds.
\<close>

theorem data_and_state_roundtrips:
  assumes "codecs_ok env"
  shows "(Data_MarshalBinary env d = Inr b \<longrightarrow> Data_UnmarshalBinary env b = Inr d) \<and>
    (Metadata_MarshalBinary env m = Inr b \<longrightarrow> Metadata_UnmarshalBinary env b = Inr m) \<and>
    (P2PData_MarshalBinary env p = Inr b \<longrightarrow> P2PData_UnmarshalBinary env oldp b = Inr p) \<and>
    (keys_roundtrip env \<and> signer_ok env (sdSigner sd) \<and> fst (SignedData_MarshalBinary env sd) = Inr b \<longrightarrow>
       SignedData_UnmarshalBinary env oldsd b = Inr sd) \<and>
    (- (2 ^ 63) \<le> LastBlockTime s div 1000000000 \<and> LastBlockTime s div 1000000000 < 2 ^ 63 \<longrightarrow>
       State_FromProto (Some (State_ToProto s)) = Inr s)"
proof -
  have "SignedData_UnmarshalBinary env oldsd b = Inr sd"
    if "keys_roundtrip env" "signer_ok env (sdSigner sd)" "fst (SignedData_MarshalBinary env sd) = Inr b"
    using signer_proto_ok [OF that(1,2)] that(3) codec_okD [OF codecs_okD(8) [OF assms]]
    by (auto simp: SignedData_MarshalBinary_def SignedData_UnmarshalBinary_def SignedData_ToProto_def
        SignedData_FromProto_def)
  moreover have "P2PData_UnmarshalBinary env oldp b = Inr p" if "P2PData_MarshalBinary env p = Inr b"
  proof -
    have eta: "\<lparr>pbd_metadata = pbd_metadata x, pbd_txs = pbd_txs x\<rparr> = x" for x :: pb_Data by simp
    show ?thesis
      using that codec_okD [OF codecs_okD(9) [OF assms]] Data_FromProto_ToProto [of "p2pData p"]
      by (auto simp: P2PData_MarshalBinary_def P2PData_UnmarshalBinary_def Let_def eta)
  qed
  ultimately show ?thesis
    using Data_roundtrip [OF assms] codec_okD [OF codecs_okD(6) [OF assms]] State_FromProto_ToProto
    by (auto simp: Metadata_MarshalBinary_def Metadata_UnmarshalBinary_def state_time_ok_def)
qed

definition demo_data :: Data where
  "demo_data = \<lparr>dMetadata = Some \<lparr>mChainID = ''evolve'', mHeight = 3, mTime = 1000, LastDataHash = []\<rparr>,
     Txs = [[1], [2, 3]]\<rparr>"

definition demo_state :: State where
  "demo_state = \<lparr>sVersion = \<lparr>vBlock = 11, vApp = 0\<rparr>, sChainID = ''evolve'', InitialHeight = 1,
     LastBlockHeight = 2, LastBlockTime = 500, sLastHeaderHash = [1, 2], sDAHeight = 9, sAppHash = [4]\<rparr>"

theorem data_and_state_roundtrips_witness:
  "(\<exists>b. Data_MarshalBinary demo_env demo_data = Inr b \<and> Data_UnmarshalBinary demo_env b = Inr demo_data) \<and>
   State_FromProto (Some (State_ToProto demo_state)) = Inr demo_state"
proof -
  obtain b where b: "Data_MarshalBinary demo_env demo_data = Inr b"
    by (simp add: Data_MarshalBinary_def demo_env_def field_codecs_def)
  have "- (2 ^ 63) \<le> LastBlockTime demo_state div 1000000000 \<and> LastBlockTime demo_state div 1000000000 < 2 ^ 63"
    by (simp add: demo_state_def)
  then show ?thesis
    using data_and_state_roundtrips [OF demo_env_ok(1), of demo_data b] b by blast
qed

end
