(* ===== verification/Validation.thy ===== *)
theory Validation
  imports Serialization
begin

text \<open>
  Validation of headers, data and blocks against the chain state: \<^verbatim>\<open>src/types/header.go\<close>,
  \<^verbatim>\<open>signed_header.go\<close>, \<^verbatim>\<open>data.go\<close> and \<^verbatim>\<open>state.go\<close>. A validation returns \<^verbatim>\<open>None\<close> where
  the code returns a nil error; \<^verbatim>\<open>now\<close> is the clock reading. The theory proves what an accepted
  header guarantees and which headers are accepted, that a header commits to the transactions of its
  block up to a collision of SHA-256, and that the blocks a node applies form a chain.
\<close>

section \<open>Headers\<close>

definition MaxClockDrift :: int where
  "MaxClockDrift = 60 * 1000000000"

definition Header_Verify :: "Header \<Rightarrow> Header \<Rightarrow> goerr option" where
  "Header_Verify h untrstH =
     (if ProposerAddress untrstH \<noteq> ProposerAddress h
      then Some (Wrap ''expected proposer'' (Sentinel ErrProposerVerificationFailed)) else None)"

definition Header_ValidateBasic :: "gotime \<Rightarrow> Header \<Rightarrow> goerr option" where
  "Header_ValidateBasic now h =
     (if length (ProposerAddress h) = 0 then Some (Sentinel ErrNoProposerAddress)
      else if bhTime (base h) = 0 then Some (Wrap ''timestamp cannot be zero'' (Sentinel ErrInvalidTimestamp))
      else if Header_Time h > now + MaxClockDrift
      then Some (Wrap ''timestamp too far in future'' (Sentinel ErrInvalidTimestamp))
      else None)"

definition Signature_ValidateBasic :: "bytes \<Rightarrow> goerr option" where
  "Signature_ValidateBasic signature = (if length signature = 0 then Some (Sentinel ErrSignatureEmpty) else None)"

definition isAdjacent :: "'pk SignedHeader \<Rightarrow> 'pk SignedHeader \<Rightarrow> bool" where
  "isAdjacent sh untrstH \<longleftrightarrow> Header_Height (shHeader sh) + 1 = Header_Height (shHeader untrstH)"

definition verifyHeaderHash :: "'pk types_env \<Rightarrow> 'pk SignedHeader \<Rightarrow> 'pk SignedHeader \<Rightarrow> goerr option" where
  "verifyHeaderHash env sh untrstH =
     (if Header_Hash env (shHeader sh) \<noteq> LastHeaderHash (shHeader untrstH)
      then Some (Wrap ''verification error'' (Sentinel ErrLastHeaderHashMismatch)) else None)"

definition SignedHeader_Verify :: "'pk types_env \<Rightarrow> 'pk SignedHeader \<Rightarrow> 'pk SignedHeader \<Rightarrow> goerr option" where
  "SignedHeader_Verify env sh untrstH =
     (case Header_Verify (shHeader sh) (shHeader untrstH) of
        Some e \<Rightarrow> Some (Wrap ''verify error'' e)
      | None \<Rightarrow> if isAdjacent sh untrstH then verifyHeaderHash env sh untrstH else None)"

text \<open>A call of a method of the nil public key panics.\<close>

definition nil_key_panic :: goerr where
  "nil_key_panic = Msg ''invalid memory address or nil pointer dereference''"

definition tryPayload ::
  "'pk types_env \<Rightarrow> 'pk SignedHeader \<Rightarrow> bytes \<Rightarrow> bytes list \<Rightarrow> bool result \<times> bytes list" where
  "tryPayload env sh payload tried =
     (if length payload = 0 then (Inr False, tried)
      else if payload \<in> set tried then (Inr False, tried)
      else (case PubKey (shSigner sh) of
              None \<Rightarrow> (Inl nil_key_panic, tried @ [payload])
            | Some pk \<Rightarrow> (pk_verify env pk payload (shSignature sh), tried @ [payload])))"

text \<open>The three payloads in turn: the custom one where a provider is set, the slim encoding, the
  legacy encoding.\<close>

definition verify_payloads :: "'pk types_env \<Rightarrow> 'pk SignedHeader \<Rightarrow> bytes result option \<Rightarrow> goerr option" where
  "verify_payloads env sh custom =
     (case (case custom of
              None \<Rightarrow> (Inr False, [])
            | Some (Inl e) \<Rightarrow> (Inl (Wrap ''custom signature payload provider failed'' e), [])
            | Some (Inr bz) \<Rightarrow> tryPayload env sh bz []) of
        (Inl e, _) \<Rightarrow> Some e
      | (Inr True, _) \<Rightarrow> None
      | (Inr False, tried) \<Rightarrow>
          (case Header_MarshalBinary env (shHeader sh) of
             Inl e \<Rightarrow> Some e
           | Inr slim \<Rightarrow>
               (case tryPayload env sh slim tried of
                  (Inl e, _) \<Rightarrow> Some e
                | (Inr True, _) \<Rightarrow> None
                | (Inr False, tried') \<Rightarrow>
                    (case MarshalBinaryLegacy env (shHeader sh) of
                       Inl e \<Rightarrow> Some e
                     | Inr legacy \<Rightarrow>
                         (case tryPayload env sh legacy tried' of
                            (Inl e, _) \<Rightarrow> Some e
                          | (Inr True, _) \<Rightarrow> None
                          | (Inr False, _) \<Rightarrow> Some (Sentinel ErrSignatureVerificationFailed))))))"

definition check_basic :: "gotime \<Rightarrow> 'pk SignedHeader \<Rightarrow> goerr option" where
  "check_basic now sh =
     (case Header_ValidateBasic now (shHeader sh) of
        Some e \<Rightarrow> Some e
      | None \<Rightarrow>
          (case Signature_ValidateBasic (shSignature sh) of
             Some e \<Rightarrow> Some e
           | None \<Rightarrow> if ProposerAddress (shHeader sh) \<noteq> Address (shSigner sh)
                     then Some (Sentinel ErrProposerAddressMismatch) else None))"

definition ValidateBasic :: "'pk types_env \<Rightarrow> gotime \<Rightarrow> 'pk SignedHeader \<Rightarrow> goerr option" where
  "ValidateBasic env now sh =
     (case check_basic now sh of
        Some e \<Rightarrow> Some e
      | None \<Rightarrow> verify_payloads env sh (map_option (\<lambda>f. f (shHeader sh)) (aggregatorSignatureProvider sh)))"

definition ValidateBasicWithData :: "'pk types_env \<Rightarrow> gotime \<Rightarrow> 'pk SignedHeader \<Rightarrow> Data \<Rightarrow> goerr option" where
  "ValidateBasicWithData env now sh data =
     (case check_basic now sh of
        Some e \<Rightarrow> Some e
      | None \<Rightarrow> verify_payloads env sh
          (map_option (\<lambda>f. f (shHeader sh) data) (syncNodeSignatureBytesProvider sh)))"

section \<open>Data\<close>

definition Data_Time :: "Metadata \<Rightarrow> gotime" where
  "Data_Time m = time_of_u64 (mTime m)"

definition Validate :: "'pk types_env \<Rightarrow> 'pk SignedHeader \<Rightarrow> Data \<Rightarrow> goerr option" where
  "Validate env header data =
     (let h = shHeader header in
      if (case dMetadata data of None \<Rightarrow> False
          | Some m \<Rightarrow> Header_ChainID h \<noteq> mChainID m \<or> Header_Height h \<noteq> mHeight m \<or> Header_Time h \<noteq> Data_Time m)
      then Some (Msg ''header and data do not match'')
      else if DACommitment env \<lparr>dMetadata = None, Txs = Txs data\<rparr> \<noteq> DataHash h
      then Some (Msg ''dataHash from the header does not match with hash of the block's data'')
      else None)"

definition Data_Verify :: "'pk types_env \<Rightarrow> Data \<Rightarrow> Data option \<Rightarrow> goerr option" where
  "Data_Verify env d untrustedData =
     (case untrustedData of
        None \<Rightarrow> Some (Msg ''untrusted block cannot be nil'')
      | Some u \<Rightarrow>
          (case dMetadata u of
             None \<Rightarrow> Some nil_key_panic
           | Some m \<Rightarrow> if Data_Hash env d \<noteq> LastDataHash m
               then Some (Msg ''data hash of the trusted data does not match with last data hash of the untrusted data'')
               else None))"

definition Data_Validate :: "gotime \<Rightarrow> Data \<Rightarrow> goerr option" where
  "Data_Validate now d =
     (case dMetadata d of
        None \<Rightarrow> Some (Msg ''data metadata cannot be nil'')
      | Some m \<Rightarrow>
          if mChainID m = [] then Some (Msg ''chain ID cannot be empty'')
          else if mHeight m = 0 then Some (Msg ''height cannot be zero'')
          else if mTime m = 0 then Some (Msg ''timestamp cannot be zero'')
          else if Data_Time m > now + MaxClockDrift then Some (Msg ''timestamp too far in future'')
          else None)"

definition TxsByteSize :: "Data \<Rightarrow> nat" where
  "TxsByteSize d = sum_list (map length (Txs d))"

section \<open>State\<close>

definition NextState :: "'pk types_env \<Rightarrow> State \<Rightarrow> Header \<Rightarrow> bytes \<Rightarrow> State" where
  "NextState env s header stateRoot =
     \<lparr>sVersion = sVersion s, sChainID = sChainID s, InitialHeight = InitialHeight s,
      LastBlockHeight = Header_Height header, LastBlockTime = Header_Time header,
      sLastHeaderHash = Header_Hash env header, sDAHeight = sDAHeight s, sAppHash = stateRoot\<rparr>"

text \<open>
  The package-level variables \<^verbatim>\<open>basedSequencerTracking\<close> (has the \<^verbatim>\<open>sync.Once\<close> run) and
  \<^verbatim>\<open>lastHeaderHashErrCount\<close>, which a call may change.
\<close>

record hash_tracking =
  tracking_done :: bool
  lastHeaderHashErrCount :: nat

definition AssertValidSequence ::
  "hash_tracking \<Rightarrow> State \<Rightarrow> 'pk SignedHeader \<Rightarrow> goerr option \<times> hash_tracking" where
  "AssertValidSequence tr s header =
     (let h = shHeader header in
      if Header_ChainID h \<noteq> sChainID s then (Some (Msg ''invalid chain ID''), tr)
      else if length (sLastHeaderHash s) = 0 then (None, tr)
      else if Header_Height h \<noteq> LastBlockHeight s + 1 then (Some (Msg ''invalid block height''), tr)
      else if LastBlockTime s > Header_Time h then (Some (Msg ''invalid block time''), tr)
      else if LastHeaderHash h \<noteq> sLastHeaderHash s \<and> lastHeaderHashErrCount tr = 1
      then (Some (Msg ''invalid last header hash''), tr)
      else
        let tr' = (if LastHeaderHash h \<noteq> sLastHeaderHash s \<and> \<not> tracking_done tr
                   then \<lparr>tracking_done = True, lastHeaderHashErrCount = lastHeaderHashErrCount tr + 1\<rparr>
                   else tr) in
        if AppHash h \<noteq> sAppHash s then (Some (Msg ''invalid last app hash''), tr') else (None, tr'))"

definition AssertValidForNextState ::
  "'pk types_env \<Rightarrow> hash_tracking \<Rightarrow> State \<Rightarrow> 'pk SignedHeader \<Rightarrow> Data \<Rightarrow> goerr option \<times> hash_tracking" where
  "AssertValidForNextState env tr s header data =
     (case AssertValidSequence tr s header of
        (Some e, tr') \<Rightarrow> (Some e, tr')
      | (None, tr') \<Rightarrow>
          (case Validate env header data of
             Some e \<Rightarrow> (Some (Wrap ''header-data validation failed'' e), tr')
           | None \<Rightarrow> (None, tr')))"

section \<open>What an accepted header guarantees\<close>

lemma tryPayload_true:
  assumes "tryPayload env sh p tried = (Inr True, tried')"
  shows "p \<noteq> [] \<and> (\<exists>pk. PubKey (shSigner sh) = Some pk \<and> pk_verify env pk p (shSignature sh) = Inr True)"
  using assms by (auto simp: tryPayload_def split: if_splits option.splits)

definition verified :: "'pk types_env \<Rightarrow> 'pk SignedHeader \<Rightarrow> bytes \<Rightarrow> bool" where
  "verified env sh p \<longleftrightarrow>
     p \<noteq> [] \<and> (\<exists>pk. PubKey (shSigner sh) = Some pk \<and> pk_verify env pk p (shSignature sh) = Inr True)"

text \<open>The payloads a header may be signed over.\<close>

definition payloads :: "'pk types_env \<Rightarrow> 'pk SignedHeader \<Rightarrow> bytes result option \<Rightarrow> bytes set" where
  "payloads env sh custom =
     {p. custom = Some (Inr p) \<or> Header_MarshalBinary env (shHeader sh) = Inr p \<or>
         MarshalBinaryLegacy env (shHeader sh) = Inr p}"

lemma verify_payloads_sound:
  assumes "verify_payloads env sh custom = None"
  shows "\<exists>p \<in> payloads env sh custom. verified env sh p"
  using assms unfolding verify_payloads_def payloads_def verified_def
  by (fastforce dest: tryPayload_true split: option.splits sum.splits prod.splits bool.splits)

lemma check_basic_None:
  "check_basic now sh = None \<longleftrightarrow>
     ProposerAddress (shHeader sh) \<noteq> [] \<and> bhTime (base (shHeader sh)) \<noteq> 0 \<and>
     Header_Time (shHeader sh) \<le> now + MaxClockDrift \<and> shSignature sh \<noteq> [] \<and>
     ProposerAddress (shHeader sh) = Address (shSigner sh)"
  by (auto simp: check_basic_def Header_ValidateBasic_def Signature_ValidateBasic_def)

text \<open>
  C19: Soundness of header validation. A signed header that passes \<^verbatim>\<open>ValidateBasic\<close> or
  \<^verbatim>\<open>ValidateBasicWithData\<close> names a proposer, which is the address of its signer, has a time that
  is not zero and at most a minute ahead of the clock, and its signature verifies under the
  signer's key over a non-empty payload that is the custom one, the slim or the legacy encoding.
\<close>

theorem signed_header_sound:
  assumes "ValidateBasic env now sh = None \<and> custom = map_option (\<lambda>f. f (shHeader sh)) (aggregatorSignatureProvider sh) \<or>
     ValidateBasicWithData env now sh d = None \<and>
       custom = map_option (\<lambda>f. f (shHeader sh) d) (syncNodeSignatureBytesProvider sh)"
  shows "ProposerAddress (shHeader sh) \<noteq> [] \<and> ProposerAddress (shHeader sh) = Address (shSigner sh) \<and>
    bhTime (base (shHeader sh)) \<noteq> 0 \<and> Header_Time (shHeader sh) \<le> now + MaxClockDrift \<and>
    (\<exists>p \<in> payloads env sh custom. verified env sh p)"
proof -
  have "check_basic now sh = None \<and> verify_payloads env sh custom = None"
    using assms by (auto simp: ValidateBasic_def ValidateBasicWithData_def split: option.splits)
  then show ?thesis using check_basic_None [of now sh] verify_payloads_sound [of env sh custom] by blast
qed


subsection \<open>Witnesses\<close>

definition slim_of :: "Header \<Rightarrow> bytes" where
  "slim_of h = projr (Header_MarshalBinary demo_env h)"

lemma slim_of: "Header_MarshalBinary demo_env h = Inr (slim_of h)"
  by (simp add: slim_of_def Header_MarshalBinary_def demo_env_def field_codecs_def)

lemma legacy_of: "\<exists>b. MarshalBinaryLegacy demo_env h = Inr b"
  by (simp add: MarshalBinaryLegacy_def marshalLegacyHeader_def demo_env_def field_codecs_def Let_def)

lemma flag_enc_not_Nil: "xs \<noteq> [] \<Longrightarrow> flag_enc xs \<noteq> []"
  by (cases xs) (simp_all add: flag_enc_def)

lemma slim_of_not_Nil: "slim_of h \<noteq> []"
  by (simp add: slim_of_def Header_MarshalBinary_def demo_env_def field_codecs_def header_fields_def flag_enc_not_Nil)

text \<open>The demonstration header signed by the key \<^verbatim>\<open>[6]\<close>.\<close>

definition signed_demo :: "bytes SignedHeader" where
  "signed_demo = demo_signed_header\<lparr>shSignature := 6 # slim_of demo_header,
     aggregatorSignatureProvider := Some (Header_MarshalBinary demo_env)\<rparr>"

lemma signed_demo_simps [simp]:
  "shHeader signed_demo = demo_header" "PubKey (shSigner signed_demo) = Some [6]"
  "check_basic 0 signed_demo = None"
  "aggregatorSignatureProvider signed_demo = Some (Header_MarshalBinary demo_env)"
  "pk_verify demo_env [6] p (shSignature signed_demo) = Inr (p = slim_of demo_header)"
  by (auto simp: signed_demo_def demo_signed_header_def check_basic_None demo_header_def MaxClockDrift_def
      Header_Time_def time_of_u64_def demo_env_def)


theorem signed_header_sound_witness:
  "\<exists>p \<in> payloads demo_env signed_demo (Some (Header_MarshalBinary demo_env demo_header)).
     verified demo_env signed_demo p"
proof -
  obtain l where l: "MarshalBinaryLegacy demo_env demo_header = Inr l" using legacy_of by blast
  have t: "tryPayload demo_env signed_demo (slim_of demo_header) [] = (Inr True, [slim_of demo_header])"
    using slim_of_not_Nil by (simp add: tryPayload_def)
  then have "ValidateBasic demo_env 0 signed_demo = None"
    by (simp add: ValidateBasic_def verify_payloads_def slim_of)
  then show ?thesis
    using signed_header_sound [of demo_env 0 signed_demo "Some (Header_MarshalBinary demo_env demo_header)" demo_data]
    by simp
qed

section \<open>Data commitments\<close>

text \<open>
  C22: A header commits to the transactions of its block. If the same header validates with two
  data whose transactions can be encoded, these transactions are equal, or their encodings are a
  collision of SHA-256.
\<close>

theorem header_commits_to_txs:
  assumes "codec_ok (c_data (cds env))" and "Validate env header d1 = None" and "Validate env header d2 = None"
    and "Data_MarshalBinary env \<lparr>dMetadata = None, Txs = Txs d1\<rparr> = Inr b1"
    and "Data_MarshalBinary env \<lparr>dMetadata = None, Txs = Txs d2\<rparr> = Inr b2"
  shows "Txs d1 = Txs d2 \<or> (b1 \<noteq> b2 \<and> sha256 (0 # b1) = sha256 (0 # b2))"
proof (cases "b1 = b2")
  case True
  then have "Data_ToProto \<lparr>dMetadata = None, Txs = Txs d1\<rparr> = Data_ToProto \<lparr>dMetadata = None, Txs = Txs d2\<rparr>"
    using assms(4,5) codec_inj [OF assms(1)] by (simp add: Data_MarshalBinary_def)
  then show ?thesis by (simp add: Data_ToProto_def)
next
  case False
  have "leafHashOpt b1 = DataHash (shHeader header)" "leafHashOpt b2 = DataHash (shHeader header)"
    using assms(2-5)
    by (auto simp: Validate_def Let_def DACommitment_def ok_bytes_def split: if_splits option.splits)
  then show ?thesis using False by (simp add: leafHashOpt_def)
qed

definition committed_header :: "bytes SignedHeader" where
  "committed_header = demo_signed_header\<lparr>shHeader := demo_header\<lparr>DataHash := DACommitment demo_env demo_data\<rparr>\<rparr>"

theorem header_commits_to_txs_witness:
  "Validate demo_env committed_header demo_data = None \<and>
   Validate demo_env committed_header (demo_data\<lparr>dMetadata := None\<rparr>) = None \<and>
   Txs demo_data = Txs (demo_data\<lparr>dMetadata := None\<rparr>)"
proof -
  have v: "Validate demo_env committed_header demo_data = None"
    "Validate demo_env committed_header (demo_data\<lparr>dMetadata := None\<rparr>) = None"
    by (auto simp: Validate_def Let_def committed_header_def DACommitment_def demo_data_def demo_header_def
        Header_ChainID_def Header_Height_def Header_Time_def Data_Time_def)
  obtain b where b: "Data_MarshalBinary demo_env \<lparr>dMetadata = None, Txs = Txs demo_data\<rparr> = Inr b"
    by (simp add: Data_MarshalBinary_def demo_env_def field_codecs_def)
  have c: "codec_ok (c_data (cds demo_env))" by (simp add: demo_env_def)
  show ?thesis using header_commits_to_txs [OF c v b, of b] b v by simp
qed

section \<open>The chain\<close>

text \<open>Blocks applied one after the other: each header is checked against the state the block
  before it left, then the next state is computed with the state root of the execution.\<close>

fun apply_chain :: "'pk types_env \<Rightarrow> hash_tracking \<Rightarrow> State \<Rightarrow> ('pk SignedHeader \<times> bytes) list
    \<Rightarrow> (hash_tracking \<times> State) option" where
  "apply_chain env tr s [] = Some (tr, s)"
| "apply_chain env tr s ((sh, root) # bs) =
     (case AssertValidSequence tr s sh of
        (Some e, tr') \<Rightarrow> None
      | (None, tr') \<Rightarrow> apply_chain env tr' (NextState env s (shHeader sh) root) bs)"

text \<open>The number of headers that do not point to the header before them.\<close>

fun broken_links :: "'pk types_env \<Rightarrow> bytes \<Rightarrow> ('pk SignedHeader \<times> bytes) list \<Rightarrow> nat" where
  "broken_links env prev [] = 0"
| "broken_links env prev ((sh, root) # bs) =
     (if LastHeaderHash (shHeader sh) = prev then 0 else 1) + broken_links env (Header_Hash env (shHeader sh)) bs"

fun chained :: "string \<Rightarrow> u64 \<Rightarrow> gotime \<Rightarrow> bytes \<Rightarrow> ('pk SignedHeader \<times> bytes) list \<Rightarrow> bool" where
  "chained cid height time app [] = True"
| "chained cid height time app ((sh, root) # bs) \<longleftrightarrow>
     Header_ChainID (shHeader sh) = cid \<and> Header_Height (shHeader sh) = height + 1 \<and>
     time \<le> Header_Time (shHeader sh) \<and> AppHash (shHeader sh) = app \<and>
     chained cid (height + 1) (Header_Time (shHeader sh)) root bs"

definition fresh_tracking :: hash_tracking where
  "fresh_tracking = \<lparr>tracking_done = False, lastHeaderHashErrCount = 0\<rparr>"

definition used_tracking :: hash_tracking where
  "used_tracking = \<lparr>tracking_done = True, lastHeaderHashErrCount = 1\<rparr>"

lemma AssertValidSequence_accept:
  assumes "AssertValidSequence tr s sh = (None, tr')" and "sLastHeaderHash s \<noteq> []"
    and "tr = fresh_tracking \<or> tr = used_tracking"
  shows "Header_ChainID (shHeader sh) = sChainID s \<and> Header_Height (shHeader sh) = LastBlockHeight s + 1 \<and>
     LastBlockTime s \<le> Header_Time (shHeader sh) \<and> AppHash (shHeader sh) = sAppHash s"
    and "if LastHeaderHash (shHeader sh) = sLastHeaderHash s then tr' = tr
      else tr = fresh_tracking \<and> tr' = used_tracking"
  using assms
  by (auto simp: AssertValidSequence_def Let_def fresh_tracking_def used_tracking_def split: if_splits)

lemma apply_chain_chained:
  assumes "apply_chain env tr s bs = Some (tr', s')" and "sLastHeaderHash s \<noteq> []"
    and "tr = fresh_tracking \<or> tr = used_tracking"
    and "\<forall>(sh, root) \<in> set bs. is_ok (Header_MarshalBinary env (shHeader sh))"
  shows "chained (sChainID s) (LastBlockHeight s) (LastBlockTime s) (sAppHash s) bs \<and>
    broken_links env (sLastHeaderHash s) bs \<le> (if tr = fresh_tracking then 1 else 0)"
  using assms
proof (induction bs arbitrary: tr s)
  case Nil
  then show ?case by simp
next
  case (Cons b bs)
  obtain sh root where b: "b = (sh, root)" by force
  let ?s = "NextState env s (shHeader sh) root"
  obtain tr1 where a: "AssertValidSequence tr s sh = (None, tr1)" and ap: "apply_chain env tr1 ?s bs = Some (tr', s')"
    using Cons.prems(1) by (auto simp: b split: prod.splits option.splits)
  note acc = AssertValidSequence_accept [OF a Cons.prems(2,3)]
  have tr1: "tr1 = fresh_tracking \<or> tr1 = used_tracking" using acc(2) Cons.prems(3) by (auto split: if_splits)
  have "is_ok (Header_MarshalBinary env (shHeader sh))" using Cons.prems(4) by (auto simp: b)
  then have ne: "Header_Hash env (shHeader sh) \<noteq> []"
    by (auto simp: is_ok_def Header_Hash_def HashSlim_def HashLegacy_def split: sum.splits)
  have IH: "chained (sChainID ?s) (LastBlockHeight ?s) (LastBlockTime ?s) (sAppHash ?s) bs \<and>
    broken_links env (sLastHeaderHash ?s) bs \<le> (if tr1 = fresh_tracking then 1 else 0)"
    by (rule Cons.IH [OF ap _ tr1]) (use ne Cons.prems(4) in \<open>auto simp: NextState_def\<close>)
  then show ?case
    using acc by (auto simp: b NextState_def fresh_tracking_def used_tracking_def split: if_splits)
qed

text \<open>
  C21: The blocks a node applies form a chain. From a state after the first block, every sequence of
  blocks accepted by \<^verbatim>\<open>AssertValidSequence\<close> has the chain's identifier, consecutive heights, times
  that never go back, and application hashes that are the state roots of the blocks before; and at
  most one block in the life of the process fails to point to the hash of the header before it.
\<close>

theorem applied_blocks_form_chain:
  assumes "apply_chain env fresh_tracking s bs = Some (tr', s')" and "sLastHeaderHash s \<noteq> []"
    and "\<forall>(sh, root) \<in> set bs. is_ok (Header_MarshalBinary env (shHeader sh))"
  shows "chained (sChainID s) (LastBlockHeight s) (LastBlockTime s) (sAppHash s) bs \<and>
    broken_links env (sLastHeaderHash s) bs \<le> 1"
  using apply_chain_chained [OF assms(1,2) _ assms(3)] by auto

lemma sLastHeaderHash_demo: "sLastHeaderHash demo_state \<noteq> []"
  by (simp add: demo_state_def)

theorem applied_blocks_form_chain_witness:
  "chained (sChainID demo_state) (LastBlockHeight demo_state) (LastBlockTime demo_state) (sAppHash demo_state)
     [(demo_signed_header, [9])] \<and>
   broken_links demo_env (sLastHeaderHash demo_state) [(demo_signed_header, [9])] \<le> 1"
proof -
  have a: "AssertValidSequence fresh_tracking demo_state demo_signed_header = (None, fresh_tracking)"
    by (simp add: AssertValidSequence_def demo_signed_header_def demo_state_def demo_header_def
        Header_ChainID_def Header_Height_def Header_Time_def time_of_u64_def)
  show ?thesis
    by (rule applied_blocks_form_chain [of demo_env demo_state "[(demo_signed_header, [9])]" fresh_tracking
          "NextState demo_env demo_state (shHeader demo_signed_header) [9]"])
      (use slim_of in \<open>auto simp: a sLastHeaderHash_demo\<close>)
qed

section \<open>The clock check\<close>

text \<open>
  C40: The clock check reads the time of a header as a signed number: a time from \<open>2^63\<close> on, which
  lies centuries ahead, counts as a time before 1970 and passes at every clock reading since 1970.
\<close>

theorem future_time_passes:
  assumes "ProposerAddress h \<noteq> []" and "2 ^ 63 \<le> unat (bhTime (base h))" and "0 \<le> now"
  shows "Header_ValidateBasic now h = None"
proof -
  define t where "t = uint (bhTime (base h))"
  have u: "t = int (unat (bhTime (base h)))" by (simp add: t_def)
  have "9223372036854775808 \<le> unat (bhTime (base h))" using assms(2) by simp
  then have t: "9223372036854775808 \<le> t" "t < 18446744073709551616"
    unfolding u using unat_u64_max [of "bhTime (base h)"] by linarith+
  have "sint (bhTime (base h)) = (t + 2 ^ 63) mod 2 ^ 64 - 2 ^ 63"
    by (simp add: sint_uint signed_take_bit_eq_take_bit_shift take_bit_eq_mod t_def)
  also have "(t + 2 ^ 63) mod 2 ^ 64 = (t + 2 ^ 63 - 2 ^ 64) mod 2 ^ 64"
    by (rule minus_mod_self2 [symmetric])
  also have "\<dots> = t + 2 ^ 63 - 2 ^ 64" using t by (intro mod_pos_pos_trivial) simp_all
  finally have "sint (bhTime (base h)) < 0" using t by simp
  moreover have "bhTime (base h) \<noteq> 0" using t(1) by (auto simp: t_def)
  ultimately show ?thesis
    using assms(1,3) by (simp add: Header_ValidateBasic_def Header_Time_def time_of_u64_def MaxClockDrift_def)
qed

theorem future_time_passes_witness:
  "Header_ValidateBasic 0 (demo_header\<lparr>base := \<lparr>bhHeight = 1, bhTime = 0xFFFFFFFFFFFFFFFF, bhChainID = ''evolve''\<rparr>\<rparr>) = None"
  by (rule future_time_passes) (simp_all add: demo_header_def)

end
