(* ===== verification/Store.thy ===== *)
theory Store
  imports Validation Datastore
begin

text \<open>
  The block store of \<^verbatim>\<open>src/pkg/store\<close> (\<^verbatim>\<open>keys.go\<close>, \<^verbatim>\<open>store.go\<close>, \<^verbatim>\<open>batch.go\<close>):
  blocks, states, the hash index, metadata and the chain height in one key-value database, written
  through atomic batches. The database and \<^verbatim>\<open>header.Hash.String()\<close> are parameters. A store is its
  database; reads return a result, writes the error and the new database, a batch is the list of
  operations collected so far.
\<close>

record ('db, 'pk) store_env =
  sds :: "'db datastore"
  tenv :: "'pk types_env"
  hash_string :: "bytes \<Rightarrow> string"

section \<open>Keys\<close>

definition GenesisDAHeightKey :: string where
  "GenesisDAHeightKey = ''gdh''"

definition HeightToDAHeightKey :: string where
  "HeightToDAHeightKey = ''rhb''"

definition DAIncludedHeightKey :: string where
  "DAIncludedHeightKey = ''d''"

definition LastSubmittedHeaderHeightKey :: string where
  "LastSubmittedHeaderHeightKey = ''last-submitted-header-height''"

definition LastPrunedBlockHeightKey :: string where
  "LastPrunedBlockHeightKey = ''lst-prnd-b''"

definition LastPrunedStateHeightKey :: string where
  "LastPrunedStateHeightKey = ''lst-prnd-s''"

definition heightKey :: "string \<Rightarrow> u64 \<Rightarrow> string" where
  "heightKey pfx height = ''/'' @ pfx @ ''/'' @ format_uint height"

definition getHeaderKey :: "u64 \<Rightarrow> string" where
  "getHeaderKey height = heightKey ''h'' height"

definition getDataKey :: "u64 \<Rightarrow> string" where
  "getDataKey height = heightKey ''d'' height"

definition getSignatureKey :: "u64 \<Rightarrow> string" where
  "getSignatureKey height = heightKey ''c'' height"

definition getStateAtHeightKey :: "u64 \<Rightarrow> string" where
  "getStateAtHeightKey height = heightKey ''s'' height"

definition GenerateKey :: "string list \<Rightarrow> string" where
  "GenerateKey flds = concat (map (\<lambda>f. ''/'' @ f) flds)"

definition GetMetaKey :: "string \<Rightarrow> string" where
  "GetMetaKey key = GenerateKey [''m'', key]"

definition getIndexKey :: "('db, 'pk) store_env \<Rightarrow> bytes \<Rightarrow> string" where
  "getIndexKey env hash = GenerateKey [''i'', hash_string env hash]"

definition getHeightKey :: string where
  "getHeightKey = ''/'' @ ''t''"

definition GetHeightToDAHeightHeaderKey :: "u64 \<Rightarrow> string" where
  "GetHeightToDAHeightHeaderKey height = HeightToDAHeightKey @ ''/'' @ format_uint height @ ''/h''"

definition GetHeightToDAHeightDataKey :: "u64 \<Rightarrow> string" where
  "GetHeightToDAHeightDataKey height = HeightToDAHeightKey @ ''/'' @ format_uint height @ ''/d''"

section \<open>Heights\<close>

definition heightLength :: nat where
  "heightLength = 8"

definition encodeHeight :: "u64 \<Rightarrow> bytes" where
  "encodeHeight height = put_le64 height"

definition decodeHeight :: "bytes \<Rightarrow> u64 result" where
  "decodeHeight heightBytes =
     (if length heightBytes \<noteq> heightLength then Inl (Msg ''invalid height length'')
      else Inr (get_le64 heightBytes))"

definition kget :: "('db, 'pk) store_env \<Rightarrow> 'db \<Rightarrow> string \<Rightarrow> bytes result" where
  "kget env db k = ds_get (sds env) db (ds_new_key (sds env) k)"

definition Height :: "('db, 'pk) store_env \<Rightarrow> 'db \<Rightarrow> u64 result" where
  "Height env db =
     (case kget env db getHeightKey of
        Inl e \<Rightarrow> if errors_is e ErrNotFound then Inr 0 else Inl e
      | Inr heightBytes \<Rightarrow> decodeHeight heightBytes)"

section \<open>Reads\<close>

definition newSignedHeader :: "'pk SignedHeader" where
  "newSignedHeader = \<lparr>shHeader = \<lparr>base = \<lparr>bhHeight = 0, bhTime = 0, bhChainID = []\<rparr>,
       hVersion = \<lparr>vBlock = 0, vApp = 0\<rparr>, LastHeaderHash = [], DataHash = [], AppHash = [],
       ValidatorHash = [], ProposerAddress = [], Legacy = None\<rparr>,
     shSignature = [], shSigner = emptySigner, aggregatorSignatureProvider = None,
     syncNodeSignatureBytesProvider = None\<rparr>"

definition GetHeader :: "('db, 'pk) store_env \<Rightarrow> 'db \<Rightarrow> u64 \<Rightarrow> 'pk SignedHeader result" where
  "GetHeader env db height =
     (case kget env db (getHeaderKey height) of
        Inl e \<Rightarrow> Inl (Wrap ''load block header'' e)
      | Inr headerBlob \<Rightarrow>
          (case SignedHeader_UnmarshalBinary (tenv env) newSignedHeader headerBlob of
             Inl e \<Rightarrow> Inl (Wrap ''unmarshal block header'' e)
           | Inr header \<Rightarrow> Inr header))"

definition GetBlockData :: "('db, 'pk) store_env \<Rightarrow> 'db \<Rightarrow> u64 \<Rightarrow> ('pk SignedHeader \<times> Data) result" where
  "GetBlockData env db height =
     (case GetHeader env db height of
        Inl e \<Rightarrow> Inl e
      | Inr header \<Rightarrow>
          (case kget env db (getDataKey height) of
             Inl e \<Rightarrow> Inl (Wrap ''failed to load block data'' e)
           | Inr dataBlob \<Rightarrow>
               (case Data_UnmarshalBinary (tenv env) dataBlob of
                  Inl e \<Rightarrow> Inl (Wrap ''failed to unmarshal block data'' e)
                | Inr data \<Rightarrow> Inr (header, data))))"

definition getHeightByHash :: "('db, 'pk) store_env \<Rightarrow> 'db \<Rightarrow> bytes \<Rightarrow> u64 result" where
  "getHeightByHash env db hash =
     (case kget env db (getIndexKey env hash) of
        Inl e \<Rightarrow> Inl (Wrap ''failed to get height for hash'' e)
      | Inr heightBytes \<Rightarrow>
          (case decodeHeight heightBytes of
             Inl e \<Rightarrow> Inl (Wrap ''failed to decode height'' e)
           | Inr height \<Rightarrow> Inr height))"

definition GetBlockByHash :: "('db, 'pk) store_env \<Rightarrow> 'db \<Rightarrow> bytes \<Rightarrow> ('pk SignedHeader \<times> Data) result" where
  "GetBlockByHash env db hash =
     (case getHeightByHash env db hash of
        Inl e \<Rightarrow> Inl (Wrap ''failed to load height from index'' e)
      | Inr height \<Rightarrow> GetBlockData env db height)"

definition GetSignature :: "('db, 'pk) store_env \<Rightarrow> 'db \<Rightarrow> u64 \<Rightarrow> bytes result" where
  "GetSignature env db height =
     (case kget env db (getSignatureKey height) of
        Inl e \<Rightarrow> Inl (Wrap ''failed to retrieve signature from height'' e)
      | Inr signatureData \<Rightarrow> Inr signatureData)"

definition GetSignatureByHash :: "('db, 'pk) store_env \<Rightarrow> 'db \<Rightarrow> bytes \<Rightarrow> bytes result" where
  "GetSignatureByHash env db hash =
     (case getHeightByHash env db hash of
        Inl e \<Rightarrow> Inl (Wrap ''failed to load hash from index'' e)
      | Inr height \<Rightarrow> GetSignature env db height)"

definition decode_state :: "('db, 'pk) store_env \<Rightarrow> bytes \<Rightarrow> State result" where
  "decode_state env blob =
     (case dec (c_state (cds (tenv env))) blob of
        Inl e \<Rightarrow> Inl (Wrap ''failed to unmarshal state from protobuf'' e)
      | Inr pbState \<Rightarrow> State_FromProto (Some pbState))"

definition GetState :: "('db, 'pk) store_env \<Rightarrow> 'db \<Rightarrow> State result" where
  "GetState env db =
     (case Height env db of
        Inl e \<Rightarrow> Inl (Wrap ''failed to get current height'' e)
      | Inr currentHeight \<Rightarrow>
          (case kget env db (getStateAtHeightKey currentHeight) of
             Inl e \<Rightarrow> Inl (Wrap ''failed to retrieve state'' e)
           | Inr blob \<Rightarrow> decode_state env blob))"

definition GetStateAtHeight :: "('db, 'pk) store_env \<Rightarrow> 'db \<Rightarrow> u64 \<Rightarrow> State result" where
  "GetStateAtHeight env db height =
     (case kget env db (getStateAtHeightKey height) of
        Inl e \<Rightarrow> if errors_is e ErrNotFound
                then Inl (Wrap ''get state at height'' (Sentinel ErrNotFound))
                else Inl (Wrap ''failed to retrieve state at height'' e)
      | Inr blob \<Rightarrow> decode_state env blob)"

section \<open>Single writes\<close>

definition DeleteStateAtHeight :: "('db, 'pk) store_env \<Rightarrow> 'db \<Rightarrow> u64 \<Rightarrow> goerr option \<times> 'db" where
  "DeleteStateAtHeight env db height =
     (case ds_delete (sds env) db (ds_new_key (sds env) (getStateAtHeightKey height)) of
        (None, db') \<Rightarrow> (None, db')
      | (Some e, db') \<Rightarrow> if errors_is e ErrNotFound then (None, db')
                        else (Some (Wrap ''failed to delete state at height'' e), db'))"

definition SetMetadata :: "('db, 'pk) store_env \<Rightarrow> 'db \<Rightarrow> string \<Rightarrow> bytes \<Rightarrow> goerr option \<times> 'db" where
  "SetMetadata env db key value =
     (case ds_put (sds env) db (ds_new_key (sds env) (GetMetaKey key)) value of
        (None, db') \<Rightarrow> (None, db')
      | (Some e, db') \<Rightarrow> (Some (Wrap ''failed to set metadata for key'' e), db'))"

definition GetMetadata :: "('db, 'pk) store_env \<Rightarrow> 'db \<Rightarrow> string \<Rightarrow> bytes result" where
  "GetMetadata env db key =
     (case kget env db (GetMetaKey key) of
        Inl e \<Rightarrow> Inl (Wrap ''failed to get metadata for key'' e)
      | Inr data \<Rightarrow> Inr data)"

definition DeleteMetadata :: "('db, 'pk) store_env \<Rightarrow> 'db \<Rightarrow> string \<Rightarrow> goerr option \<times> 'db" where
  "DeleteMetadata env db key =
     (case ds_delete (sds env) db (ds_new_key (sds env) (GetMetaKey key)) of
        (None, db') \<Rightarrow> (None, db')
      | (Some e, db') \<Rightarrow> (Some (Wrap ''failed to delete metadata for key'' e), db'))"

section \<open>Batches\<close>

definition NewBatch :: "('db, 'pk) store_env \<Rightarrow> 'db \<Rightarrow> ds_op list result" where
  "NewBatch env db =
     (case ds_batch (sds env) db of
        Some e \<Rightarrow> Inl (Wrap ''failed to create a new batch'' e)
      | None \<Rightarrow> Inr [])"

definition batch_op :: "('db, 'pk) store_env \<Rightarrow> 'db \<Rightarrow> ds_op list \<Rightarrow> ds_op \<Rightarrow> ds_op list result" where
  "batch_op env db b op = (case ds_batch_add (sds env) db b op of Some e \<Rightarrow> Inl e | None \<Rightarrow> Inr (b @ [op]))"

text \<open>Operations added one after the other, each with the message its error is wrapped in.\<close>

fun batch_ops :: "('db, 'pk) store_env \<Rightarrow> 'db \<Rightarrow> (string \<times> ds_op) list \<Rightarrow> ds_op list \<Rightarrow> ds_op list result" where
  "batch_ops env db [] b = Inr b"
| "batch_ops env db ((msg, op) # rest) b =
     (case batch_op env db b op of
        Inl e \<Rightarrow> Inl (Wrap msg e)
      | Inr b' \<Rightarrow> batch_ops env db rest b')"

definition SetHeight :: "('db, 'pk) store_env \<Rightarrow> 'db \<Rightarrow> ds_op list \<Rightarrow> u64 \<Rightarrow> ds_op list result" where
  "SetHeight env db b height =
     (case Height env db of
        Inl e \<Rightarrow> Inl e
      | Inr currentHeight \<Rightarrow>
          if height \<le> currentHeight then Inr b
          else batch_op env db b (DsPut getHeightKey (encodeHeight height)))"

definition SaveBlockDataFromBytes ::
  "('db, 'pk) store_env \<Rightarrow> 'db \<Rightarrow> ds_op list \<Rightarrow> 'pk SignedHeader \<Rightarrow> bytes \<Rightarrow> bytes \<Rightarrow> bytes \<Rightarrow> ds_op list result" where
  "SaveBlockDataFromBytes env db b header headerBlob dataBlob signature =
     (let height = Header_Height (shHeader header) in
      batch_ops env db
        [(''failed to put header blob in batch'', DsPut (getHeaderKey height) headerBlob),
         (''failed to put data blob in batch'', DsPut (getDataKey height) dataBlob),
         (''failed to put signature blob in batch'', DsPut (getSignatureKey height) signature),
         (''failed to put index key in batch'',
            DsPut (getIndexKey env (sha256 headerBlob)) (encodeHeight height))] b)"

definition SaveBlockData ::
  "('db, 'pk) store_env \<Rightarrow> 'db \<Rightarrow> ds_op list \<Rightarrow> 'pk SignedHeader \<Rightarrow> Data \<Rightarrow> bytes \<Rightarrow> ds_op list result" where
  "SaveBlockData env db b header data signature =
     (case fst (SignedHeader_MarshalBinary (tenv env) header) of
        Inl e \<Rightarrow> Inl (Wrap ''failed to marshal Header to binary'' e)
      | Inr headerBlob \<Rightarrow>
          (case Data_MarshalBinary (tenv env) data of
             Inl e \<Rightarrow> Inl (Wrap ''failed to marshal Data to binary'' e)
           | Inr dataBlob \<Rightarrow> SaveBlockDataFromBytes env db b header headerBlob dataBlob signature))"

definition UpdateState :: "('db, 'pk) store_env \<Rightarrow> 'db \<Rightarrow> ds_op list \<Rightarrow> State \<Rightarrow> ds_op list result" where
  "UpdateState env db b state =
     (case enc (c_state (cds (tenv env))) (State_ToProto state) of
        Inl e \<Rightarrow> Inl (Wrap ''failed to marshal state to protobuf'' e)
      | Inr data \<Rightarrow> batch_op env db b (DsPut (getStateAtHeightKey (LastBlockHeight state)) data))"

definition commit_as :: "string \<Rightarrow> ('db, 'pk) store_env \<Rightarrow> 'db \<Rightarrow> ds_op list \<Rightarrow> goerr option \<times> 'db" where
  "commit_as msg env db b =
     (case ds_commit (sds env) db b of
        (None, db') \<Rightarrow> (None, db')
      | (Some e, db') \<Rightarrow> (Some (Wrap msg e), db'))"

definition Commit :: "('db, 'pk) store_env \<Rightarrow> 'db \<Rightarrow> ds_op list \<Rightarrow> goerr option \<times> 'db" where
  "Commit env db b = commit_as ''failed to commit batch'' env db b"

section \<open>Rollback\<close>

text \<open>The deletions of one height, whose header must be there.\<close>

definition rollback_height :: "('db, 'pk) store_env \<Rightarrow> 'db \<Rightarrow> u64 \<Rightarrow> ds_op list \<Rightarrow> ds_op list result" where
  "rollback_height env db h b =
     (case kget env db (getHeaderKey h) of
        Inl e \<Rightarrow> Inl (Wrap ''failed to get header at height'' e)
      | Inr headerBlob \<Rightarrow>
          batch_ops env db
            [(''failed to delete header blob in batch'', DsDelete (ds_new_key (sds env) (getHeaderKey h))),
             (''failed to delete data blob in batch'', DsDelete (ds_new_key (sds env) (getDataKey h))),
             (''failed to delete signature of block blob in batch'', DsDelete (ds_new_key (sds env) (getSignatureKey h))),
             (''failed to delete index key in batch'',
                DsDelete (ds_new_key (sds env) (getIndexKey env (sha256 headerBlob)))),
             (''failed to delete state in batch'', DsDelete (ds_new_key (sds env) (getStateAtHeightKey h)))] b)"

function rollback_loop ::
  "('db, 'pk) store_env \<Rightarrow> 'db \<Rightarrow> u64 \<Rightarrow> u64 \<Rightarrow> ds_op list \<Rightarrow> ds_op list result" where
  "rollback_loop env db currentHeight height b =
     (if currentHeight > height
      then (case rollback_height env db currentHeight b of
              Inl e \<Rightarrow> Inl e
            | Inr b' \<Rightarrow> rollback_loop env db (currentHeight - 1) height b')
      else Inr b)"
  by pat_completeness auto

termination
  by (relation "measure (\<lambda>(env, db, c, h, b). unat c)")
    (auto dest: u64_pred_less [THEN unat_mono])

declare rollback_loop.simps [simp del]

definition rollback_da_height ::
  "('db, 'pk) store_env \<Rightarrow> 'db \<Rightarrow> u64 \<Rightarrow> bool \<Rightarrow> ds_op list \<Rightarrow> ds_op list result" where
  "rollback_da_height env db height aggregator b =
     (case GetMetadata env db DAIncludedHeightKey of
        Inl e \<Rightarrow> if errors_is e ErrNotFound then Inr b
                else Inl (Wrap ''failed to get DA included height'' e)
      | Inr bz \<Rightarrow>
          if length bz = 8 \<and> get_le64 bz > height
          then if aggregator
               then Inl (Msg ''DA included height is greater than the rollback height: cannot rollback a finalized height'')
               else batch_ops env db [(''failed to update DA included height'',
                      DsPut (ds_new_key (sds env) (GetMetaKey DAIncludedHeightKey)) (put_le64 height))] b
          else Inr b)"

definition Rollback :: "('db, 'pk) store_env \<Rightarrow> 'db \<Rightarrow> u64 \<Rightarrow> bool \<Rightarrow> goerr option \<times> 'db" where
  "Rollback env db height aggregator =
     (case NewBatch env db of
        Inl e \<Rightarrow> (Some e, db)
      | Inr b0 \<Rightarrow>
          (case Height env db of
             Inl e \<Rightarrow> (Some (Wrap ''failed to get current height'' e), db)
           | Inr currentHeight \<Rightarrow>
               if currentHeight \<le> height
               then (Some (Msg ''current height is already less than or equal to rollback height''), db)
               else (case rollback_da_height env db height aggregator b0 of
                       Inl e \<Rightarrow> (Some e, db)
                     | Inr b1 \<Rightarrow>
                         (case rollback_loop env db currentHeight height b1 of
                            Inl e \<Rightarrow> (Some e, db)
                          | Inr b2 \<Rightarrow>
                              (case batch_ops env db [(''failed to set height'',
                                      DsPut (ds_new_key (sds env) getHeightKey) (encodeHeight height))] b2 of
                                 Inl e \<Rightarrow> (Some e, db)
                               | Inr b3 \<Rightarrow> Commit env db b3)))))"

section \<open>Pruning\<close>

text \<open>Deletions that tolerate a missing entry.\<close>

fun batch_dels :: "('db, 'pk) store_env \<Rightarrow> 'db \<Rightarrow> (string \<times> string) list \<Rightarrow> ds_op list \<Rightarrow> ds_op list result" where
  "batch_dels env db [] b = Inr b"
| "batch_dels env db ((msg, k) # rest) b =
     (case batch_op env db b (DsDelete (ds_new_key (sds env) k)) of
        Inl e \<Rightarrow> if errors_is e ErrNotFound then batch_dels env db rest b else Inl (Wrap msg e)
      | Inr b' \<Rightarrow> batch_dels env db rest b')"

definition prune_height :: "('db, 'pk) store_env \<Rightarrow> 'db \<Rightarrow> u64 \<Rightarrow> ds_op list \<Rightarrow> ds_op list result" where
  "prune_height env db h b =
     (case kget env db (getHeaderKey h) of
        Inl e \<Rightarrow> if errors_is e ErrNotFound then Inr b
                else Inl (Wrap ''failed to get header during pruning'' e)
      | Inr headerBlob \<Rightarrow>
          batch_dels env db
            [(''failed to delete header during pruning'', getHeaderKey h),
             (''failed to delete data during pruning'', getDataKey h),
             (''failed to delete signature during pruning'', getSignatureKey h),
             (''failed to delete header DA height metadata during pruning'', GetMetaKey (GetHeightToDAHeightHeaderKey h)),
             (''failed to delete data DA height metadata during pruning'', GetMetaKey (GetHeightToDAHeightDataKey h)),
             (''failed to delete index during pruning'', getIndexKey env (sha256 headerBlob))] b)"

text \<open>The loop \<^verbatim>\<open>for h := lastPruned + 1; h <= height; h++\<close> does not end for the largest height,
  where it has the value \<^verbatim>\<open>None\<close>.\<close>

partial_function (option) prune_loop ::
  "('db, 'pk) store_env \<Rightarrow> 'db \<Rightarrow> u64 \<Rightarrow> u64 \<Rightarrow> ds_op list \<Rightarrow> ds_op list result option" where
  "prune_loop env db h height b =
     (if h \<le> height
      then (case prune_height env db h b of
              Inl e \<Rightarrow> Some (Inl e)
            | Inr b' \<Rightarrow> prune_loop env db (h + 1) height b')
      else Some (Inr b))"

definition last_pruned :: "('db, 'pk) store_env \<Rightarrow> 'db \<Rightarrow> u64 result" where
  "last_pruned env db =
     (case GetMetadata env db LastPrunedBlockHeightKey of
        Inl e \<Rightarrow> if errors_is e ErrNotFound then Inr 0 else Inl (Wrap ''failed to get last pruned height'' e)
      | Inr meta \<Rightarrow> if length meta = heightLength then (case decodeHeight meta of Inl e \<Rightarrow> Inl (Wrap ''failed to decode last pruned height'' e) | Inr h \<Rightarrow> Inr h)
                   else Inr 0)"

definition PruneBlocks :: "('db, 'pk) store_env \<Rightarrow> 'db \<Rightarrow> u64 \<Rightarrow> (goerr option \<times> 'db) option" where
  "PruneBlocks env db height =
     (case ds_batch (sds env) db of
        Some e \<Rightarrow> Some (Some (Wrap ''failed to create a new batch for pruning'' e), db)
      | None \<Rightarrow>
          (case last_pruned env db of
             Inl e \<Rightarrow> Some (Some e, db)
           | Inr lastPruned \<Rightarrow>
               if height \<le> lastPruned then Some (None, db)
               else (case prune_loop env db (lastPruned + 1) height [] of
                       None \<Rightarrow> None
                     | Some (Inl e) \<Rightarrow> Some (Some e, db)
                     | Some (Inr b1) \<Rightarrow>
                         (case batch_ops env db [(''failed to update last pruned height'',
                                 DsPut (ds_new_key (sds env) (GetMetaKey LastPrunedBlockHeightKey)) (encodeHeight height))] b1 of
                            Inl e \<Rightarrow> Some (Some e, db)
                          | Inr b2 \<Rightarrow> Some (commit_as ''failed to commit pruning batch'' env db b2)))))"

section \<open>Keys do not collide\<close>

text \<open>What the code relies on of \<^verbatim>\<open>Hash.String()\<close>: different hashes have different names, made of
  letters and digits.\<close>

definition hash_names_ok :: "('db, 'pk) store_env \<Rightarrow> bool" where
  "hash_names_ok env \<longleftrightarrow> inj (hash_string env) \<and> (\<forall>h. h \<noteq> [] \<longrightarrow> plain_key (hash_string env h))"

lemma plain_names [simp]:
  "plain_key ''h''" "plain_key ''d''" "plain_key ''c''" "plain_key ''s''" "plain_key ''m''"
  "plain_key ''i''" "plain_key ''t''" "plain_key ''rhb''" "plain_key ''gdh''"
  "plain_key ''last-submitted-header-height''" "plain_key ''lst-prnd-b''" "plain_key ''lst-prnd-s''"
  by (simp_all add: plain_key_def)

lemma key_paths:
  "getHeaderKey h = path [''h'', format_uint h]" "getDataKey h = path [''d'', format_uint h]"
  "getSignatureKey h = path [''c'', format_uint h]" "getStateAtHeightKey h = path [''s'', format_uint h]"
  "getHeightKey = path [''t'']" "GetMetaKey k = path [''m'', k]"
  "getIndexKey env x = path [''i'', hash_string env x]"
  "GetMetaKey (GetHeightToDAHeightHeaderKey h) = path [''m'', ''rhb'', format_uint h, ''h'']"
  "GetMetaKey (GetHeightToDAHeightDataKey h) = path [''m'', ''rhb'', format_uint h, ''d'']"
  by (simp_all add: getHeaderKey_def getDataKey_def getSignatureKey_def getStateAtHeightKey_def heightKey_def
      path_def getHeightKey_def GetMetaKey_def GenerateKey_def getIndexKey_def
      GetHeightToDAHeightHeaderKey_def GetHeightToDAHeightDataKey_def HeightToDAHeightKey_def)

lemmas meta_names = DAIncludedHeightKey_def LastPrunedBlockHeightKey_def LastPrunedStateHeightKey_def
  LastSubmittedHeaderHeightKey_def GenesisDAHeightKey_def

lemma plain_meta_names [simp]:
  "plain_key DAIncludedHeightKey" "plain_key LastPrunedBlockHeightKey" "plain_key LastPrunedStateHeightKey"
  "plain_key LastSubmittedHeaderHeightKey" "plain_key GenesisDAHeightKey"
  by (simp_all add: meta_names)

text \<open>The kinds of entries a store holds.\<close>

datatype entry = EHeader u64 | EData u64 | ESignature u64 | EState u64 | EHeight
  | EIndex bytes | EMeta string | EHeaderDA u64 | EDataDA u64

fun entry_path :: "('db, 'pk) store_env \<Rightarrow> entry \<Rightarrow> string list" where
  "entry_path env (EHeader h) = [''h'', format_uint h]"
| "entry_path env (EData h) = [''d'', format_uint h]"
| "entry_path env (ESignature h) = [''c'', format_uint h]"
| "entry_path env (EState h) = [''s'', format_uint h]"
| "entry_path env EHeight = [''t'']"
| "entry_path env (EIndex x) = [''i'', hash_string env x]"
| "entry_path env (EMeta k) = [''m'', k]"
| "entry_path env (EHeaderDA h) = [''m'', ''rhb'', format_uint h, ''h'']"
| "entry_path env (EDataDA h) = [''m'', ''rhb'', format_uint h, ''d'']"

definition entry_key :: "('db, 'pk) store_env \<Rightarrow> entry \<Rightarrow> string" where
  "entry_key env e = path (entry_path env e)"

text \<open>Entries with a proper name: a hash that is not empty, a metadata key of one component.\<close>

fun entry_wf :: "entry \<Rightarrow> bool" where
  "entry_wf (EIndex x) \<longleftrightarrow> x \<noteq> []"
| "entry_wf (EMeta k) \<longleftrightarrow> plain_key k"
| "entry_wf _ \<longleftrightarrow> True"

lemma entry_path_plain: "hash_names_ok env \<Longrightarrow> entry_wf e \<Longrightarrow> list_all plain_key (entry_path env e)"
  by (cases e) (simp_all add: hash_names_ok_def)

lemma entry_path_inj: "hash_names_ok env \<Longrightarrow> entry_path env e = entry_path env e' \<longleftrightarrow> e = e'"
  by (cases e; cases e') (auto simp: hash_names_ok_def inj_def)

lemma entry_key_inject:
  "hash_names_ok env \<Longrightarrow> entry_wf e \<Longrightarrow> entry_wf e' \<Longrightarrow> entry_key env e = entry_key env e' \<longleftrightarrow> e = e'"
  unfolding entry_key_def
  by (subst path_inject) (simp_all add: entry_path_plain entry_path_inj)

lemma entry_keys:
  "getHeaderKey h = entry_key env (EHeader h)" "getDataKey h = entry_key env (EData h)"
  "getSignatureKey h = entry_key env (ESignature h)" "getStateAtHeightKey h = entry_key env (EState h)"
  "getHeightKey = entry_key env EHeight" "getIndexKey env x = entry_key env (EIndex x)"
  "GetMetaKey k = entry_key env (EMeta k)"
  "GetMetaKey (GetHeightToDAHeightHeaderKey h) = entry_key env (EHeaderDA h)"
  "GetMetaKey (GetHeightToDAHeightDataKey h) = entry_key env (EDataDA h)"
  unfolding key_paths(1-5,7-9) entry_key_def by (simp_all add: key_paths(6))

lemma new_entry_key:
  assumes "datastore_ok (sds env) vw" and "hash_names_ok env" and "entry_wf e"
  shows "ds_new_key (sds env) (entry_key env e) = entry_key env e"
proof -
  have "entry_path env e \<noteq> []" by (cases e) simp_all
  then show ?thesis
    unfolding entry_key_def using path_keysD [OF assms(1)] entry_path_plain [OF assms(2,3)] by blast
qed

section \<open>What a committed batch does\<close>

lemma batch_ops_Inr: "batch_ops env db ops b = Inr b' \<Longrightarrow> b' = b @ map snd ops"
  by (induction ops arbitrary: b) (fastforce simp: batch_op_def split: option.splits)+

lemma apply_deletes: "apply_ops (map DsDelete ks) m = (\<lambda>k. if k \<in> set ks then None else m k)"
  by (induction ks arbitrary: m) (auto simp: fun_eq_iff)

text \<open>A run of deletions of entries.\<close>

definition deletes :: "('db, 'pk) store_env \<Rightarrow> entry list \<Rightarrow> ds_op list" where
  "deletes env es = map (\<lambda>e. DsDelete (entry_key env e)) es"

lemma deletes_simps [simp]:
  "deletes env [] = []" "deletes env (e # es) = DsDelete (entry_key env e) # deletes env es"
  "deletes env (es @ fs) = deletes env es @ deletes env fs"
  by (simp_all add: deletes_def)

lemma apply_deletes_entry:
  assumes "hash_names_ok env" and "list_all entry_wf es" and "entry_wf e"
  shows "apply_ops (deletes env es) m (entry_key env e) = (if e \<in> set es then None else m (entry_key env e))"
proof -
  have "entry_key env e \<in> entry_key env ` set es \<longleftrightarrow> e \<in> set es"
    using assms entry_key_inject [OF assms(1)] by (auto simp: list_all_iff)
  then show ?thesis
    using apply_deletes [of "map (entry_key env) es" m] by (simp add: deletes_def comp_def)
qed

lemma put_entry:
  assumes "hash_names_ok env" and "entry_wf e" and "entry_wf e'"
  shows "(m(entry_key env e \<mapsto> v)) (entry_key env e') = (if e = e' then Some v else m (entry_key env e'))"
  using entry_key_inject [OF assms] by auto

text \<open>The view of an entry of the database.\<close>

definition entry_of :: "('db, 'pk) store_env \<Rightarrow> ('db \<Rightarrow> view) \<Rightarrow> 'db \<Rightarrow> entry \<Rightarrow> bytes option" where
  "entry_of env vw db e = vw db (entry_key env e)"

lemma kget_entry:
  assumes "datastore_ok (sds env) vw" and "hash_names_ok env" and "entry_wf e"
  shows "kget env db (entry_key env e) = Inr v \<Longrightarrow> entry_of env vw db e = Some v"
    and "kget env db (entry_key env e) = Inl x \<Longrightarrow> errors_is x ErrNotFound \<longleftrightarrow> entry_of env vw db e = None"
  using datastore_getD [OF assms(1)] by (auto simp: kget_def entry_of_def new_entry_key [OF assms])

text \<open>Reads fail only for entries that are not there.\<close>

definition reads_ok :: "('db, 'pk) store_env \<Rightarrow> bool" where
  "reads_ok env \<longleftrightarrow> (\<forall>db k e. ds_get (sds env) db k = Inl e \<longrightarrow> errors_is e ErrNotFound)"

lemma kget_reads:
  assumes "datastore_ok (sds env) vw" and "hash_names_ok env" and "entry_wf e" and "reads_ok env"
  shows "entry_of env vw db e = Some v \<Longrightarrow> kget env db (entry_key env e) = Inr v"
    and "entry_of env vw db e = None \<Longrightarrow> \<exists>x. kget env db (entry_key env e) = Inl x \<and> errors_is x ErrNotFound"
proof -
  show "kget env db (entry_key env e) = Inr v" if "entry_of env vw db e = Some v"
  proof (cases "kget env db (entry_key env e)")
    case (Inl x)
    then have "errors_is x ErrNotFound" using assms(4) by (simp add: kget_def reads_ok_def)
    then show ?thesis using kget_entry(2) [OF assms(1-3) Inl] that by simp
  next
    case (Inr w)
    then show ?thesis using kget_entry(1) [OF assms(1-3) Inr] that by simp
  qed
  show "\<exists>x. kget env db (entry_key env e) = Inl x \<and> errors_is x ErrNotFound" if "entry_of env vw db e = None"
    using that kget_entry [OF assms(1-3)] by (cases "kget env db (entry_key env e)") fastforce+
qed

lemma kget_iff:
  assumes "datastore_ok (sds env) vw" and "hash_names_ok env" and "reads_ok env" and "entry_wf e"
  shows "kget env db (entry_key env e) = Inr v \<longleftrightarrow> entry_of env vw db e = Some v"
  using kget_entry(1) [OF assms(1,2,4)] kget_reads(1) [OF assms(1,2,4,3)] by blast

lemma Commit_entry:
  assumes "datastore_ok (sds env) vw"
  shows "Commit env db b = (None, db') \<Longrightarrow> entry_of env vw db' e = apply_ops b (vw db) (entry_key env e)"
    and "Commit env db b = (Some x, db') \<Longrightarrow> vw db' = vw db"
    and "commit_as msg env db b = (None, db') \<Longrightarrow> entry_of env vw db' e = apply_ops b (vw db) (entry_key env e)"
    and "commit_as msg env db b = (Some x, db') \<Longrightarrow> vw db' = vw db"
  using datastore_commitD [OF assms, of db b]
  by (auto simp: Commit_def commit_as_def entry_of_def split: prod.splits option.splits)

end
