(* ===== verification/Store_Spec.thy ===== *)
theory Store_Spec
  imports Store
begin

text \<open>
  What the operations of the block store of \<^verbatim>\<open>src/pkg/store\<close> do to its entries. A block committed
  with its state and height is read back and no other height is touched; a rollback removes exactly
  the blocks above its target and is atomic; an aggregator never rolls back a height included in the
  DA layer; pruning removes exactly the blocks up to its target, ends, and can be repeated. The
  theory also shows which hash the index is keyed by.
\<close>

section \<open>Rollback\<close>

definition block_entries :: "u64 \<Rightarrow> bytes \<Rightarrow> entry list" where
  "block_entries h blob = [EHeader h, EData h, ESignature h, EIndex (sha256 blob), EState h]"

lemma block_entries_wf [simp]: "list_all entry_wf (block_entries h blob)"
  by (simp add: block_entries_def)

lemma rollback_height_Inr:
  assumes ok: "datastore_ok (sds env) vw" "hash_names_ok env" and "rollback_height env db h b = Inr b'"
  shows "\<exists>blob. entry_of env vw db (EHeader h) = Some blob \<and> b' = b @ deletes env (block_entries h blob)"
proof (cases "kget env db (getHeaderKey h)")
  case (Inl e)
  then show ?thesis using assms(3) by (simp add: rollback_height_def)
next
  case (Inr blob)
  then have "entry_of env vw db (EHeader h) = Some blob"
    using kget_entry(1) [OF ok, of "EHeader h"] by (simp add: entry_keys [where env = env])
  moreover have "b' = b @ deletes env (block_entries h blob)"
    using assms(3) Inr new_entry_key [OF ok]
    by (simp add: rollback_height_def block_entries_def entry_keys [where env = env] batch_ops_Inr
        del: batch_ops.simps) (drule batch_ops_Inr, simp)
  ultimately show ?thesis by blast
qed

lemma u64_le_split: "(h :: u64) < c \<Longrightarrow> k \<le> c \<longleftrightarrow> k = c \<or> k \<le> c - 1"
  using unat_u64_pred [of h c] by (auto simp: word_le_nat_alt word_less_nat_alt word_unat_eq_iff)

definition blocks_in :: "('db, 'pk) store_env \<Rightarrow> ('db \<Rightarrow> view) \<Rightarrow> 'db \<Rightarrow> u64 \<Rightarrow> u64 \<Rightarrow> entry set" where
  "blocks_in env vw db h c =
     {e. \<exists>k blob. h < k \<and> k \<le> c \<and> entry_of env vw db (EHeader k) = Some blob \<and> e \<in> set (block_entries k blob)}"

lemma rollback_loop_Inr:
  assumes ok: "datastore_ok (sds env) vw" "hash_names_ok env"
  shows "rollback_loop env db c h b = Inr b' \<Longrightarrow>
    \<exists>es. b' = b @ deletes env es \<and> list_all entry_wf es \<and> set es = blocks_in env vw db h c"
proof (induction "unat c" arbitrary: c b rule: less_induct)
  case less
  show ?case
  proof (cases "h < c")
    case False
    then have "b' = b" using less.prems by (simp add: rollback_loop.simps)
    moreover have "blocks_in env vw db h c = {}" using False by (auto simp: blocks_in_def)
    ultimately show ?thesis by (intro exI [of _ "[]"]) simp
  next
    case True
    then obtain b1 where b1: "rollback_height env db c b = Inr b1"
      and rest: "rollback_loop env db (c - 1) h b1 = Inr b'"
      using less.prems by (subst (asm) rollback_loop.simps) (auto split: sum.splits)
    obtain blob where blob: "entry_of env vw db (EHeader c) = Some blob" "b1 = b @ deletes env (block_entries c blob)"
      using rollback_height_Inr [OF ok b1] by blast
    have "unat (c - 1) < unat c" using u64_pred_less [OF True] by (rule unat_mono)
    from less.hyps [OF this rest] obtain es where
      es: "b' = b1 @ deletes env es" "list_all entry_wf es" "set es = blocks_in env vw db h (c - 1)" by blast
    have "blocks_in env vw db h c = set (block_entries c blob) \<union> blocks_in env vw db h (c - 1)"
      using blob(1) True by (auto simp: blocks_in_def u64_le_split [OF True])
    then show ?thesis
      using es blob(2) by (intro exI [of _ "block_entries c blob @ es"]) simp
  qed
qed

text \<open>The DA-included height recorded in the store lies above \<open>h\<close>.\<close>

definition da_above :: "('db, 'pk) store_env \<Rightarrow> ('db \<Rightarrow> view) \<Rightarrow> 'db \<Rightarrow> u64 \<Rightarrow> bool" where
  "da_above env vw db h \<longleftrightarrow>
     (\<exists>bz. entry_of env vw db (EMeta DAIncludedHeightKey) = Some bz \<and> length bz = 8 \<and> get_le64 bz > h)"

lemma GetMetadata_entry:
  assumes ok: "datastore_ok (sds env) vw" "hash_names_ok env" and k: "plain_key k"
  shows "GetMetadata env db k = Inr v \<Longrightarrow> entry_of env vw db (EMeta k) = Some v"
    and "GetMetadata env db k = Inl e \<Longrightarrow> errors_is e ErrNotFound \<longleftrightarrow> entry_of env vw db (EMeta k) = None"
  using kget_entry [OF ok, of "EMeta k"] k
  by (auto simp: GetMetadata_def entry_keys(7) [where env = env] split: sum.splits)

lemma rollback_da_Inr:
  assumes ok: "datastore_ok (sds env) vw" "hash_names_ok env"
    and r: "rollback_da_height env db h aggregator b = Inr b'"
  shows "b' = b @ (if da_above env vw db h then [DsPut (entry_key env (EMeta DAIncludedHeightKey)) (put_le64 h)] else []) \<and>
    (aggregator \<longrightarrow> \<not> da_above env vw db h)"
proof -
  note plain = plain_meta_names(1)
  have new: "ds_new_key (sds env) (GetMetaKey DAIncludedHeightKey) = entry_key env (EMeta DAIncludedHeightKey)"
    using new_entry_key [OF ok, of "EMeta DAIncludedHeightKey"] plain by (simp add: entry_keys(7) [where env = env])
  show ?thesis
  proof (cases "GetMetadata env db DAIncludedHeightKey")
    case (Inl e)
    then show ?thesis using r GetMetadata_entry(2) [OF ok plain Inl]
      by (auto simp: rollback_da_height_def da_above_def split: if_splits)
  next
    case (Inr bz)
    have "da_above env vw db h \<longleftrightarrow> length bz = 8 \<and> get_le64 bz > h"
      using GetMetadata_entry(1) [OF ok plain Inr] by (auto simp: da_above_def)
    then show ?thesis using r Inr
      by (auto simp: rollback_da_height_def new simp del: batch_ops.simps split: if_splits dest: batch_ops_Inr)
  qed
qed

lemma Rollback_cases:
  assumes "Rollback env db h aggregator = (r, db')"
  obtains (error) e where "r = Some e" and "db' = db"
  | (commit) cur b1 b2 where "Height env db = Inr cur" and "h < cur"
      and "rollback_da_height env db h aggregator [] = Inr b1" and "rollback_loop env db cur h b1 = Inr b2"
      and "Commit env db (b2 @ [DsPut (ds_new_key (sds env) getHeightKey) (put_le64 h)]) = (r, db')"
proof (cases "NewBatch env db")
  case (Inl e)
  then show ?thesis using assms error [of e] by (simp add: Rollback_def)
next
  case (Inr x)
  then have x: "x = []" by (simp add: NewBatch_def split: option.splits)
  show ?thesis
    using assms Inr
    by (auto simp: x Rollback_def encodeHeight_def not_le simp del: batch_ops.simps
        dest!: batch_ops_Inr intro: error commit split: sum.splits if_splits)
qed

text \<open>The entries of a store after a successful rollback to height \<open>h\<close>.\<close>

definition rolled_back :: "('db, 'pk) store_env \<Rightarrow> ('db \<Rightarrow> view) \<Rightarrow> 'db \<Rightarrow> u64 \<Rightarrow> u64 \<Rightarrow> entry \<Rightarrow> bytes option" where
  "rolled_back env vw db cur h e =
     (if e = EHeight then Some (put_le64 h)
      else if e \<in> blocks_in env vw db h cur then None
      else if e = EMeta DAIncludedHeightKey \<and> da_above env vw db h then Some (put_le64 h)
      else entry_of env vw db e)"

lemma Rollback_entries:
  assumes ok: "datastore_ok (sds env) vw" "hash_names_ok env"
    and r: "Rollback env db h aggregator = (None, db')"
  shows "\<exists>cur. Height env db = Inr cur \<and> h < cur \<and> (aggregator \<longrightarrow> \<not> da_above env vw db h) \<and>
    (\<forall>e. entry_wf e \<longrightarrow> entry_of env vw db' e = rolled_back env vw db cur h e)"
  using r
proof (cases rule: Rollback_cases)
  case (commit cur b1 b2)
  note da = rollback_da_Inr [OF ok commit(3)]
  obtain es where es: "b2 = b1 @ deletes env es" "list_all entry_wf es" "set es = blocks_in env vw db h cur"
    using rollback_loop_Inr [OF ok commit(4)] by blast
  have key: "ds_new_key (sds env) getHeightKey = entry_key env EHeight"
    using new_entry_key [OF ok, of EHeight] by (simp add: entry_keys(5) [where env = env])
  have "entry_of env vw db' e = rolled_back env vw db cur h e" if e: "entry_wf e" for e
    using Commit_entry(1) [OF ok(1) commit(5)] da es
    by (simp add: key entry_key_inject [OF ok(2) e] apply_deletes_entry [OF ok(2) es(2) e] rolled_back_def entry_of_def)
  then show ?thesis using commit da by blast
qed simp

lemma Rollback_error: "datastore_ok (sds env) vw \<Longrightarrow> Rollback env db h aggregator = (Some e, db') \<Longrightarrow> vw db' = vw db"
  by (erule Rollback_cases) (auto dest: Commit_entry(2))

section \<open>What the reads see\<close>

text \<open>A store whose database keeps its documented laws and fails no read.\<close>

definition store_ok :: "('db, 'pk) store_env \<Rightarrow> ('db \<Rightarrow> view) \<Rightarrow> bool" where
  "store_ok env vw \<longleftrightarrow> datastore_ok (sds env) vw \<and> hash_names_ok env \<and> reads_ok env"

lemma store_okD:
  "store_ok env vw \<Longrightarrow> datastore_ok (sds env) vw" "store_ok env vw \<Longrightarrow> hash_names_ok env"
  "store_ok env vw \<Longrightarrow> reads_ok env"
  by (simp_all add: store_ok_def)

lemma kget_store:
  "store_ok env vw \<Longrightarrow> entry_wf e \<Longrightarrow> kget env db (entry_key env e) = Inr v \<longleftrightarrow> entry_of env vw db e = Some v"
  by (rule kget_iff) (simp_all add: store_okD)

lemma kget_store_None:
  "store_ok env vw \<Longrightarrow> entry_wf e \<Longrightarrow> entry_of env vw db e = None \<Longrightarrow>
     \<exists>x. kget env db (entry_key env e) = Inl x \<and> errors_is x ErrNotFound"
  by (rule kget_reads(2)) (simp_all add: store_okD)

lemma Height_iff:
  assumes "store_ok env vw"
  shows "Height env db = (case entry_of env vw db EHeight of None \<Rightarrow> Inr 0 | Some v \<Rightarrow> decodeHeight v)"
proof (cases "entry_of env vw db EHeight")
  case None
  then show ?thesis using kget_store_None [OF assms, of EHeight db]
    by (auto simp: Height_def entry_keys(5) [where env = env])
next
  case (Some v)
  then show ?thesis using kget_store [OF assms, of EHeight db v]
    by (simp add: Height_def entry_keys(5) [where env = env])
qed

lemma GetHeader_iff:
  assumes "store_ok env vw"
  shows "GetHeader env db k = Inr sh \<longleftrightarrow> (\<exists>blob. entry_of env vw db (EHeader k) = Some blob \<and>
    SignedHeader_UnmarshalBinary (tenv env) newSignedHeader blob = Inr sh)"
  by (auto simp: kget_store [OF assms, of "EHeader k", symmetric] GetHeader_def entry_keys(1) [where env = env] split: sum.splits)

lemma GetBlockData_iff:
  assumes "store_ok env vw"
  shows "GetBlockData env db k = Inr (sh, d) \<longleftrightarrow> GetHeader env db k = Inr sh \<and>
    (\<exists>blob. entry_of env vw db (EData k) = Some blob \<and> Data_UnmarshalBinary (tenv env) blob = Inr d)"
  by (auto simp: kget_store [OF assms, of "EData k", symmetric] GetBlockData_def entry_keys(2) [where env = env] split: sum.splits)

lemma GetSignature_iff:
  assumes "store_ok env vw"
  shows "GetSignature env db k = Inr sig \<longleftrightarrow> entry_of env vw db (ESignature k) = Some sig"
  by (auto simp: kget_store [OF assms, of "ESignature k", symmetric] GetSignature_def entry_keys(3) [where env = env] split: sum.splits)

lemma GetStateAtHeight_iff:
  assumes "store_ok env vw"
  shows "GetStateAtHeight env db k = Inr st \<longleftrightarrow>
    (\<exists>blob. entry_of env vw db (EState k) = Some blob \<and> decode_state env blob = Inr st)"
  by (auto simp: kget_store [OF assms, of "EState k", symmetric] GetStateAtHeight_def entry_keys(4) [where env = env] split: sum.splits if_splits)

lemma getHeightByHash_iff:
  assumes "store_ok env vw" and "x \<noteq> []"
  shows "getHeightByHash env db x = Inr k \<longleftrightarrow> (\<exists>v. entry_of env vw db (EIndex x) = Some v \<and> decodeHeight v = Inr k)"
  using assms(2)
  by (auto simp: kget_store [OF assms(1), of "EIndex x", symmetric] getHeightByHash_def entry_keys(6) [where env = env] split: sum.splits)

lemma GetState_iff:
  assumes "store_ok env vw"
  shows "GetState env db = Inr st \<longleftrightarrow> (\<exists>k. Height env db = Inr k \<and> GetStateAtHeight env db k = Inr st)"
  by (auto simp: GetState_def GetStateAtHeight_def split: sum.splits if_splits)

lemmas read_iffs = GetHeader_iff GetBlockData_iff GetSignature_iff GetStateAtHeight_iff

text \<open>The reads of a height depend on the entries of that height only.\<close>

definition same_height :: "('db, 'pk) store_env \<Rightarrow> ('db \<Rightarrow> view) \<Rightarrow> 'db \<Rightarrow> 'db \<Rightarrow> u64 \<Rightarrow> bool" where
  "same_height env vw db db' k \<longleftrightarrow> list_all (\<lambda>e. entry_of env vw db' e = entry_of env vw db e) [EHeader k, EData k, ESignature k]"

lemma same_height_reads:
  assumes "store_ok env vw" and "same_height env vw db db' k"
  shows "GetBlockData env db' k = Inr x \<longleftrightarrow> GetBlockData env db k = Inr x"
    and "GetSignature env db' k = Inr sig \<longleftrightarrow> GetSignature env db k = Inr sig"
  using assms(2) by (cases x, simp_all add: read_iffs [OF assms(1)] same_height_def)

lemma no_header_no_block:
  assumes "store_ok env vw" and "entry_of env vw db (EHeader k) = None"
  shows "\<exists>e. GetBlockData env db k = Inl e \<and> errors_is e ErrNotFound"
  using kget_store_None [OF assms(1) _ assms(2)]
  by (auto simp: GetBlockData_def GetHeader_def entry_keys(1) [where env = env])

section \<open>Committing a block\<close>

text \<open>The four writes of a block.\<close>

definition block_puts :: "('db, 'pk) store_env \<Rightarrow> u64 \<Rightarrow> bytes \<Rightarrow> bytes \<Rightarrow> bytes \<Rightarrow> ds_op list" where
  "block_puts env k headerBlob dataBlob signature =
     [DsPut (entry_key env (EHeader k)) headerBlob, DsPut (entry_key env (EData k)) dataBlob,
      DsPut (entry_key env (ESignature k)) signature,
      DsPut (entry_key env (EIndex (sha256 headerBlob))) (put_le64 k)]"

lemma SaveBlockData_Inr:
  assumes "SaveBlockData env db b sh d sig = Inr b'"
  shows "\<exists>hb bl. fst (SignedHeader_MarshalBinary (tenv env) sh) = Inr hb \<and> Data_MarshalBinary (tenv env) d = Inr bl \<and>
    b' = b @ block_puts env (Header_Height (shHeader sh)) hb bl sig"
  using assms
  by (auto simp: SaveBlockData_def SaveBlockDataFromBytes_def Let_def block_puts_def encodeHeight_def
      entry_keys [where env = env] simp del: batch_ops.simps dest!: batch_ops_Inr split: sum.splits)

lemma batch_op_Inr: "batch_op env db b op = Inr b' \<Longrightarrow> b' = b @ [op]"
  by (simp add: batch_op_def split: option.splits)

lemma SetHeight_Inr:
  assumes "SetHeight env db b k = Inr b'" and "Height env db = Inr cur"
  shows "b' = b @ (if cur < k then [DsPut (entry_key env EHeight) (put_le64 k)] else [])"
  using assms by (auto simp: SetHeight_def encodeHeight_def entry_keys(5) [where env = env]
      split: if_splits dest: batch_op_Inr)

lemma UpdateState_Inr:
  assumes "UpdateState env db b st = Inr b'"
  shows "\<exists>sb. enc (c_state (cds (tenv env))) (State_ToProto st) = Inr sb \<and>
    b' = b @ [DsPut (entry_key env (EState (LastBlockHeight st))) sb]"
  using assms by (auto simp: UpdateState_def entry_keys(4) [where env = env] split: sum.splits dest: batch_op_Inr)

text \<open>The writes of a block, the height and the state, committed together.\<close>

definition commits :: "('db, 'pk) store_env \<Rightarrow> 'db \<Rightarrow> 'pk SignedHeader \<Rightarrow> Data \<Rightarrow> bytes \<Rightarrow> State \<Rightarrow> 'db \<Rightarrow> bool" where
  "commits env db sh d sig st db' \<longleftrightarrow>
     (\<exists>b1 b2 b3. SaveBlockData env db [] sh d sig = Inr b1 \<and> SetHeight env db b1 (Header_Height (shHeader sh)) = Inr b2 \<and>
        UpdateState env db b2 st = Inr b3 \<and> Commit env db b3 = (None, db'))"

definition committed :: "('db, 'pk) store_env \<Rightarrow> ('db \<Rightarrow> view) \<Rightarrow> 'db \<Rightarrow> u64 \<Rightarrow> u64 \<Rightarrow> bytes \<Rightarrow> bytes \<Rightarrow> bytes \<Rightarrow> bytes \<Rightarrow> entry \<Rightarrow> bytes option" where
  "committed env vw db cur k hb bl sig sb e =
     (if e = EHeader k then Some hb else if e = EData k then Some bl else if e = ESignature k then Some sig
      else if e = EIndex (sha256 hb) then Some (put_le64 k) else if e = EState k then Some sb
      else if e = EHeight \<and> cur < k then Some (put_le64 k) else entry_of env vw db e)"

lemma commits_entries:
  assumes ok: "store_ok env vw" and c: "commits env db sh d sig st db'"
    and k: "Header_Height (shHeader sh) = k" "LastBlockHeight st = k"
  shows "\<exists>cur hb bl sb. Height env db = Inr cur \<and> fst (SignedHeader_MarshalBinary (tenv env) sh) = Inr hb \<and>
    Data_MarshalBinary (tenv env) d = Inr bl \<and> enc (c_state (cds (tenv env))) (State_ToProto st) = Inr sb \<and>
    (\<forall>e. entry_wf e \<longrightarrow> entry_of env vw db' e = committed env vw db cur k hb bl sig sb e)"
proof -
  obtain b1 b2 b3 where b: "SaveBlockData env db [] sh d sig = Inr b1" "SetHeight env db b1 k = Inr b2"
    "UpdateState env db b2 st = Inr b3" "Commit env db b3 = (None, db')"
    using c k by (auto simp: commits_def)
  obtain cur where cur: "Height env db = Inr cur" using b(2) by (auto simp: SetHeight_def split: sum.splits)
  obtain hb bl where hb: "fst (SignedHeader_MarshalBinary (tenv env) sh) = Inr hb"
    "Data_MarshalBinary (tenv env) d = Inr bl" "b1 = block_puts env k hb bl sig"
    using SaveBlockData_Inr [OF b(1)] k by auto
  obtain sb where sb: "enc (c_state (cds (tenv env))) (State_ToProto st) = Inr sb"
    "b3 = b2 @ [DsPut (entry_key env (EState k)) sb]" using UpdateState_Inr [OF b(3)] k by auto
  have "entry_of env vw db' e = committed env vw db cur k hb bl sig sb e" if e: "entry_wf e" for e
    unfolding Commit_entry(1) [OF store_okD(1) [OF ok] b(4)] sb(2) SetHeight_Inr [OF b(2) cur] hb(3)
    using e by (simp add: block_puts_def committed_def entry_key_inject [OF store_okD(2) [OF ok]] entry_of_def)
  then show ?thesis using cur hb sb by blast
qed

section \<open>Pruning\<close>

text \<open>Adding to a batch never fails for a missing entry.\<close>

definition adds_ok :: "('db, 'pk) store_env \<Rightarrow> bool" where
  "adds_ok env \<longleftrightarrow> (\<forall>db b op e. ds_batch_add (sds env) db b op = Some e \<longrightarrow> \<not> errors_is e ErrNotFound)"

lemma batch_dels_Inr:
  assumes "adds_ok env"
  shows "batch_dels env db ks b = Inr b' \<Longrightarrow> b' = b @ map (\<lambda>k. DsDelete (ds_new_key (sds env) k)) (map snd ks)"
  using assms
  by (induction ks arbitrary: b) (fastforce simp: batch_op_def adds_ok_def split: option.splits)+

definition prune_entries :: "u64 \<Rightarrow> bytes \<Rightarrow> entry list" where
  "prune_entries h blob = [EHeader h, EData h, ESignature h, EHeaderDA h, EDataDA h, EIndex (sha256 blob)]"

lemma prune_entries_wf [simp]: "list_all entry_wf (prune_entries h blob)"
  by (simp add: prune_entries_def)

text \<open>What is pruned of a height: nothing where there is no header.\<close>

definition height_entries :: "('db, 'pk) store_env \<Rightarrow> ('db \<Rightarrow> view) \<Rightarrow> 'db \<Rightarrow> u64 \<Rightarrow> entry list" where
  "height_entries env vw db h =
     (case entry_of env vw db (EHeader h) of None \<Rightarrow> [] | Some blob \<Rightarrow> prune_entries h blob)"

lemma height_entries_wf [simp]: "list_all entry_wf (height_entries env vw db h)"
  by (simp add: height_entries_def split: option.splits)

lemmas prune_keys = entry_keys(1-3,6,8,9)

lemma prune_height_Inr:
  assumes ok: "store_ok env vw" "adds_ok env" and r: "prune_height env db h b = Inr b'"
  shows "b' = b @ deletes env (height_entries env vw db h)"
proof (cases "entry_of env vw db (EHeader h)")
  case None
  then show ?thesis using r kget_store_None [OF ok(1), of "EHeader h" db]
    by (auto simp: prune_height_def height_entries_def prune_keys [where env = env])
next
  case (Some blob)
  then have "kget env db (getHeaderKey h) = Inr blob"
    using kget_store [OF ok(1), of "EHeader h" db] by (simp add: prune_keys [where env = env])
  then have "b' = b @ map (\<lambda>k. DsDelete (ds_new_key (sds env) k))
      [getHeaderKey h, getDataKey h, getSignatureKey h, GetMetaKey (GetHeightToDAHeightHeaderKey h),
       GetMetaKey (GetHeightToDAHeightDataKey h), getIndexKey env (sha256 blob)]"
    using r by (simp add: prune_height_def del: batch_dels.simps) (drule batch_dels_Inr [OF ok(2)], simp)
  then show ?thesis
    using new_entry_key [OF store_okD(1,2) [OF ok(1)]] Some
    by (simp add: height_entries_def prune_entries_def prune_keys [where env = env])
qed

definition pruned_in :: "('db, 'pk) store_env \<Rightarrow> ('db \<Rightarrow> view) \<Rightarrow> 'db \<Rightarrow> u64 \<Rightarrow> u64 \<Rightarrow> entry set" where
  "pruned_in env vw db lo hi = (\<Union>k\<in>{lo..hi}. set (height_entries env vw db k))"

lemma prune_loop_result:
  assumes ok: "store_ok env vw" "adds_ok env" and hi: "hi < - 1"
  shows "\<exists>r. prune_loop env db lo hi b = Some r \<and> (\<forall>b'. r = Inr b' \<longrightarrow>
    (\<exists>es. b' = b @ deletes env es \<and> list_all entry_wf es \<and> set es = pruned_in env vw db lo hi))"
proof (induction "unat hi + 1 - unat lo" arbitrary: lo b)
  case 0
  then have "\<not> lo \<le> hi" by (simp add: word_le_nat_alt)
  then have "prune_loop env db lo hi b = Some (Inr b)" "pruned_in env vw db lo hi = {}"
    by (simp add: prune_loop.simps, auto simp: pruned_in_def)
  then show ?case by (intro exI [of _ "Inr b"]) (auto intro: exI [of _ "[]"])
next
  case (Suc n)
  then have le: "lo \<le> hi" by (simp add: word_le_nat_alt)
  have s: "unat (lo + 1) = unat lo + 1" using le hi by (intro unat_u64_Suc [of lo "- 1"]) simp
  show ?case
  proof (cases "prune_height env db lo b")
    case (Inl e)
    then show ?thesis using le by (simp add: prune_loop.simps)
  next
    case (Inr b1)
    let ?es = "height_entries env vw db lo"
    have b1: "b1 = b @ deletes env ?es" by (rule prune_height_Inr [OF ok Inr])
    have "{lo..hi} = insert lo {lo + 1..hi}"
      using s le by (auto simp: word_le_nat_alt word_unat_eq_iff)
    then have set: "pruned_in env vw db lo hi = set ?es \<union> pruned_in env vw db (lo + 1) hi"
      by (simp add: pruned_in_def)
    have "n = unat hi + 1 - unat (lo + 1)" using Suc s by simp
    from Suc.hyps(1) [OF this, of b1] obtain r where r: "prune_loop env db (lo + 1) hi b1 = Some r"
      and es: "\<And>b'. r = Inr b' \<Longrightarrow> \<exists>es. b' = b1 @ deletes env es \<and> list_all entry_wf es \<and>
        set es = pruned_in env vw db (lo + 1) hi" by blast
    have "\<exists>es. b' = b @ deletes env es \<and> list_all entry_wf es \<and> set es = pruned_in env vw db lo hi"
      if b': "r = Inr b'" for b'
    proof -
      from es [OF b'] obtain es' where "b' = b1 @ deletes env es'" "list_all entry_wf es'"
        "set es' = pruned_in env vw db (lo + 1) hi" by blast
      then show ?thesis using b1 set by (intro exI [of _ "?es @ es'"]) simp
    qed
    moreover have "prune_loop env db lo hi b = Some r"
      using le Inr r by (subst prune_loop.simps) simp
    ultimately show ?thesis by blast
  qed
qed

text \<open>The entries after a successful pruning.\<close>

definition pruned :: "('db, 'pk) store_env \<Rightarrow> ('db \<Rightarrow> view) \<Rightarrow> 'db \<Rightarrow> u64 \<Rightarrow> u64 \<Rightarrow> entry \<Rightarrow> bytes option" where
  "pruned env vw db lp height e =
     (if e = EMeta LastPrunedBlockHeightKey then Some (put_le64 height)
      else if e \<in> pruned_in env vw db (lp + 1) height then None else entry_of env vw db e)"

lemma prune_commit:
  assumes ok: "store_ok env vw" and es: "list_all entry_wf es" "set es = pruned_in env vw db (lp + 1) height"
    and c: "commit_as ''failed to commit pruning batch'' env db (deletes env es @ [DsPut (entry_key env (EMeta LastPrunedBlockHeightKey)) (put_le64 height)]) = (None, db')"
    and e: "entry_wf e"
  shows "entry_of env vw db' e = pruned env vw db lp height e"
  using Commit_entry(3) [OF store_okD(1) [OF ok] c] es e
  by (simp add: pruned_def entry_key_inject [OF store_okD(2) [OF ok]]
      apply_deletes_entry [OF store_okD(2) [OF ok]] entry_of_def)

lemma last_pruned_iff:
  assumes "store_ok env vw"
  shows "last_pruned env db = (case entry_of env vw db (EMeta LastPrunedBlockHeightKey) of
    Some v \<Rightarrow> if length v = heightLength then Inr (get_le64 v) else Inr 0 | None \<Rightarrow> Inr 0)"
proof (cases "entry_of env vw db (EMeta LastPrunedBlockHeightKey)")
  case None
  then show ?thesis using kget_store_None [OF assms, of "EMeta LastPrunedBlockHeightKey" db]
    by (auto simp: last_pruned_def GetMetadata_def entry_keys(7) [where env = env])
next
  case (Some v)
  then show ?thesis using kget_store [OF assms, of "EMeta LastPrunedBlockHeightKey" db v]
    by (simp add: last_pruned_def GetMetadata_def decodeHeight_def entry_keys(7) [where env = env])
qed

lemma PruneBlocks_steps:
  assumes ok: "store_ok env vw" "adds_ok env" and hi: "height < - 1"
    and lp: "last_pruned env db = Inr lp" "lp < height" and nb: "ds_batch (sds env) db = None"
  shows "(\<exists>e. PruneBlocks env db height = Some (Some e, db)) \<or>
    (\<exists>es. list_all entry_wf es \<and> set es = pruned_in env vw db (lp + 1) height \<and>
       PruneBlocks env db height =
         Some (commit_as ''failed to commit pruning batch'' env db (deletes env es @ [DsPut (entry_key env (EMeta LastPrunedBlockHeightKey)) (put_le64 height)])))"
proof -
  obtain r where r: "prune_loop env db (lp + 1) height [] = Some r"
    and es: "\<And>b'. r = Inr b' \<Longrightarrow> \<exists>es. b' = deletes env es \<and> list_all entry_wf es \<and>
      set es = pruned_in env vw db (lp + 1) height"
    using prune_loop_result [OF ok hi, of db "lp + 1" "[]"] by auto
  have key: "ds_new_key (sds env) (GetMetaKey LastPrunedBlockHeightKey) = entry_key env (EMeta LastPrunedBlockHeightKey)"
    using new_entry_key [OF store_okD(1,2) [OF ok(1)], of "EMeta LastPrunedBlockHeightKey"]
    by (simp add: entry_keys(7) [where env = env])
  show ?thesis
  proof (cases r)
    case (Inl e)
    then show ?thesis using r lp nb by (auto simp: PruneBlocks_def)
  next
    case (Inr b1)
    then show ?thesis using r lp nb es [OF Inr] key
      by (cases "batch_op env db b1 (DsPut (entry_key env (EMeta LastPrunedBlockHeightKey)) (put_le64 height))")
        (auto simp: PruneBlocks_def encodeHeight_def not_le dest: batch_op_Inr)
  qed
qed

lemma PruneBlocks_cases:
  assumes ok: "store_ok env vw" "adds_ok env" and hi: "height < - 1"
  obtains (early) r where "PruneBlocks env db height = Some (Some r, db)"
  | (already) lp where "PruneBlocks env db height = Some (None, db)" "last_pruned env db = Inr lp" "height \<le> lp"
  | (commit) lp es where "last_pruned env db = Inr lp" "lp < height" "list_all entry_wf es"
      "set es = pruned_in env vw db (lp + 1) height" "PruneBlocks env db height =
       Some (commit_as ''failed to commit pruning batch'' env db (deletes env es @ [DsPut (entry_key env (EMeta LastPrunedBlockHeightKey)) (put_le64 height)]))"
proof (cases "ds_batch (sds env) db")
  case (Some e)
  then show ?thesis using early by (simp add: PruneBlocks_def)
next
  case x: None
  show ?thesis
  proof (cases "last_pruned env db")
    case (Inl e)
    then show ?thesis using early by (simp add: PruneBlocks_def x)
  next
    case (Inr lp)
    show ?thesis
    proof (cases "height \<le> lp")
      case True
      then show ?thesis using already [OF _ Inr] by (simp add: PruneBlocks_def x Inr)
    next
      case False
      then show ?thesis using PruneBlocks_steps [OF ok hi Inr _ x] early commit [OF Inr] by (auto simp: not_le)
    qed
  qed
qed

section \<open>A store in memory\<close>

text \<open>The store the witnesses run on, with two blocks in it.\<close>

definition demo_store :: "(mem_db, bytes) store_env" where
  "demo_store = \<lparr>sds = mem_datastore, tenv = demo_env, hash_string = hex_encode\<rparr>"

lemma hex_digit_dot: "n < 16 \<Longrightarrow> hex_digit n \<noteq> CHR ''.''"
  using nat_below_16_cases [of n] by (auto simp: hex_digit_def)

lemma plain_hex_encode:
  assumes "h \<noteq> []"
  shows "plain_key (hex_encode h)"
proof -
  have "\<exists>n<16. c = hex_digit n" if "c \<in> set (hex_encode h)" for c
  proof -
    from that obtain x where "c = hex_digit (unat (x :: byte) div 16) \<or> c = hex_digit (unat x mod 16)"
      by (auto simp: hex_encode_def)
    then show ?thesis using byte_div_16 [of x] byte_mod_16 [of x] by blast
  qed
  then have c: "c \<noteq> CHR ''/'' \<and> c \<noteq> CHR '':'' \<and> c \<noteq> CHR ''.''" if "c \<in> set (hex_encode h)" for c
    using that hex_digit_plain hex_digit_dot by metis
  moreover have "length (hex_encode h) \<noteq> 0" using assms unfolding length_hex_encode by simp
  ultimately show ?thesis unfolding plain_key_def by (metis list.size(3))
qed

lemma demo_store_sel [simp]: "sds demo_store = mem_datastore" "tenv demo_store = demo_env"
  by (simp_all add: demo_store_def)

lemma demo_store_ok [simp]: "store_ok demo_store mem_view" "adds_ok demo_store"
  by (auto simp: store_ok_def hash_names_ok_def reads_ok_def adds_ok_def demo_store_def inj_def plain_hex_encode)
    (auto simp: mem_datastore_def split: option.splits)

lemma demo_batch_ops [simp]: "batch_ops demo_store db ops b = Inr (b @ map snd ops)"
  by (induction ops arbitrary: b) (auto simp: batch_op_def mem_datastore_def)

lemma demo_batch [simp]:
  "batch_op demo_store db b op = Inr (b @ [op])" "NewBatch demo_store db = Inr []" "Commit demo_store db b = (None, db @ b)"
  "commit_as msg demo_store db b = (None, db @ b)" "ds_batch mem_datastore db = None"
  by (simp_all add: batch_op_def NewBatch_def Commit_def commit_as_def mem_datastore_def)

lemma demo_batch_dels [simp]:
  "batch_dels demo_store db ks b = Inr (b @ map (\<lambda>(_, k). DsDelete (slash_key k)) ks)"
  by (induction ks arbitrary: b) (auto simp: mem_datastore_def)

lemma u64_two_one [simp]: "\<not> (2 :: u64) \<le> 1" "(1 :: u64) < 2" "(0 :: u64) < 1" "(1 :: u64) < - 1"
  by (simp_all add: word_le_nat_alt word_less_nat_alt unsigned_minus_1_eq_mask mask_eq_exp_minus_1)

definition demo_db :: mem_db where
  "demo_db = [DsPut (entry_key demo_store EHeight) (put_le64 2),
     DsPut (entry_key demo_store (EHeader 1)) [1], DsPut (entry_key demo_store (EHeader 2)) [2]]"

lemma demo_entry:
  assumes "entry_wf e"
  shows "entry_of demo_store mem_view demo_db e =
    (if e = EHeight then Some (put_le64 2) else if e = EHeader 1 then Some [1] else if e = EHeader 2 then Some [2] else None)"
  using assms entry_key_inject [OF store_okD(2) [OF demo_store_ok(1)]]
  by (simp add: entry_of_def demo_db_def mem_view_def)

lemma demo_db_height [simp]: "Height demo_store demo_db = Inr 2"
  by (simp add: Height_iff [OF demo_store_ok(1)] demo_entry decodeHeight_def heightLength_def)

lemma commits_reads:
  assumes ok: "store_ok env vw" and codecs: "codecs_ok (tenv env)" "keys_roundtrip (tenv env)"
    and sh: "sendable (tenv env) sh" and st: "state_time_ok st" "LastBlockHeight st = Header_Height (shHeader sh)"
    and c: "commits env db sh d sig st db'" and k: "k = Header_Height (shHeader sh)"
  shows "GetBlockData env db' k = Inr (sh\<lparr>aggregatorSignatureProvider := None, syncNodeSignatureBytesProvider := None\<rparr>, d) \<and>
    GetSignature env db' k = Inr sig \<and> GetStateAtHeight env db' k = Inr st \<and>
    (\<exists>hb. fst (SignedHeader_MarshalBinary (tenv env) sh) = Inr hb \<and>
       GetBlockByHash env db' (sha256 hb) = GetBlockData env db' k) \<and>
    (\<exists>cur. Height env db = Inr cur \<and> Height env db' = Inr (max cur k) \<and>
       (cur \<le> k \<longrightarrow> GetState env db' = Inr st)) \<and>
    (\<forall>j x. j \<noteq> k \<longrightarrow> (GetBlockData env db' j = Inr x \<longleftrightarrow> GetBlockData env db j = Inr x))"
proof -
  obtain cur hb bl sb where cur: "Height env db = Inr cur"
    and hb: "fst (SignedHeader_MarshalBinary (tenv env) sh) = Inr hb"
    and bl: "Data_MarshalBinary (tenv env) d = Inr bl"
    and sb: "enc (c_state (cds (tenv env))) (State_ToProto st) = Inr sb"
    and e: "\<And>e. entry_wf e \<Longrightarrow> entry_of env vw db' e = committed env vw db cur k hb bl sig sb e"
    using commits_entries [OF ok c k [symmetric]] st(2) k by metis
  have state: "decode_state env sb = Inr st"
    using codec_okD [OF codecs_okD(10) [OF codecs(1)] _ sb] State_FromProto_ToProto [OF st(1)]
    by (simp add: decode_state_def)
  have H: "Height env db' = Inr (max cur k)"
    using e [of EHeight] cur
    by (auto simp: Height_iff [OF ok] committed_def decodeHeight_def heightLength_def max_def)
  have S: "GetStateAtHeight env db' k = Inr st"
    using state by (simp add: GetStateAtHeight_iff [OF ok] e committed_def)
  have "getHeightByHash env db' (sha256 hb) = Inr k"
    by (simp add: getHeightByHash_iff [OF ok] e committed_def decodeHeight_def heightLength_def)
  then have "GetBlockByHash env db' (sha256 hb) = GetBlockData env db' k" by (simp add: GetBlockByHash_def)
  moreover have "GetBlockData env db' k = Inr (sh\<lparr>aggregatorSignatureProvider := None, syncNodeSignatureBytesProvider := None\<rparr>, d)"
    using SignedHeader_roundtrip [OF codecs sh hb, of newSignedHeader] Data_roundtrip [OF codecs(1) bl]
    by (simp add: GetBlockData_iff [OF ok] GetHeader_iff [OF ok] e committed_def newSignedHeader_def)
  moreover have "GetSignature env db' k = Inr sig" by (simp add: GetSignature_iff [OF ok] e committed_def)
  moreover have "same_height env vw db db' j" if "j \<noteq> k" for j
    using that by (simp add: same_height_def e committed_def)
  ultimately show ?thesis
    using H S hb cur same_height_reads(1) [OF ok] by (auto simp: GetState_iff [OF ok] max_def)
qed

section \<open>Properties\<close>

text \<open>
  C12: A rollback of the store is exact and atomic. When it fails nothing has changed. When it
  succeeds the height of the store is the target, which was below the old height; the blocks, states
  and index entries of the heights above the target are gone and read as not found; every block up
  to the target reads as before, and so does all metadata but the DA-included height, which is
  lowered to the target where it was above. On an aggregator a rollback below the DA-included
  height never succeeds.
\<close>

theorem rollback_exact:
  assumes ok: "store_ok env vw" and r: "Rollback env db h aggregator = (r, db')"
  shows "(case r of Some e \<Rightarrow> vw db' = vw db
    | None \<Rightarrow> Height env db' = Inr h \<and>
        (\<exists>cur. Height env db = Inr cur \<and> h < cur \<and> (aggregator \<longrightarrow> \<not> da_above env vw db h) \<and>
          (\<forall>e. entry_wf e \<longrightarrow> entry_of env vw db' e = rolled_back env vw db cur h e) \<and>
          (\<forall>k x. k \<le> h \<longrightarrow> (GetBlockData env db' k = Inr x \<longleftrightarrow> GetBlockData env db k = Inr x)) \<and>
          (\<forall>k. h < k \<and> k \<le> cur \<longrightarrow> (\<exists>e. GetBlockData env db' k = Inl e \<and> errors_is e ErrNotFound))))"
proof (cases r)
  case (Some e)
  then show ?thesis using Rollback_error [OF store_okD(1) [OF ok]] r by simp
next
  case None
  obtain cur where cur: "Height env db = Inr cur" "h < cur" "aggregator \<longrightarrow> \<not> da_above env vw db h"
    and e: "\<And>e. entry_wf e \<Longrightarrow> entry_of env vw db' e = rolled_back env vw db cur h e"
    using Rollback_entries [OF store_okD(1,2) [OF ok]] r None by blast
  have "Height env db' = Inr h"
    using e [of EHeight] by (simp add: Height_iff [OF ok] rolled_back_def decodeHeight_def heightLength_def)
  moreover have "same_height env vw db db' k" if "k \<le> h" for k
    using that by (auto simp: same_height_def e rolled_back_def blocks_in_def block_entries_def)
  then have "GetBlockData env db' k = Inr x \<longleftrightarrow> GetBlockData env db k = Inr x" if "k \<le> h" for k x
    using that same_height_reads(1) [OF ok] by blast
  moreover have "entry_of env vw db' (EHeader k) = None" if "h < k" "k \<le> cur" for k
    using that by (auto simp: e rolled_back_def blocks_in_def block_entries_def)
  ultimately show ?thesis using None cur e no_header_no_block [OF ok] by auto
qed

theorem rollback_exact_witness:
  "\<exists>db'. Rollback demo_store demo_db 1 True = (None, db') \<and> Height demo_store db' = Inr 1 \<and>
     entry_of demo_store mem_view db' (EHeader 2) = None \<and> entry_of demo_store mem_view db' (EHeader 1) = Some [1]"
proof -
  have "\<exists>e. GetMetadata demo_store demo_db DAIncludedHeightKey = Inl e \<and> errors_is e ErrNotFound"
    using kget_store_None [OF demo_store_ok(1), of "EMeta DAIncludedHeightKey" demo_db]
    by (auto simp: GetMetadata_def entry_keys(7) [where env = demo_store] demo_entry)
  then have da: "rollback_da_height demo_store demo_db 1 True [] = Inr []"
    by (auto simp: rollback_da_height_def)
  have "kget demo_store demo_db (getHeaderKey 2) = Inr [2]"
    using kget_store [OF demo_store_ok(1), of "EHeader 2" demo_db "[2]"]
    by (simp add: entry_keys(1) [where env = demo_store] demo_entry)
  then obtain b where "rollback_loop demo_store demo_db 2 1 [] = Inr b"
    by (simp add: rollback_loop.simps [of _ _ 2] rollback_loop.simps [of _ _ 1] rollback_height_def)
  then have "fst (Rollback demo_store demo_db 1 True) = None" using da by (simp add: Rollback_def)
  then obtain db' where r: "Rollback demo_store demo_db 1 True = (None, db')"
    by (cases "Rollback demo_store demo_db 1 True") simp
  have "EHeader 2 \<in> blocks_in demo_store mem_view demo_db 1 2" "EHeader 1 \<notin> blocks_in demo_store mem_view demo_db 1 2"
    by (auto simp: blocks_in_def block_entries_def demo_entry)
  then show ?thesis
    using rollback_exact [OF demo_store_ok(1) r] r by (simp add: rolled_back_def demo_entry)
qed

text \<open>
  C16: What a block commit writes is what the store reads. After the writes of a block, its height
  and the state of that height are committed in one batch, the block, its signature and the state
  read back as they were written, the block is found through the hash of its signed header bytes, the height of the
  store is the greater of the old one and the block's, and every other height reads as before.
\<close>

theorem committed_block_reads_back:
  assumes ok: "store_ok env vw" and codecs: "codecs_ok (tenv env)" "keys_roundtrip (tenv env)"
    and sh: "sendable (tenv env) sh" and st: "state_time_ok st" "LastBlockHeight st = Header_Height (shHeader sh)"
    and c: "commits env db sh d sig st db'" and k: "k = Header_Height (shHeader sh)"
  shows "GetBlockData env db' k = Inr (sh\<lparr>aggregatorSignatureProvider := None, syncNodeSignatureBytesProvider := None\<rparr>, d) \<and>
    GetSignature env db' k = Inr sig \<and> GetStateAtHeight env db' k = Inr st \<and>
    (\<exists>hb. fst (SignedHeader_MarshalBinary (tenv env) sh) = Inr hb \<and>
       GetBlockByHash env db' (sha256 hb) = GetBlockData env db' k) \<and>
    (\<exists>cur. Height env db = Inr cur \<and> Height env db' = Inr (max cur k) \<and>
       (cur \<le> k \<longrightarrow> GetState env db' = Inr st)) \<and>
    (\<forall>j x. j \<noteq> k \<longrightarrow> (GetBlockData env db' j = Inr x \<longleftrightarrow> GetBlockData env db j = Inr x))"
  by (rule commits_reads [OF assms])

definition next_state :: State where
  "next_state = demo_state\<lparr>LastBlockHeight := 3\<rparr>"

lemma demo_header_height [simp]: "Header_Height (shHeader demo_signed_header) = 3" "LastBlockHeight next_state = 3"
  by (simp_all add: demo_signed_header_def demo_header_def Header_Height_def next_state_def)

lemma demo_commits: "\<exists>db' hb. commits demo_store demo_db demo_signed_header demo_data [5] next_state db' \<and>
    fst (SignedHeader_MarshalBinary demo_env demo_signed_header) = Inr hb"
proof -
  obtain hb where hb: "fst (SignedHeader_MarshalBinary demo_env demo_signed_header) = Inr hb"
    by (simp add: SignedHeader_MarshalBinary_def SignedHeader_ToProto_def signer_proto_def MarshalledPubKey_def
        demo_env_def demo_signed_header_def field_codecs_def)
  obtain bl where bl: "Data_MarshalBinary demo_env demo_data = Inr bl"
    by (simp add: Data_MarshalBinary_def demo_env_def field_codecs_def)
  obtain sb where sb: "enc (c_state (cds demo_env)) (State_ToProto next_state) = Inr sb"
    by (simp add: demo_env_def field_codecs_def)
  show ?thesis
    by (simp add: commits_def SaveBlockData_def SaveBlockDataFromBytes_def SetHeight_def UpdateState_def Let_def hb bl sb)
qed

theorem committed_block_reads_back_witness:
  "\<exists>db'. commits demo_store demo_db demo_signed_header demo_data [5] next_state db' \<and>
     GetBlockData demo_store db' 3 = Inr (demo_signed_header, demo_data) \<and> GetState demo_store db' = Inr next_state"
proof -
  obtain db' where c: "commits demo_store demo_db demo_signed_header demo_data [5] next_state db'"
    using demo_commits by blast
  have send: "sendable demo_env demo_signed_header"
    by (simp add: sendable_def demo_signed_header_def signer_ok_def demo_env_def)
  have t: "state_time_ok next_state" by (simp add: state_time_ok_def next_state_def demo_state_def)
  have p: "demo_signed_header\<lparr>aggregatorSignatureProvider := None, syncNodeSignatureBytesProvider := None\<rparr> = demo_signed_header"
    by (simp add: demo_signed_header_def)
  have l: "LastBlockHeight next_state = Header_Height (shHeader demo_signed_header)" by simp
  note w = committed_block_reads_back [OF demo_store_ok(1) _ _ _ t l c demo_header_height(1) [symmetric],
      unfolded demo_store_sel, OF demo_env_ok send]
  have "3 \<ge> (2 :: u64)" by (simp add: word_le_nat_alt)
  then have "GetState demo_store db' = Inr next_state" using w demo_db_height by fastforce
  then show ?thesis using c conjunct1 [OF w] unfolding p by blast
qed



text \<open>
  C18: Pruning ends for every height below the greatest \<^verbatim>\<open>uint64\<close>, and is exact, atomic and
  repeatable. When it fails nothing has changed. When it succeeds, either the target was pruned
  before and nothing has changed, or the header, data, signature, index and DA-height entries of
  exactly the heights after the last pruned one up to the target are gone, the target is recorded
  as pruned, and every other entry (the states and the height of the store among them) is as before;
  pruning to any height up to the target again then changes nothing.
\<close>

theorem prune_exact:
  assumes ok: "store_ok env vw" "adds_ok env" and hi: "height < - 1"
  shows "\<exists>r db'. PruneBlocks env db height = Some (r, db') \<and>
    (case r of Some e \<Rightarrow> vw db' = vw db
     | None \<Rightarrow> (\<exists>lp. last_pruned env db = Inr lp \<and> (height \<le> lp \<longrightarrow> db' = db) \<and>
         (lp < height \<longrightarrow> (\<forall>e. entry_wf e \<longrightarrow> entry_of env vw db' e = pruned env vw db lp height e) \<and>
            (\<forall>h. h \<le> height \<and> ds_batch (sds env) db' = None \<longrightarrow> PruneBlocks env db' h = Some (None, db')))))"
proof -
  from ok hi show ?thesis
  proof (cases rule: PruneBlocks_cases [where db = db])
    case (commit lp es)
    obtain r db' where c: "commit_as ''failed to commit pruning batch'' env db (deletes env es @
        [DsPut (entry_key env (EMeta LastPrunedBlockHeightKey)) (put_le64 height)]) = (r, db')"
      by (cases "commit_as ''failed to commit pruning batch'' env db (deletes env es @ [DsPut (entry_key env (EMeta LastPrunedBlockHeightKey)) (put_le64 height)])")
    show ?thesis
    proof (cases r)
      case None
      note e = prune_commit [OF ok(1) commit(3,4) c [unfolded None]]
      have "last_pruned env db' = Inr height"
        using e [of "EMeta LastPrunedBlockHeightKey"] last_pruned_iff [OF ok(1)]
        by (simp add: pruned_def heightLength_def)
      then have "PruneBlocks env db' h = Some (None, db')" if "h \<le> height" "ds_batch (sds env) db' = None" for h
        using that by (simp add: PruneBlocks_def)
      then show ?thesis using commit c None e by (auto simp: not_le)
    qed (use commit c Commit_entry(4) [OF store_okD(1) [OF ok(1)]] in auto)
  qed auto
qed

theorem prune_exact_witness:
  "\<exists>db'. PruneBlocks demo_store demo_db 1 = Some (None, db') \<and>
     entry_of demo_store mem_view db' (EHeader 1) = None \<and> entry_of demo_store mem_view db' (EHeader 2) = Some [2] \<and>
     PruneBlocks demo_store db' 1 = Some (None, db')"
proof -
  have lp: "last_pruned demo_store demo_db = Inr 0"
    by (simp add: last_pruned_iff [OF demo_store_ok(1)] demo_entry)
  have "kget demo_store demo_db (getHeaderKey 1) = Inr [1]"
    using kget_store [OF demo_store_ok(1), of "EHeader 1" demo_db "[1]"]
    by (simp add: entry_keys(1) [where env = demo_store] demo_entry)
  then obtain b where b: "prune_loop demo_store demo_db 1 1 [] = Some (Inr b)"
    by (simp add: prune_loop.simps [of _ _ 1] prune_loop.simps [of _ _ 2] prune_height_def)
  obtain r db' where r: "PruneBlocks demo_store demo_db 1 = Some (r, db')" and
    p: "case r of Some e \<Rightarrow> mem_view db' = mem_view demo_db
     | None \<Rightarrow> (\<exists>lp. last_pruned demo_store demo_db = Inr lp \<and> (1 \<le> lp \<longrightarrow> db' = demo_db) \<and>
         (lp < 1 \<longrightarrow> (\<forall>e. entry_wf e \<longrightarrow> entry_of demo_store mem_view db' e = pruned demo_store mem_view demo_db lp 1 e) \<and>
            (\<forall>h. h \<le> 1 \<and> ds_batch (sds demo_store) db' = None \<longrightarrow> PruneBlocks demo_store db' h = Some (None, db'))))"
    using prune_exact [OF demo_store_ok, of 1 demo_db] by auto
  have "r = None" using r lp b by (simp add: PruneBlocks_def)
  then have e: "\<And>e. entry_wf e \<Longrightarrow> entry_of demo_store mem_view db' e = pruned demo_store mem_view demo_db 0 1 e"
    and again: "PruneBlocks demo_store db' 1 = Some (None, db')" using p lp by auto
  have "EHeader 1 \<in> pruned_in demo_store mem_view demo_db 1 1" "EHeader 2 \<notin> pruned_in demo_store mem_view demo_db 1 1"
    by (auto simp: pruned_in_def height_entries_def prune_entries_def demo_entry)
  then show ?thesis using r \<open>r = None\<close> again by (simp add: e pruned_def demo_entry)
qed

end
