(* ===== verification/Checkpoint_Store.thy ===== *)
theory Checkpoint_Store
  imports Datastore Wire
begin

text \<open>
  The DA checkpoint of a sequencer and its persistence, \<^verbatim>\<open>src/pkg/sequencers/common/checkpoint.go\<close>:
  a DA height and the number of forced transactions of its epoch that were consumed. Checkpoints are
  ordered as the sequencers move through them, by height and then by index.
\<close>

datatype Checkpoint = Checkpoint (DAHeight: u64) (TxIndex: u64)

instantiation Checkpoint :: linorder
begin

definition less_eq_Checkpoint :: "Checkpoint \<Rightarrow> Checkpoint \<Rightarrow> bool" where
  "c \<le> d \<longleftrightarrow> DAHeight c < DAHeight d \<or> DAHeight c = DAHeight d \<and> TxIndex c \<le> TxIndex d"

definition less_Checkpoint :: "Checkpoint \<Rightarrow> Checkpoint \<Rightarrow> bool" where
  "c < d \<longleftrightarrow> DAHeight c < DAHeight d \<or> DAHeight c = DAHeight d \<and> TxIndex c < TxIndex d"

instance
  by standard (auto simp: less_eq_Checkpoint_def less_Checkpoint_def Checkpoint.expand)

end

record pb_SequencerDACheckpoint =
  pbc_da_height :: u64
  pbc_tx_index :: u64

text \<open>The database, the key of the store and the codec of the message.\<close>

record 'db cp_env =
  cp_ds :: "'db datastore"
  checkpointKey :: string
  c_checkpoint :: "pb_SequencerDACheckpoint codec"

definition cp_Load :: "'db cp_env \<Rightarrow> 'db \<Rightarrow> Checkpoint result" where
  "cp_Load env db =
     (case ds_get (cp_ds env) db (checkpointKey env) of
        Inl e \<Rightarrow> if errors_is e ErrNotFound then Inl (Sentinel ErrCheckpointNotFound)
                else Inl (Wrap ''failed to load checkpoint'' e)
      | Inr data \<Rightarrow>
          (case dec (c_checkpoint env) data of
             Inl e \<Rightarrow> Inl (Wrap ''failed to unmarshal checkpoint'' e)
           | Inr p \<Rightarrow> Inr (Checkpoint (pbc_da_height p) (pbc_tx_index p))))"

definition cp_Save :: "'db cp_env \<Rightarrow> 'db \<Rightarrow> Checkpoint \<Rightarrow> goerr option \<times> 'db" where
  "cp_Save env db checkpoint =
     (case enc (c_checkpoint env) \<lparr>pbc_da_height = DAHeight checkpoint, pbc_tx_index = TxIndex checkpoint\<rparr> of
        Inl e \<Rightarrow> (Some (Wrap ''failed to marshal checkpoint'' e), db)
      | Inr data \<Rightarrow>
          (case ds_put (cp_ds env) db (checkpointKey env) data of
             (None, db') \<Rightarrow> (None, db')
           | (Some e, db') \<Rightarrow> (Some (Wrap ''failed to save checkpoint'' e), db')))"

definition cp_Delete :: "'db cp_env \<Rightarrow> 'db \<Rightarrow> goerr option \<times> 'db" where
  "cp_Delete env db =
     (case ds_delete (cp_ds env) db (checkpointKey env) of
        (None, db') \<Rightarrow> (None, db')
      | (Some e, db') \<Rightarrow> if errors_is e ErrNotFound then (None, db')
                        else (Some (Wrap ''failed to delete checkpoint'' e), db'))"

section \<open>The contract\<close>

text \<open>What the store needs of its database and codec, whose errors are not the sentinel of this
  package.\<close>

definition cp_ok :: "'db cp_env \<Rightarrow> ('db \<Rightarrow> view) \<Rightarrow> bool" where
  "cp_ok env vw \<longleftrightarrow> datastore_ok (cp_ds env) vw \<and> codec_ok (c_checkpoint env) \<and>
     (\<forall>db k e. ds_get (cp_ds env) db k = Inl e \<longrightarrow> \<not> errors_is e ErrCheckpointNotFound) \<and>
     (\<forall>b e. dec (c_checkpoint env) b = Inl e \<longrightarrow> \<not> errors_is e ErrCheckpointNotFound)"

text \<open>What a sequencer relies on: a saved checkpoint is the one loaded, until the next save; a
  failed save changes nothing. The environment \<open>e\<close> of the operations is one that is \<open>ok\<close>.\<close>

locale checkpoint_store =
  fixes ok :: "'e \<Rightarrow> bool"
    and load :: "'e \<Rightarrow> 'db \<Rightarrow> Checkpoint result"
    and save :: "'e \<Rightarrow> 'db \<Rightarrow> Checkpoint \<Rightarrow> goerr option \<times> 'db"
    and stored :: "'e \<Rightarrow> 'db \<Rightarrow> bytes option"
    and decoded :: "'e \<Rightarrow> bytes \<Rightarrow> Checkpoint option"
  assumes load_stored: "ok e \<Longrightarrow> load e db = Inr c \<Longrightarrow> \<exists>b. stored e db = Some b \<and> decoded e b = Some c"
    and load_missing: "ok e \<Longrightarrow> load e db = Inl x \<Longrightarrow> errors_is x ErrCheckpointNotFound \<Longrightarrow> stored e db = None"
    and save_ok: "ok e \<Longrightarrow> save e db c = (None, db') \<Longrightarrow> \<exists>b. stored e db' = Some b \<and> decoded e b = Some c"
    and save_error: "ok e \<Longrightarrow> save e db c = (Some x, db') \<Longrightarrow> stored e db' = stored e db"
begin

lemma load_after_save: "ok e \<Longrightarrow> save e db c = (None, db') \<Longrightarrow> load e db' = Inr c' \<Longrightarrow> c' = c"
  using load_stored save_ok by fastforce

lemma found_after_save:
  "ok e \<Longrightarrow> save e db c = (None, db') \<Longrightarrow> load e db' = Inl x \<Longrightarrow> \<not> errors_is x ErrCheckpointNotFound"
  using load_missing save_ok by fastforce

end

definition decoded_checkpoint :: "'db cp_env \<Rightarrow> bytes \<Rightarrow> Checkpoint option" where
  "decoded_checkpoint env b =
     (case dec (c_checkpoint env) b of Inl e \<Rightarrow> None
      | Inr p \<Rightarrow> Some (Checkpoint (pbc_da_height p) (pbc_tx_index p)))"

lemma cp_Load_Inr:
  assumes ok: "cp_ok env vw" and l: "cp_Load env db = Inr c"
  shows "\<exists>b. vw db (checkpointKey env) = Some b \<and> decoded_checkpoint env b = Some c"
proof -
  obtain b where b: "ds_get (cp_ds env) db (checkpointKey env) = Inr b" "decoded_checkpoint env b = Some c"
    using l by (auto simp: cp_Load_def decoded_checkpoint_def split: sum.splits if_splits)
  then show ?thesis using ok datastore_getD(1) by (fastforce simp: cp_ok_def)
qed

lemma cp_Load_missing:
  assumes ok: "cp_ok env vw" and l: "cp_Load env db = Inl x" "errors_is x ErrCheckpointNotFound"
  shows "vw db (checkpointKey env) = None"
proof (cases "ds_get (cp_ds env) db (checkpointKey env)")
  case (Inl e)
  then show ?thesis using l ok datastore_getD(2) [of "cp_ds env" vw, OF _ Inl]
    by (auto simp: cp_Load_def cp_ok_def split: if_splits)
next
  case (Inr b)
  then show ?thesis using l ok by (auto simp: cp_Load_def cp_ok_def split: sum.splits)
qed

lemma cp_Save_ok:
  assumes ok: "cp_ok env vw" and s: "cp_Save env db c = (None, db')"
  shows "\<exists>b. vw db' (checkpointKey env) = Some b \<and> decoded_checkpoint env b = Some c"
proof -
  let ?p = "\<lparr>pbc_da_height = DAHeight c, pbc_tx_index = TxIndex c\<rparr>"
  obtain b where b: "enc (c_checkpoint env) ?p = Inr b" "ds_put (cp_ds env) db (checkpointKey env) b = (None, db')"
    using s by (auto simp: cp_Save_def split: sum.splits prod.splits option.splits)
  then have "vw db' = (vw db)(checkpointKey env \<mapsto> b)" using ok datastore_putD(1) by (auto simp: cp_ok_def)
  moreover have "decoded_checkpoint env b = Some c"
    using codec_okD [OF _ UNIV_I b(1)] ok by (simp add: decoded_checkpoint_def cp_ok_def)
  ultimately show ?thesis by simp
qed

lemma cp_Save_error:
  assumes ok: "cp_ok env vw" and s: "cp_Save env db c = (Some e, db')"
  shows "vw db' = vw db"
  using s ok datastore_putD(2) [of "cp_ds env" vw]
  by (auto simp: cp_Save_def cp_ok_def split: sum.splits prod.splits option.splits)

interpretation cps: checkpoint_store
  "\<lambda>(env, vw). cp_ok env vw" "\<lambda>(env, vw). cp_Load env" "\<lambda>(env, vw). cp_Save env"
  "\<lambda>(env, vw) db. vw db (checkpointKey env)" "\<lambda>(env, vw). decoded_checkpoint env"
  by unfold_locales (auto dest: cp_Load_Inr cp_Load_missing cp_Save_ok cp_Save_error)

end
