(* ===== verification/DA_Layer.thy ===== *)
theory DA_Layer
  imports Sha256 Wire
begin

text \<open>
  The access to the DA layer: result types and blob identifiers (\<^verbatim>\<open>src/pkg/da/types/types.go\<close>,
  \<^verbatim>\<open>src/pkg/da/jsonrpc/blob.go\<close>), namespaces (\<^verbatim>\<open>src/pkg/da/types/namespace.go\<close>) and the client
  that wraps the blob RPC (\<^verbatim>\<open>src/block/internal/da/client.go\<close>). The RPC itself, the namespace and
  blob constructors of the Celestia library and JSON are parameters. The theory shows that identifiers
  and namespaces round-trip, that a client over an honest RPC is an honest source of blobs, and what
  each failure of the RPC is reported as.
\<close>

section \<open>Result types\<close>

datatype StatusCode = StatusUnknown | StatusSuccess | StatusNotFound | StatusNotIncludedInBlock
  | StatusAlreadyInMempool | StatusTooBig | StatusContextDeadline | StatusError
  | StatusIncorrectAccountSequence | StatusContextCanceled | StatusHeightFromFuture

record BaseResult =
  Code :: StatusCode
  Message :: string
  rHeight :: u64
  SubmittedCount :: u64
  BlobSize :: u64
  IDs :: "bytes list"
  Timestamp :: gotime

record ResultRetrieve = BaseResult +
  rData :: "bytes list"

definition emptyResult :: BaseResult where
  "emptyResult = \<lparr>Code = StatusUnknown, Message = [], rHeight = 0, SubmittedCount = 0, BlobSize = 0,
     IDs = [], Timestamp = zero_time\<rparr>"

definition with_data :: "BaseResult \<Rightarrow> bytes list \<Rightarrow> ResultRetrieve" where
  "with_data b d = \<lparr>Code = Code b, Message = Message b, rHeight = rHeight b, SubmittedCount = SubmittedCount b,
     BlobSize = BlobSize b, IDs = IDs b, Timestamp = Timestamp b, rData = d\<rparr>"

definition SplitID :: "bytes \<Rightarrow> (u64 \<times> bytes) result" where
  "SplitID bid = (if length bid \<le> 8 then Inl (Msg ''invalid ID length'') else Inr (get_le64 (take 8 bid), drop 8 bid))"

definition MakeID :: "u64 \<Rightarrow> bytes \<Rightarrow> bytes" where
  "MakeID height commitment = put_le64 height @ commitment"

text \<open>The \<^verbatim>\<open>SplitID\<close> of the RPC package, with a nil commitment for a malformed identifier.\<close>

definition rpc_SplitID :: "bytes \<Rightarrow> u64 \<times> bytes option" where
  "rpc_SplitID bid = (if length bid \<le> 8 then (0, None) else (get_le64 (take 8 bid), Some (drop 8 bid)))"

section \<open>Namespaces\<close>

definition NamespaceIDSize :: nat where "NamespaceIDSize = 28"
definition NamespaceVersionSize :: nat where "NamespaceVersionSize = 1"
definition NamespaceSize :: nat where "NamespaceSize = NamespaceVersionSize + NamespaceIDSize"
definition NamespaceVersionZero :: byte where "NamespaceVersionZero = 0"
definition NamespaceVersionZeroPrefixSize :: nat where "NamespaceVersionZeroPrefixSize = 18"
definition NamespaceVersionZeroDataSize :: nat where "NamespaceVersionZeroDataSize = 10"

text \<open>The identifier is an array of 28 bytes.\<close>

record Namespace =
  nsVersion :: byte
  nsID :: bytes

definition ns_Bytes :: "Namespace \<Rightarrow> bytes" where
  "ns_Bytes n = nsVersion n # nsID n"

definition IsValidForVersion0 :: "Namespace \<Rightarrow> bool" where
  "IsValidForVersion0 n \<longleftrightarrow> nsVersion n = NamespaceVersionZero \<and>
     (\<forall>b \<in> set (take NamespaceVersionZeroPrefixSize (nsID n)). b = 0)"

text \<open>\<^verbatim>\<open>copy\<close> into the tail of the zero array: missing bytes stay zero.\<close>

definition NewNamespaceV0 :: "bytes \<Rightarrow> Namespace result" where
  "NewNamespaceV0 data =
     (if length data > NamespaceVersionZeroDataSize then Inl (Msg ''data too long for version 0 namespace'')
      else Inr \<lparr>nsVersion = NamespaceVersionZero,
        nsID = replicate NamespaceVersionZeroPrefixSize 0 @ data @
          replicate (NamespaceVersionZeroDataSize - length data) 0\<rparr>)"

definition NamespaceFromBytes :: "bytes \<Rightarrow> Namespace result" where
  "NamespaceFromBytes b =
     (if length b \<noteq> NamespaceSize then Inl (Msg ''invalid namespace size'')
      else let ns = \<lparr>nsVersion = b ! 0, nsID = drop NamespaceVersionSize b\<rparr> in
        if nsVersion ns = NamespaceVersionZero \<and> \<not> IsValidForVersion0 ns
        then Inl (Msg ''invalid version 0 namespace'') else Inr ns)"

definition NamespaceFromString :: "string \<Rightarrow> Namespace" where
  "NamespaceFromString s =
     (case NewNamespaceV0 (take NamespaceVersionZeroDataSize (sha256 (bytes_of_string s))) of
        Inl e \<Rightarrow> \<lparr>nsVersion = 0, nsID = []\<rparr> | Inr ns \<Rightarrow> ns)"

definition HexString :: "Namespace \<Rightarrow> string" where
  "HexString n = ''0x'' @ hex_encode (ns_Bytes n)"

text \<open>\<^verbatim>\<open>hex.DecodeString\<close>: pairs of digits, an error for any other character or a left-over digit.\<close>

fun hex_decode :: "string \<Rightarrow> bytes option" where
  "hex_decode [] = Some []"
| "hex_decode [c] = None"
| "hex_decode (c # d # s) =
     (case (hex_value c, hex_value d, hex_decode s) of
        (Some x, Some y, Some bs) \<Rightarrow> Some (of_nat (16 * x + y) # bs)
      | _ \<Rightarrow> None)"

definition TrimPrefix :: "string \<Rightarrow> string \<Rightarrow> string" where
  "TrimPrefix s pfx = (if prefix pfx s then drop (length pfx) s else s)"

definition ParseHexNamespace :: "string \<Rightarrow> Namespace result" where
  "ParseHexNamespace hexStr =
     (case hex_decode (TrimPrefix hexStr ''0x'') of
        None \<Rightarrow> Inl (Msg ''invalid hex string'')
      | Some b \<Rightarrow> NamespaceFromBytes b)"

section \<open>The blob RPC\<close>

text \<open>An RPC error is known by its text and by whether it is \<^verbatim>\<open>context.Canceled\<close>.\<close>

record rpc_error =
  err_text :: string
  err_canceled :: bool

type_synonym 'a rpc = "rpc_error + 'a"

text \<open>What the client calls, at the time it calls it: \<^verbatim>\<open>share.NewNamespaceFromBytes\<close> and
  \<^verbatim>\<open>NewBlobV0\<close> as their errors and the commitment they compute, the blob and header endpoints
  (a blob is its commitment and its data), the parsing of the submit options, and the clock.\<close>

record da_rpc =
  ns_error :: "bytes \<Rightarrow> string option"
  blob_commitment :: "bytes \<Rightarrow> bytes \<Rightarrow> (string, bytes) sum"
  options_error :: "bytes \<Rightarrow> string option"
  api_submit :: "(bytes \<times> bytes) list \<Rightarrow> bytes \<Rightarrow> u64 rpc"
  api_get_all :: "u64 \<Rightarrow> bytes \<Rightarrow> (bytes \<times> bytes) list rpc"
  api_get :: "u64 \<Rightarrow> bytes \<Rightarrow> bytes \<Rightarrow> bytes option rpc"
  api_get_proof :: "u64 \<Rightarrow> bytes \<Rightarrow> bytes \<Rightarrow> bytes rpc"
  api_included :: "u64 \<Rightarrow> bytes \<Rightarrow> bytes \<Rightarrow> bytes \<Rightarrow> bool"
  proof_error :: "bytes \<Rightarrow> string option"
  api_header_time :: "u64 \<Rightarrow> gotime rpc"
  api_head :: "u64 option rpc"
  now :: gotime

definition DefaultMaxBlobSize :: nat where
  "DefaultMaxBlobSize = 5 * 1024 * 1024"

fun contains :: "string \<Rightarrow> string \<Rightarrow> bool" where
  "contains [] t = (t = [])"
| "contains (c # s) t = (prefix t (c # s) \<or> contains s t)"

definition ErrBlobNotFound_text :: string where "ErrBlobNotFound_text = ''blob: not found''"
definition ErrBlobSizeOverLimit_text :: string where "ErrBlobSizeOverLimit_text = ''blob: over size limit''"
definition ErrTxTimedOut_text :: string where "ErrTxTimedOut_text = ''timed out waiting for tx to be included in a block''"
definition ErrTxAlreadyInMempool_text :: string where "ErrTxAlreadyInMempool_text = ''tx already in mempool''"
definition ErrTxIncorrectAccountSequence_text :: string where
  "ErrTxIncorrectAccountSequence_text = ''incorrect account sequence''"
definition ErrContextDeadline_text :: string where "ErrContextDeadline_text = ''context deadline''"
definition ErrHeightFromFuture_text :: string where "ErrHeightFromFuture_text = ''given height is from the future''"

section \<open>The client\<close>

record client =
  namespaceBz :: bytes
  dataNamespaceBz :: bytes
  forcedNamespaceBz :: bytes
  hasForcedNamespace :: bool

definition NewClient :: "string \<Rightarrow> string \<Rightarrow> string \<Rightarrow> client" where
  "NewClient ns dataNs forcedNs =
     \<lparr>namespaceBz = ns_Bytes (NamespaceFromString ns), dataNamespaceBz = ns_Bytes (NamespaceFromString dataNs),
      forcedNamespaceBz = (if forcedNs \<noteq> [] then ns_Bytes (NamespaceFromString forcedNs) else []),
      hasForcedNamespace = (forcedNs \<noteq> [])\<rparr>"

text \<open>The blobs of a submission, or the result that ends it.\<close>

fun build_blobs :: "da_rpc \<Rightarrow> bytes \<Rightarrow> bytes list \<Rightarrow> (BaseResult, (bytes \<times> bytes) list) sum" where
  "build_blobs api ns [] = Inr []"
| "build_blobs api ns (raw # data) =
     (if length raw > DefaultMaxBlobSize
      then Inl (emptyResult\<lparr>Code := StatusTooBig, Message := ErrBlobSizeOverLimit_text\<rparr>)
      else (case blob_commitment api ns raw of
              Inl e \<Rightarrow> Inl (emptyResult\<lparr>Code := StatusError, Message := ''failed to build blob: '' @ e\<rparr>)
            | Inr com \<Rightarrow>
                (case build_blobs api ns data of
                   Inl r \<Rightarrow> Inl r
                 | Inr blobs \<Rightarrow> Inr ((com, raw) # blobs))))"

definition submit_code :: "rpc_error \<Rightarrow> StatusCode" where
  "submit_code err =
     (if err_canceled err then StatusContextCanceled
      else if contains (err_text err) ErrTxTimedOut_text then StatusNotIncludedInBlock
      else if contains (err_text err) ErrTxAlreadyInMempool_text then StatusAlreadyInMempool
      else if contains (err_text err) ErrTxIncorrectAccountSequence_text then StatusIncorrectAccountSequence
      else if contains (err_text err) ErrBlobSizeOverLimit_text then StatusTooBig
      else if contains (err_text err) ErrContextDeadline_text then StatusContextDeadline
      else StatusError)"

definition Submit :: "da_rpc \<Rightarrow> bytes list \<Rightarrow> bytes \<Rightarrow> bytes \<Rightarrow> BaseResult" where
  "Submit api data namespace options =
     (let blobSize = sum_list (map (\<lambda>b. of_nat (length b)) data) in
      case ns_error api namespace of
        Some e \<Rightarrow> emptyResult\<lparr>Code := StatusError, Message := ''invalid namespace: '' @ e\<rparr>
      | None \<Rightarrow>
          (case build_blobs api namespace data of
             Inl r \<Rightarrow> r
           | Inr blobs \<Rightarrow>
               (case (if options \<noteq> [] then options_error api options else None) of
                  Some e \<Rightarrow> emptyResult\<lparr>Code := StatusError, Message := ''failed to parse submit options: '' @ e\<rparr>
                | None \<Rightarrow>
                    (case api_submit api blobs options of
                       Inl err \<Rightarrow> emptyResult\<lparr>Code := submit_code err,
                         Message := ''failed to submit blobs: '' @ err_text err, Timestamp := now api, BlobSize := blobSize\<rparr>
                     | Inr height \<Rightarrow>
                         if blobs = [] then emptyResult\<lparr>Code := StatusSuccess, BlobSize := blobSize, rHeight := height\<rparr>
                         else let ids = map (\<lambda>b. MakeID height (fst b)) blobs in
                           emptyResult\<lparr>Code := StatusSuccess, IDs := ids, SubmittedCount := of_nat (length ids),
                             rHeight := height, BlobSize := blobSize, Timestamp := now api\<rparr>))))"

definition getBlockTimestamp :: "da_rpc \<Rightarrow> u64 \<Rightarrow> gotime result" where
  "getBlockTimestamp api height =
     (case api_header_time api height of
        Inl err \<Rightarrow> Inl (Msg ''failed to get header timestamp for block'')
      | Inr t \<Rightarrow> Inr t)"

definition block_time :: "da_rpc \<Rightarrow> u64 \<Rightarrow> gotime" where
  "block_time api height = (case getBlockTimestamp api height of Inl e \<Rightarrow> now api | Inr t \<Rightarrow> t)"

definition Retrieve :: "da_rpc \<Rightarrow> u64 \<Rightarrow> bytes \<Rightarrow> ResultRetrieve" where
  "Retrieve api height namespace =
     (case ns_error api namespace of
        Some e \<Rightarrow> with_data (emptyResult\<lparr>Code := StatusError, Message := ''invalid namespace: '' @ e,
                   rHeight := height, Timestamp := now api\<rparr>) []
      | None \<Rightarrow>
          (case api_get_all api height namespace of
             Inl err \<Rightarrow>
               if contains (err_text err) ErrBlobNotFound_text
               then with_data (emptyResult\<lparr>Code := StatusNotFound, Message := ErrBlobNotFound_text,
                      rHeight := height, Timestamp := block_time api height\<rparr>) []
               else if contains (err_text err) ErrHeightFromFuture_text
               then with_data (emptyResult\<lparr>Code := StatusHeightFromFuture, Message := ErrHeightFromFuture_text,
                      rHeight := height, Timestamp := now api\<rparr>) []
               else with_data (emptyResult\<lparr>Code := StatusError, Message := ''failed to get blobs: '' @ err_text err,
                      rHeight := height, Timestamp := now api\<rparr>) []
           | Inr blobs \<Rightarrow>
               let blockTime = block_time api height in
               if blobs = []
               then with_data (emptyResult\<lparr>Code := StatusNotFound, Message := ErrBlobNotFound_text,
                      rHeight := height, Timestamp := blockTime\<rparr>) []
               else with_data (emptyResult\<lparr>Code := StatusSuccess, rHeight := height,
                      IDs := map (\<lambda>b. MakeID height (fst b)) blobs, Timestamp := blockTime\<rparr>) (map snd blobs)))"

definition GetLatestDAHeight :: "da_rpc \<Rightarrow> u64 result" where
  "GetLatestDAHeight api =
     (case api_head api of
        Inl err \<Rightarrow> Inl (Msg ''failed to get DA network head'')
      | Inr None \<Rightarrow> Inl (Msg ''DA network head returned nil header'')
      | Inr (Some h) \<Rightarrow> Inr h)"

definition RetrieveForcedInclusion :: "da_rpc \<Rightarrow> client \<Rightarrow> u64 \<Rightarrow> ResultRetrieve" where
  "RetrieveForcedInclusion api c height =
     (if \<not> hasForcedNamespace c
      then with_data (emptyResult\<lparr>Code := StatusError, Message := ''forced inclusion namespace not configured'',
             rHeight := height\<rparr>) []
      else Retrieve api height (forcedNamespaceBz c))"

text \<open>The blobs of a subscription response: nil and empty blobs and blobs over the limit are left out.\<close>

definition extractBlobData :: "bytes option list \<Rightarrow> bytes list" where
  "extractBlobData blobs =
     map the (filter (\<lambda>b. case b of None \<Rightarrow> False
       | Some d \<Rightarrow> \<not> (length d = 0 \<or> length d > DefaultMaxBlobSize)) blobs)"

fun get_blobs :: "da_rpc \<Rightarrow> bytes \<Rightarrow> bytes list \<Rightarrow> bytes list result" where
  "get_blobs api ns [] = Inr []"
| "get_blobs api ns (bid # ids) =
     (case rpc_SplitID bid of
        (_, None) \<Rightarrow> Inl (Msg ''invalid blob bid'')
      | (height, Some com) \<Rightarrow>
          (case api_get api height ns com of
             Inl err \<Rightarrow> Inl (Msg (err_text err))
           | Inr b \<Rightarrow>
               (case get_blobs api ns ids of
                  Inl e \<Rightarrow> Inl e
                | Inr bs \<Rightarrow> Inr (case b of None \<Rightarrow> bs | Some d \<Rightarrow> d # bs))))"

definition Get :: "da_rpc \<Rightarrow> bytes list \<Rightarrow> bytes \<Rightarrow> bytes list result" where
  "Get api ids namespace =
     (if ids = [] then Inr []
      else (case ns_error api namespace of
              Some e \<Rightarrow> Inl (Msg ''invalid namespace'')
            | None \<Rightarrow> get_blobs api namespace ids))"

fun get_proofs :: "da_rpc \<Rightarrow> bytes \<Rightarrow> bytes list \<Rightarrow> bytes list result" where
  "get_proofs api ns [] = Inr []"
| "get_proofs api ns (bid # ids) =
     (case rpc_SplitID bid of
        (_, None) \<Rightarrow> Inl (Msg ''invalid blob bid'')
      | (height, Some com) \<Rightarrow>
          (case api_get_proof api height ns com of
             Inl err \<Rightarrow> Inl (Msg (err_text err))
           | Inr p \<Rightarrow>
               (case get_proofs api ns ids of
                  Inl e \<Rightarrow> Inl e
                | Inr ps \<Rightarrow> Inr (p # ps))))"

definition GetProofs :: "da_rpc \<Rightarrow> bytes list \<Rightarrow> bytes \<Rightarrow> bytes list result" where
  "GetProofs api ids namespace =
     (if ids = [] then Inr []
      else (case ns_error api namespace of
              Some e \<Rightarrow> Inl (Msg ''invalid namespace'')
            | None \<Rightarrow> get_proofs api namespace ids))"

fun validate_ids :: "da_rpc \<Rightarrow> bytes \<Rightarrow> (bytes \<times> bytes) list \<Rightarrow> bool list result" where
  "validate_ids api ns [] = Inr []"
| "validate_ids api ns ((bid, p) # rest) =
     (case proof_error api p of
        Some e \<Rightarrow> Inl (Msg e)
      | None \<Rightarrow>
          (case rpc_SplitID bid of
             (_, None) \<Rightarrow> Inl (Msg ''invalid blob bid'')
           | (height, Some com) \<Rightarrow>
               (case validate_ids api ns rest of
                  Inl e \<Rightarrow> Inl e
                | Inr bs \<Rightarrow> Inr (api_included api height ns p com # bs))))"

definition Validate_proofs :: "da_rpc \<Rightarrow> bytes list \<Rightarrow> bytes list \<Rightarrow> bytes \<Rightarrow> bool list result" where
  "Validate_proofs api ids proofs namespace =
     (if length ids \<noteq> length proofs then Inl (Msg ''number of IDs and proofs must match'')
      else if ids = [] then Inr []
      else (case ns_error api namespace of
              Some e \<Rightarrow> Inl (Msg ''invalid namespace'')
            | None \<Rightarrow> validate_ids api namespace (zip ids proofs)))"

section \<open>Identifiers and namespaces\<close>

lemma rpc_SplitID_MakeID: "com \<noteq> [] \<Longrightarrow> rpc_SplitID (MakeID h com) = (h, Some com)"
  by (cases com) (simp_all add: rpc_SplitID_def MakeID_def)

lemma SplitID_MakeID: "com \<noteq> [] \<Longrightarrow> SplitID (MakeID h com) = Inr (h, com)"
  by (cases com) (simp_all add: SplitID_def MakeID_def)

lemma hex_decode_encode [simp]: "hex_decode (hex_encode bs) = Some bs"
proof (induction bs)
  case Nil
  then show ?case by (simp add: hex_encode_def)
next
  case (Cons b bs)
  have "of_nat (16 * (unat b div 16) + unat b mod 16) = b" by simp
  then show ?case using Cons byte_div_16 [of b] byte_mod_16 [of b] by (simp add: hex_encode_def)
qed

definition ns_wf :: "Namespace \<Rightarrow> bool" where
  "ns_wf n \<longleftrightarrow> length (nsID n) = NamespaceIDSize \<and> (nsVersion n = NamespaceVersionZero \<longrightarrow> IsValidForVersion0 n)"

lemmas ns_sizes = NamespaceIDSize_def NamespaceSize_def NamespaceVersionSize_def
  NamespaceVersionZeroPrefixSize_def NamespaceVersionZeroDataSize_def NamespaceVersionZero_def

lemma NamespaceFromBytes_Bytes: "ns_wf n \<Longrightarrow> NamespaceFromBytes (ns_Bytes n) = Inr n"
  by (cases n) (auto simp: ns_wf_def NamespaceFromBytes_def ns_Bytes_def ns_sizes Let_def)

lemma Bytes_NamespaceFromBytes: "NamespaceFromBytes b = Inr n \<Longrightarrow> ns_wf n \<and> ns_Bytes n = b"
  by (cases b) (auto simp: ns_wf_def NamespaceFromBytes_def ns_Bytes_def ns_sizes Let_def split: if_splits)

lemma NewNamespaceV0_wf: "NewNamespaceV0 d = Inr n \<Longrightarrow> ns_wf n"
  by (auto simp: NewNamespaceV0_def ns_wf_def IsValidForVersion0_def ns_sizes split: if_splits)

lemma NamespaceFromString_wf: "ns_wf (NamespaceFromString s)"
proof -
  obtain n where "NewNamespaceV0 (take NamespaceVersionZeroDataSize (sha256 (bytes_of_string s))) = Inr n"
    by (simp add: NewNamespaceV0_def)
  then show ?thesis using NewNamespaceV0_wf by (simp add: NamespaceFromString_def)
qed

section \<open>Submissions\<close>

lemma build_blobs_Inr:
  "build_blobs api ns data = Inr blobs \<Longrightarrow> map snd blobs = data \<and>
     list_all (\<lambda>(com, raw). length raw \<le> DefaultMaxBlobSize \<and> blob_commitment api ns raw = Inr com) blobs"
proof (induction data arbitrary: blobs)
  case Nil
  then show ?case by simp
next
  case (Cons raw data)
  then show ?case by (auto split: if_splits sum.splits)
qed

lemma build_blobs_Inl: "build_blobs api ns data = Inl r \<Longrightarrow> Code r = StatusTooBig \<or> Code r = StatusError"
proof (induction data)
  case Nil
  then show ?case by simp
next
  case (Cons raw data)
  then show ?case by (auto split: if_splits sum.splits)
qed

lemma submit_code_failure: "submit_code err \<noteq> StatusSuccess"
  by (simp add: submit_code_def)

lemma Submit_success_blobs:
  assumes "Code (Submit api data ns opts) = StatusSuccess"
  shows "\<exists>blobs height. build_blobs api ns data = Inr blobs \<and> api_submit api blobs opts = Inr height \<and>
    rHeight (Submit api data ns opts) = height \<and> IDs (Submit api data ns opts) = map (\<lambda>b. MakeID height (fst b)) blobs \<and>
    SubmittedCount (Submit api data ns opts) = of_nat (length data)"
proof -
  obtain blobs where b: "ns_error api ns = None" "build_blobs api ns data = Inr blobs"
    using assms build_blobs_Inl [of api ns data]
    by (cases "build_blobs api ns data") (auto simp: Submit_def Let_def split: option.splits)
  then have len: "length blobs = length data" using build_blobs_Inr [OF b(2)] by (metis length_map)
  obtain height where "api_submit api blobs opts = Inr height"
    using assms b submit_code_failure
    by (cases "api_submit api blobs opts") (auto simp: Submit_def Let_def split: option.splits if_splits)
  moreover from this have "Submit api data ns opts =
      (let blobSize = sum_list (map (\<lambda>b. of_nat (length b)) data) in
       if blobs = [] then emptyResult\<lparr>Code := StatusSuccess, BlobSize := blobSize, rHeight := height\<rparr>
       else emptyResult\<lparr>Code := StatusSuccess, IDs := map (\<lambda>b. MakeID height (fst b)) blobs,
         SubmittedCount := of_nat (length blobs), rHeight := height, BlobSize := blobSize, Timestamp := now api\<rparr>)"
    using assms b by (auto simp: Submit_def Let_def split: option.splits if_splits)
  ultimately show ?thesis using b len by (cases "blobs = []") (simp_all add: Let_def emptyResult_def)
qed

section \<open>Honest sources\<close>

text \<open>
  The content of a namespace of the DA chain: the blobs of every height and its block time. An RPC
  is honest about it when what it returns of a height are its blobs in order, when it says that there
  are none only if there are none, and when the header times are the block times. It may fail in
  any other way at any time.
\<close>

type_synonym da_content = "(u64 \<Rightarrow> bytes list) \<times> (u64 \<Rightarrow> gotime)"

definition rpc_honest :: "da_rpc \<Rightarrow> bytes \<Rightarrow> da_content \<Rightarrow> bool" where
  "rpc_honest api ns chain \<longleftrightarrow> (\<forall>h.
     (\<forall>bl. api_get_all api h ns = Inr bl \<longrightarrow> map snd bl = fst chain h) \<and>
     (\<forall>e. api_get_all api h ns = Inl e \<and> contains (err_text e) ErrBlobNotFound_text \<longrightarrow> fst chain h = []) \<and>
     api_header_time api h = Inr (snd chain h))"

text \<open>What the readers of the DA layer rely on: a successful retrieval has the blobs of the height,
  a not-found result is returned for a height with no blobs only, and both carry the block time.\<close>

locale da_source =
  fixes retrieve :: "'c \<Rightarrow> u64 \<Rightarrow> bytes \<Rightarrow> ResultRetrieve"
    and honest :: "'c \<Rightarrow> bytes \<Rightarrow> da_content \<Rightarrow> bool"
  assumes success: "honest c ns chain \<Longrightarrow> Code (retrieve c h ns) = StatusSuccess \<Longrightarrow>
      rData (retrieve c h ns) = fst chain h \<and> Timestamp (retrieve c h ns) = snd chain h"
    and not_found: "honest c ns chain \<Longrightarrow> Code (retrieve c h ns) = StatusNotFound \<Longrightarrow>
      fst chain h = [] \<and> Timestamp (retrieve c h ns) = snd chain h"
begin

text \<open>The transactions of a height, empty blobs left out, as a result gives them.\<close>

lemma found_txs:
  assumes "honest c ns chain" and "Code (retrieve c h ns) = StatusSuccess \<or> Code (retrieve c h ns) = StatusNotFound"
  shows "filter (\<lambda>b. b \<noteq> []) (if Code (retrieve c h ns) = StatusSuccess then rData (retrieve c h ns) else []) =
      filter (\<lambda>b. b \<noteq> []) (fst chain h)"
    and "Timestamp (retrieve c h ns) = snd chain h"
  using assms success [OF assms(1)] not_found [OF assms(1)] by auto

end

lemma Retrieve_simps [simp]:
  "Code (with_data b d) = Code b" "rData (with_data b d) = d" "Timestamp (with_data b d) = Timestamp b"
  by (simp_all add: with_data_def)

interpretation client: da_source Retrieve rpc_honest
proof
  fix api ns chain h
  assume honest: "rpc_honest api ns chain"
  then have t: "block_time api h = snd chain h" by (simp add: rpc_honest_def block_time_def getBlockTimestamp_def)
  show "rData (Retrieve api h ns) = fst chain h \<and> Timestamp (Retrieve api h ns) = snd chain h"
    if "Code (Retrieve api h ns) = StatusSuccess"
    using that honest t
    by (auto simp: Retrieve_def rpc_honest_def Let_def emptyResult_def split: option.splits sum.splits if_splits)
  show "fst chain h = [] \<and> Timestamp (Retrieve api h ns) = snd chain h"
    if "Code (Retrieve api h ns) = StatusNotFound"
    using that spec [OF honest [unfolded rpc_honest_def], of h] t
    by (auto simp: Retrieve_def rpc_honest_def Let_def emptyResult_def split: option.splits sum.splits if_splits)
qed

section \<open>Properties\<close>

text \<open>
  C32: Namespaces round-trip. A namespace derived from a name is a well-formed version-0 namespace;
  every well-formed namespace is read back from its 29 bytes and from its hexadecimal form, with or
  without the \<^verbatim>\<open>0x\<close>; and whatever is accepted from bytes is well-formed and has those bytes.
\<close>

theorem namespace_roundtrip:
  "ns_wf (NamespaceFromString s) \<and>
   (ns_wf n \<longrightarrow> NamespaceFromBytes (ns_Bytes n) = Inr n \<and> ParseHexNamespace (HexString n) = Inr n \<and>
      ParseHexNamespace (hex_encode (ns_Bytes n)) = Inr n) \<and>
   (NamespaceFromBytes b = Inr m \<longrightarrow> ns_wf m \<and> ns_Bytes m = b)"
proof (intro conjI impI)
  assume n: "ns_wf n"
  then show "NamespaceFromBytes (ns_Bytes n) = Inr n" by (rule NamespaceFromBytes_Bytes)
  then show "ParseHexNamespace (HexString n) = Inr n" by (simp add: ParseHexNamespace_def HexString_def TrimPrefix_def)
  have "\<not> prefix ''0x'' (hex_encode (ns_Bytes n))"
  proof
    assume "prefix ''0x'' (hex_encode (ns_Bytes n))"
    then have "hex_decode (''0x'' @ s) \<noteq> None" if "hex_encode (ns_Bytes n) = ''0x'' @ s" for s
      using that hex_decode_encode [of "ns_Bytes n"] by simp
    moreover have "hex_decode (''0x'' @ s) = None" for s by (simp add: hex_value_def)
    ultimately show False using \<open>prefix ''0x'' (hex_encode (ns_Bytes n))\<close> by (auto simp: prefix_def)
  qed
  then show "ParseHexNamespace (hex_encode (ns_Bytes n)) = Inr n"
    using NamespaceFromBytes_Bytes [OF n] by (simp add: ParseHexNamespace_def TrimPrefix_def)
qed (auto simp: NamespaceFromString_wf dest: Bytes_NamespaceFromBytes)

theorem namespace_roundtrip_witness:
  "ParseHexNamespace (HexString (NamespaceFromString ''rollup'')) = Inr (NamespaceFromString ''rollup'')"
  using namespace_roundtrip [of "''rollup''" "NamespaceFromString ''rollup''"] by blast

text \<open>
  C31: A successful submission is complete: every blob was within the size limit and was handed to the
  RPC in order, the count is the number of blobs, and each identifier splits back into the height of
  the submission and the commitment of its blob.
\<close>

theorem submit_success:
  assumes "Code (Submit api data ns opts) = StatusSuccess"
    and "\<forall>raw com. blob_commitment api ns raw = Inr com \<longrightarrow> com \<noteq> []"
  shows "\<exists>coms. api_submit api (zip coms data) opts = Inr (rHeight (Submit api data ns opts)) \<and>
    length coms = length data \<and> SubmittedCount (Submit api data ns opts) = of_nat (length data) \<and>
    (\<forall>raw \<in> set data. length raw \<le> DefaultMaxBlobSize) \<and>
    map rpc_SplitID (IDs (Submit api data ns opts)) = map (\<lambda>com. (rHeight (Submit api data ns opts), Some com)) coms"
proof -
  obtain blobs height where b: "build_blobs api ns data = Inr blobs" "api_submit api blobs opts = Inr height"
    "rHeight (Submit api data ns opts) = height" "IDs (Submit api data ns opts) = map (\<lambda>b. MakeID height (fst b)) blobs"
    "SubmittedCount (Submit api data ns opts) = of_nat (length data)"
    using Submit_success_blobs [OF assms(1)] by blast
  have s: "map snd blobs = data" and a: "list_all (\<lambda>(com, raw). length raw \<le> DefaultMaxBlobSize \<and> blob_commitment api ns raw = Inr com) blobs"
    using build_blobs_Inr [OF b(1)] by blast+
  have sizes: "\<forall>raw \<in> set data. length raw \<le> DefaultMaxBlobSize" using a s [symmetric] by (auto simp: list_all_iff)
  have z: "zip (map fst blobs) data = blobs" using s zip_map_fst_snd by metis
  have "rpc_SplitID (MakeID height (fst x)) = (height, Some (fst x))" if "x \<in> set blobs" for x
    using that a assms(2) by (intro rpc_SplitID_MakeID) (auto simp: list_all_iff)
  then show ?thesis
    using b s sizes z by (intro exI [of _ "map fst blobs"]) auto
qed

definition demo_rpc :: "bytes list \<Rightarrow> da_rpc" where
  "demo_rpc content = \<lparr>ns_error = (\<lambda>ns. None), blob_commitment = (\<lambda>ns raw. Inr (1 # raw)), options_error = (\<lambda>opts. None),
     api_submit = (\<lambda>blobs opts. Inr 7), api_get_all = (\<lambda>h ns. Inr (map (\<lambda>d. (1 # d, d)) content)),
     api_get = (\<lambda>h ns com. Inr (Some (tl com))), api_get_proof = (\<lambda>h ns com. Inr com),
     api_included = (\<lambda>h ns p com. p = com), proof_error = (\<lambda>p. None), api_header_time = (\<lambda>h. Inr (sint h)),
     api_head = Inr (Some 9), now = 0\<rparr>"

theorem submit_success_witness:
  "map rpc_SplitID (IDs (Submit (demo_rpc []) [[1, 2], []] [] [])) = [(7, Some [1, 1, 2]), (7, Some [1])]"
proof -
  have s: "Code (Submit (demo_rpc []) [[1, 2], []] [] []) = StatusSuccess"
    "rHeight (Submit (demo_rpc []) [[1, 2], []] [] []) = 7"
    "IDs (Submit (demo_rpc []) [[1, 2], []] [] []) = [MakeID 7 [1, 1, 2], MakeID 7 [1]]"
    by (simp_all add: Submit_def demo_rpc_def DefaultMaxBlobSize_def Let_def)
  show ?thesis
    using submit_success [OF s(1)] unfolding s(2,3)
    by (simp add: demo_rpc_def rpc_SplitID_MakeID)
qed

end
