(* ===== verification/Forced_Inclusion.thy ===== *)
theory Forced_Inclusion
  imports DA_Layer Datastore Epoch
begin

text \<open>
  The retrieval of forced-inclusion transactions from the DA layer:
  \<^verbatim>\<open>src/block/internal/da/async_block_retriever.go\<close>, which prefetches the blocks of the namespace
  into a cache in the background, and \<^verbatim>\<open>src/block/internal/da/forced_inclusion_retriever.go\<close>, which
  collects the transactions of an epoch from the cache and, for what is missing, from the client.

  The background loop is the operation \<^verbatim>\<open>prefetchBlocks\<close>, which a run of the retriever may interleave
  with the retrievals in any way (\<^verbatim>\<open>fi_reach\<close>). The theory shows that the cache never changes what is
  retrieved: an epoch has exactly its transactions, in order, whatever was prefetched.
\<close>

section \<open>The prefetching block retriever\<close>

record BlockData =
  bdHeight :: u64
  bdTimestamp :: gotime
  Blobs :: "bytes list"

record pb_BlockData =
  pbb_height :: u64
  pbb_timestamp :: int
  pbb_blobs :: "bytes list"

text \<open>The in-memory datastore of the cache, its empty instance, and the codec of a cached block.\<close>

record 'db async_env =
  cache_ds :: "'db datastore"
  empty_cache :: 'db
  c_block :: "pb_BlockData codec"

record 'db asyncBlockRetriever =
  ar_namespace :: bytes
  ar_daStartHeight :: u64
  cache :: 'db
  currentDAHeight :: u64
  prefetchWindow :: u64

definition NewAsyncBlockRetriever :: "'db async_env \<Rightarrow> bytes \<Rightarrow> u64 \<Rightarrow> u64 \<Rightarrow> 'db asyncBlockRetriever" where
  "NewAsyncBlockRetriever env namespace daStartHeight window =
     \<lparr>ar_namespace = namespace, ar_daStartHeight = daStartHeight, cache = empty_cache env,
      currentDAHeight = daStartHeight, prefetchWindow = (if window = 0 then 10 else window)\<rparr>"

text \<open>The compare-and-swap loop ends with the greater of the two heights.\<close>

definition UpdateCurrentHeight :: "'db asyncBlockRetriever \<Rightarrow> u64 \<Rightarrow> 'db asyncBlockRetriever" where
  "UpdateCurrentHeight f height =
     (if height \<le> currentDAHeight f then f else f\<lparr>currentDAHeight := height\<rparr>)"

definition newBlockDataKey :: "'db async_env \<Rightarrow> u64 \<Rightarrow> string" where
  "newBlockDataKey env height = ds_new_key (cache_ds env) (''/block/'' @ format_uint height)"

definition GetCachedBlock :: "'db async_env \<Rightarrow> 'db asyncBlockRetriever \<Rightarrow> u64 \<Rightarrow> BlockData option result" where
  "GetCachedBlock env f daHeight =
     (if ar_namespace f = [] then Inr None
      else if daHeight < ar_daStartHeight f then Inl (Msg ''DA height is before the configured start height'')
      else (case ds_get (cache_ds env) (cache f) (newBlockDataKey env daHeight) of
              Inl e \<Rightarrow> if errors_is e ErrNotFound then Inr None else Inl (Wrap ''failed to get cached block'' e)
            | Inr data \<Rightarrow>
                (case dec (c_block env) data of
                   Inl e \<Rightarrow> Inl (Wrap ''failed to unmarshal cached block'' e)
                 | Inr p \<Rightarrow> Inr (Some \<lparr>bdHeight = pbb_height p, bdTimestamp = pbb_timestamp p, Blobs = pbb_blobs p\<rparr>))))"

definition nonempty_blobs :: "bytes list \<Rightarrow> bytes list" where
  "nonempty_blobs blobs = filter (\<lambda>b. b \<noteq> []) blobs"

definition fetchAndCacheBlock :: "'db async_env \<Rightarrow> da_rpc \<Rightarrow> 'db asyncBlockRetriever \<Rightarrow> u64 \<Rightarrow> 'db asyncBlockRetriever" where
  "fetchAndCacheBlock env api f height =
     (let result = Retrieve api height (ar_namespace f) in
      if Code result = StatusNotFound \<or> Code result = StatusSuccess
      then let blobs = (if Code result = StatusSuccess then nonempty_blobs (rData result) else []) in
        (case enc (c_block env) \<lparr>pbb_height = height, pbb_timestamp = unix_nano (Timestamp result), pbb_blobs = blobs\<rparr> of
           Inl e \<Rightarrow> f
         | Inr data \<Rightarrow> f\<lparr>cache := snd (ds_put (cache_ds env) (cache f) (newBlockDataKey env height) data)\<rparr>)
      else f)"

lemma fetchAndCacheBlock_frame [simp]:
  "prefetchWindow (fetchAndCacheBlock env api f h) = prefetchWindow f"
  "ar_namespace (fetchAndCacheBlock env api f h) = ar_namespace f"
  "ar_daStartHeight (fetchAndCacheBlock env api f h) = ar_daStartHeight f"
  "currentDAHeight (fetchAndCacheBlock env api f h) = currentDAHeight f"
  by (simp_all add: fetchAndCacheBlock_def Let_def split: sum.splits)

lemma window_progress: "i < w \<Longrightarrow> unat (w :: u64) - unat (i + 1) < unat w - unat i"
  using unat_u64_Suc [of i w] by (simp add: word_less_nat_alt)

function prefetch_from :: "'db async_env \<Rightarrow> da_rpc \<Rightarrow> u64 \<Rightarrow> u64 \<Rightarrow> 'db asyncBlockRetriever \<Rightarrow> 'db asyncBlockRetriever" where
  "prefetch_from env api currentHeight i f =
     (if i < prefetchWindow f
      then let targetHeight = currentHeight + i in
        prefetch_from env api currentHeight (i + 1)
          (if is_ok (ds_get (cache_ds env) (cache f) (newBlockDataKey env targetHeight)) then f
           else fetchAndCacheBlock env api f targetHeight)
      else f)"
  by pat_completeness auto

termination
  by (relation "measure (\<lambda>(env, api, c, i, f). unat (prefetchWindow f) - unat i)") (simp_all add: window_progress)

declare prefetch_from.simps [simp del]

text \<open>\<^verbatim>\<open>fmt.Sscanf(key, "/block/%d", &height)\<close>: the digits behind the prefix, an error when there are
  none or when they do not fit 64 bits.\<close>

definition sscanf_block :: "string \<Rightarrow> u64 option" where
  "sscanf_block key =
     (if prefix ''/block/'' key
      then let ds = takeWhile (\<lambda>c. 48 \<le> (of_char c :: nat) \<and> (of_char c :: nat) \<le> 57) (drop 7 key);
               n = of_digits 10 (map (\<lambda>c. of_char c - 48) ds) in
        if ds = [] \<or> n \<ge> 2 ^ 64 then None else Some (of_nat n)
      else None)"

definition cleanup_entry :: "'db async_env \<Rightarrow> u64 \<Rightarrow> (string \<times> bytes) result \<Rightarrow> 'db \<Rightarrow> 'db" where
  "cleanup_entry env threshold res db =
     (case res of
        Inl e \<Rightarrow> db
      | Inr (rkey, rvalue) \<Rightarrow>
          let key = ds_new_key (cache_ds env) rkey in
          (case sscanf_block key of
             None \<Rightarrow> db
           | Some height \<Rightarrow> if height < threshold then snd (ds_delete (cache_ds env) db key) else db))"

definition cleanupOldBlocks :: "'db async_env \<Rightarrow> u64 \<Rightarrow> 'db asyncBlockRetriever \<Rightarrow> 'db asyncBlockRetriever" where
  "cleanupOldBlocks env currentHeight f =
     (if currentHeight < prefetchWindow f then f
      else (case ds_query_prefix (cache_ds env) (cache f) ''/block/'' of
              Inl e \<Rightarrow> f
            | Inr results \<Rightarrow>
                f\<lparr>cache := fold (cleanup_entry env (currentHeight - prefetchWindow f)) results (cache f)\<rparr>))"

definition prefetchBlocks :: "'db async_env \<Rightarrow> da_rpc \<Rightarrow> 'db asyncBlockRetriever \<Rightarrow> 'db asyncBlockRetriever" where
  "prefetchBlocks env api f =
     (if ar_namespace f = [] then f
      else let currentHeight = currentDAHeight f in
        cleanupOldBlocks env currentHeight (prefetch_from env api currentHeight 0 f))"

section \<open>The forced-inclusion retriever\<close>

record 'db forcedInclusionRetriever =
  fr_client :: client
  fr_daEpochSize :: u64
  fr_daStartHeight :: u64
  asyncFetcher :: "'db asyncBlockRetriever"

record ForcedInclusionEvent =
  evTimestamp :: gotime
  StartDaHeight :: u64
  EndDaHeight :: u64
  evTxs :: "bytes list"

definition NewForcedInclusionRetriever ::
  "'db async_env \<Rightarrow> client \<Rightarrow> u64 \<Rightarrow> u64 \<Rightarrow> 'db forcedInclusionRetriever" where
  "NewForcedInclusionRetriever env c daStartHeight daEpochSize =
     \<lparr>fr_client = c, fr_daEpochSize = daEpochSize, fr_daStartHeight = daStartHeight,
      asyncFetcher = NewAsyncBlockRetriever env (forcedNamespaceBz c) daStartHeight (daEpochSize * 2)\<rparr>"

text \<open>The blocks found in the cache; an error counts as a miss.\<close>

definition cached_block :: "'db async_env \<Rightarrow> 'db asyncBlockRetriever \<Rightarrow> u64 \<Rightarrow> BlockData option" where
  "cached_block env f h = (case GetCachedBlock env f h of Inl e \<Rightarrow> None | Inr b \<Rightarrow> b)"

text \<open>The blocks fetched from the client, and whether a retrieval failed; a height the DA layer has not
  reached ends the retrieval.\<close>

fun sync_fetch :: "da_rpc \<Rightarrow> bytes \<Rightarrow> u64 list \<Rightarrow> ((u64 \<times> BlockData) list \<times> bool) result" where
  "sync_fetch api ns [] = Inr ([], False)"
| "sync_fetch api ns (h # hs) =
     (let result = Retrieve api h ns in
      if Code result = StatusHeightFromFuture
      then Inl (Wrap ''height not yet available'' (Sentinel ErrHeightFromFuture))
      else (case sync_fetch api ns hs of
              Inl e \<Rightarrow> Inl e
            | Inr (blocks, failed) \<Rightarrow>
                if Code result = StatusNotFound
                then Inr ((h, \<lparr>bdHeight = 0, bdTimestamp = Timestamp result, Blobs = []\<rparr>) # blocks, failed)
                else if Code result \<noteq> StatusSuccess then Inr (blocks, True)
                else Inr ((h, \<lparr>bdHeight = 0, bdTimestamp = Timestamp result, Blobs = rData result\<rparr>) # blocks, failed)))"

definition add_block :: "BlockData option \<Rightarrow> ForcedInclusionEvent \<Rightarrow> ForcedInclusionEvent" where
  "add_block b event =
     (case b of
        None \<Rightarrow> event
      | Some block \<Rightarrow> event\<lparr>evTxs := evTxs event @ nonempty_blobs (Blobs block),
          evTimestamp := (if bdTimestamp block > evTimestamp event then bdTimestamp block else evTimestamp event)\<rparr>)"

definition retrieve_epoch ::
  "'db async_env \<Rightarrow> da_rpc \<Rightarrow> 'db forcedInclusionRetriever \<Rightarrow> u64 \<Rightarrow> u64 \<Rightarrow> u64 \<Rightarrow> u64 list \<Rightarrow> ForcedInclusionEvent result" where
  "retrieve_epoch env api r daHeight epochStart epochEnd heights =
     (let cached = cached_block env (asyncFetcher r);
          missing = filter (\<lambda>h. cached h = None) heights in
      case sync_fetch api (forcedNamespaceBz (fr_client r)) missing of
        Inl e \<Rightarrow> Inl e
      | Inr (fetched, failed) \<Rightarrow>
          let event = fold (\<lambda>h. add_block (case cached h of Some b \<Rightarrow> Some b | None \<Rightarrow> map_of fetched h)) heights
                \<lparr>evTimestamp = zero_time, StartDaHeight = epochStart, EndDaHeight = epochEnd, evTxs = []\<rparr> in
          Inr (if failed then event\<lparr>StartDaHeight := daHeight, EndDaHeight := daHeight, evTxs := []\<rparr> else event))"

definition RetrieveForcedIncludedTxs ::
  "'db async_env \<Rightarrow> da_rpc \<Rightarrow> 'db forcedInclusionRetriever \<Rightarrow> u64 \<Rightarrow>
     (ForcedInclusionEvent result \<times> 'db forcedInclusionRetriever) option" where
  "RetrieveForcedIncludedTxs env api r daHeight =
     (if \<not> hasForcedNamespace (fr_client r) then Some (Inl (Sentinel ErrForceInclusionNotConfigured), r)
      else if daHeight < fr_daStartHeight r
      then Some (Inl (Msg ''DA height is before the configured start height''), r)
      else let (epochStart, epochEnd, currentEpochNumber) =
                 CalculateEpochBoundaries daHeight (fr_daStartHeight r) (fr_daEpochSize r);
               r1 = r\<lparr>asyncFetcher := UpdateCurrentHeight (asyncFetcher r) daHeight\<rparr> in
        if daHeight \<noteq> epochEnd
        then Some (Inr \<lparr>evTimestamp = zero_time, StartDaHeight = daHeight, EndDaHeight = daHeight, evTxs = []\<rparr>, r1)
        else (case u64_range epochStart epochEnd of
                None \<Rightarrow> None
              | Some heights \<Rightarrow> Some (retrieve_epoch env api r1 daHeight epochStart epochEnd heights, r1)))"

section \<open>What the cache holds\<close>

definition async_ok :: "'db async_env \<Rightarrow> ('db \<Rightarrow> view) \<Rightarrow> bool" where
  "async_ok env vw \<longleftrightarrow> datastore_ok (cache_ds env) vw \<and> codec_ok (c_block env) \<and> vw (empty_cache env) = Map.empty"

text \<open>The block times of the DA chain lie in the range of \<^verbatim>\<open>UnixNano\<close>.\<close>

definition times_ok :: "da_content \<Rightarrow> bool" where
  "times_ok chain \<longleftrightarrow> (\<forall>h. - 9223372036854775808 \<le> snd chain h \<and> snd chain h < 9223372036854775808)"

lemma unix_nano_id: "times_ok chain \<Longrightarrow> unix_nano (snd chain h) = snd chain h"
  by (simp add: times_ok_def unix_nano_def sint_sbintrunc' signed_take_bit_int_eq_self)

lemma block_key_path: "''/block/'' @ format_uint h = path [''block'', format_uint h]"
  by (simp add: path_def)

lemma block_key_inject:
  assumes "async_ok env vw"
  shows "newBlockDataKey env h = newBlockDataKey env k \<longleftrightarrow> h = k"
proof -
  have p: "list_all plain_key [''block'', format_uint x]" for x
    by (simp) (simp add: plain_key_def)
  then have "newBlockDataKey env x = path [''block'', format_uint x]" for x
    using path_keysD [of "cache_ds env" vw "[''block'', format_uint x]"] assms
    unfolding newBlockDataKey_def block_key_path by (simp add: async_ok_def)
  then show ?thesis using path_inject [OF p p] by simp
qed

text \<open>The cached blocks are blocks of the chain.\<close>

definition right_block :: "'db async_env \<Rightarrow> da_content \<Rightarrow> u64 \<Rightarrow> bytes \<Rightarrow> bool" where
  "right_block env chain h bz \<longleftrightarrow> (\<exists>p. dec (c_block env) bz = Inr p \<and>
     nonempty_blobs (pbb_blobs p) = nonempty_blobs (fst chain h) \<and> pbb_timestamp p = snd chain h)"

definition cache_ok :: "'db async_env \<Rightarrow> ('db \<Rightarrow> view) \<Rightarrow> da_content \<Rightarrow> 'db \<Rightarrow> bool" where
  "cache_ok env vw chain db \<longleftrightarrow> (\<forall>h bz. vw db (newBlockDataKey env h) = Some bz \<longrightarrow> right_block env chain h bz)"

lemma nonempty_blobs_idem [simp]: "nonempty_blobs (nonempty_blobs bs) = nonempty_blobs bs" "nonempty_blobs [] = []"
  by (simp_all add: nonempty_blobs_def)

lemma fetch_cache_ok:
  assumes ok: "async_ok env vw" "times_ok chain" and honest: "rpc_honest api (ar_namespace f) chain"
    and c: "cache_ok env vw chain (cache f)"
  shows "cache_ok env vw chain (cache (fetchAndCacheBlock env api f h))"
proof -
  let ?r = "Retrieve api h (ar_namespace f)"
  let ?blobs = "if Code ?r = StatusSuccess then nonempty_blobs (rData ?r) else []"
  let ?p = "\<lparr>pbb_height = h, pbb_timestamp = unix_nano (Timestamp ?r), pbb_blobs = ?blobs\<rparr>"
  show ?thesis
  proof (cases "(Code ?r = StatusNotFound \<or> Code ?r = StatusSuccess) \<and> is_ok (enc (c_block env) ?p)")
    case False
    then show ?thesis using c by (auto simp: fetchAndCacheBlock_def Let_def is_ok_def split: sum.splits)
  next
    case True
    then obtain data where data: "enc (c_block env) ?p = Inr data" by (auto simp: is_ok_def split: sum.splits)
    have "nonempty_blobs ?blobs = nonempty_blobs (fst chain h) \<and> Timestamp ?r = snd chain h"
      using client.found_txs [OF honest, of h] True by (auto simp: nonempty_blobs_def)
    then have right: "right_block env chain h data"
      using codec_okD [OF _ UNIV_I data] ok unix_nano_id [OF ok(2)] by (auto simp: right_block_def async_ok_def)
    obtain e db' where put: "ds_put (cache_ds env) (cache f) (newBlockDataKey env h) data = (e, db')"
      by (cases "ds_put (cache_ds env) (cache f) (newBlockDataKey env h) data")
    have "vw db' = vw (cache f) \<or> vw db' = (vw (cache f))(newBlockDataKey env h \<mapsto> data)"
      using datastore_putD [of "cache_ds env" vw "cache f" "newBlockDataKey env h" data] ok put
      by (cases e) (auto simp: async_ok_def)
    then have "cache_ok env vw chain db'"
      using c right block_key_inject [OF ok(1)] by (auto simp: cache_ok_def split: if_splits)
    then show ?thesis using True data put by (auto simp: fetchAndCacheBlock_def Let_def)
  qed
qed

lemma prefetch_from_frame:
  "ar_namespace (prefetch_from env api c i f) = ar_namespace f \<and>
   ar_daStartHeight (prefetch_from env api c i f) = ar_daStartHeight f"
  by (induction env api c i f rule: prefetch_from.induct) (subst (1 2) prefetch_from.simps, simp add: Let_def)

lemma prefetch_from_cache_ok:
  assumes ok: "async_ok env vw" "times_ok chain" and honest: "rpc_honest api (ar_namespace f) chain"
    and c: "cache_ok env vw chain (cache f)"
  shows "cache_ok env vw chain (cache (prefetch_from env api cur i f))"
  using honest c
proof (induction "unat (prefetchWindow f) - unat i" arbitrary: i f rule: less_induct)
  case less
  let ?g = "if is_ok (ds_get (cache_ds env) (cache f) (newBlockDataKey env (cur + i))) then f
    else fetchAndCacheBlock env api f (cur + i)"
  show ?case
  proof (cases "i < prefetchWindow f")
    case True
    have "cache_ok env vw chain (cache ?g)" using fetch_cache_ok [OF ok less.prems] less.prems by simp
    then have "cache_ok env vw chain (cache (prefetch_from env api cur (i + 1) ?g))"
      using less.prems window_progress [OF True] by (intro less.hyps) simp_all
    then show ?thesis using True by (subst prefetch_from.simps) (simp add: Let_def)
  qed (use less.prems in \<open>simp add: prefetch_from.simps\<close>)
qed

lemma cleanup_cache_ok:
  assumes ok: "async_ok env vw" and c: "cache_ok env vw chain db"
  shows "cache_ok env vw chain (cleanup_entry env t res db)"
proof -
  have "cache_ok env vw chain (snd (ds_delete (cache_ds env) db k))" for k
    using datastore_deleteD [of "cache_ds env" vw db k] ok c
    by (cases "ds_delete (cache_ds env) db k"; cases "fst (ds_delete (cache_ds env) db k)")
      (auto simp: async_ok_def cache_ok_def split: if_splits)
  then show ?thesis using c by (auto simp: cleanup_entry_def Let_def split: sum.splits option.splits)
qed

lemma cleanup_fold_cache_ok:
  "async_ok env vw \<Longrightarrow> cache_ok env vw chain db \<Longrightarrow> cache_ok env vw chain (fold (cleanup_entry env t) rs db)"
  by (induction rs arbitrary: db) (simp_all add: cleanup_cache_ok)

lemma prefetchBlocks_cache_ok:
  assumes "async_ok env vw" "times_ok chain" "rpc_honest api (ar_namespace f) chain" "cache_ok env vw chain (cache f)"
  shows "cache_ok env vw chain (cache (prefetchBlocks env api f))"
  using assms prefetch_from_cache_ok [OF assms] cleanup_fold_cache_ok [OF assms(1)]
  by (auto simp: prefetchBlocks_def cleanupOldBlocks_def Let_def split: sum.splits)

lemma prefetchBlocks_frame [simp]:
  "ar_namespace (prefetchBlocks env api f) = ar_namespace f"
  "ar_daStartHeight (prefetchBlocks env api f) = ar_daStartHeight f"
  using prefetch_from_frame [of env api _ _ f]
  by (auto simp: prefetchBlocks_def cleanupOldBlocks_def Let_def split: sum.splits)

section \<open>Runs of a retriever\<close>

text \<open>A retriever as created, after a background prefetch and after a retrieval, each against an
  honest RPC that may fail in its own way.\<close>

inductive fi_reach :: "'db async_env \<Rightarrow> da_content \<Rightarrow> client \<Rightarrow> u64 \<Rightarrow> u64 \<Rightarrow> 'db forcedInclusionRetriever \<Rightarrow> bool"
  for env chain c start sz where
  fi_new: "fi_reach env chain c start sz (NewForcedInclusionRetriever env c start sz)"
| fi_prefetch: "fi_reach env chain c start sz r \<Longrightarrow> rpc_honest api (forcedNamespaceBz c) chain \<Longrightarrow>
    fi_reach env chain c start sz (r\<lparr>asyncFetcher := prefetchBlocks env api (asyncFetcher r)\<rparr>)"
| fi_retrieve: "fi_reach env chain c start sz r \<Longrightarrow> rpc_honest api (forcedNamespaceBz c) chain \<Longrightarrow>
    RetrieveForcedIncludedTxs env api r h = Some (res, r') \<Longrightarrow> fi_reach env chain c start sz r'"

definition fi_inv :: "'db async_env \<Rightarrow> ('db \<Rightarrow> view) \<Rightarrow> da_content \<Rightarrow> client \<Rightarrow> u64 \<Rightarrow> u64 \<Rightarrow> 'db forcedInclusionRetriever \<Rightarrow> bool" where
  "fi_inv env vw chain c start sz r \<longleftrightarrow> fr_client r = c \<and> fr_daStartHeight r = start \<and> fr_daEpochSize r = sz \<and>
     ar_namespace (asyncFetcher r) = forcedNamespaceBz c \<and> ar_daStartHeight (asyncFetcher r) = start \<and>
     cache_ok env vw chain (cache (asyncFetcher r))"

lemma UpdateCurrentHeight_frame [simp]:
  "ar_namespace (UpdateCurrentHeight f h) = ar_namespace f" "cache (UpdateCurrentHeight f h) = cache f"
  "ar_daStartHeight (UpdateCurrentHeight f h) = ar_daStartHeight f"
  by (simp_all add: UpdateCurrentHeight_def)

lemma RetrieveForced_state:
  "RetrieveForcedIncludedTxs env api r h = Some (res, r') \<Longrightarrow>
     r' = r \<or> r' = r\<lparr>asyncFetcher := UpdateCurrentHeight (asyncFetcher r) h\<rparr>"
  by (auto simp: RetrieveForcedIncludedTxs_def Let_def split: if_splits prod.splits option.splits)

lemma fi_reach_inv:
  assumes ok: "async_ok env vw" "times_ok chain"
  shows "fi_reach env chain c start sz r \<Longrightarrow> fi_inv env vw chain c start sz r"
proof (induction rule: fi_reach.induct)
  case fi_new
  then show ?case using ok(1)
    by (simp add: fi_inv_def NewForcedInclusionRetriever_def NewAsyncBlockRetriever_def cache_ok_def async_ok_def)
next
  case (fi_prefetch r api)
  then show ?case using prefetchBlocks_cache_ok [OF ok]
    by (simp add: fi_inv_def)
next
  case (fi_retrieve r api h res r')
  then show ?case using RetrieveForced_state [OF fi_retrieve(3)] by (auto simp: fi_inv_def)
qed

section \<open>The transactions of an epoch\<close>

definition epoch_txs :: "da_content \<Rightarrow> u64 list \<Rightarrow> bytes list" where
  "epoch_txs chain hs = concat (map (\<lambda>h. nonempty_blobs (fst chain h)) hs)"

definition epoch_time :: "da_content \<Rightarrow> u64 list \<Rightarrow> gotime" where
  "epoch_time chain hs = fold (\<lambda>h t. max t (snd chain h)) hs zero_time"

text \<open>A block of the chain, as a retriever has it.\<close>

definition shows_height :: "da_content \<Rightarrow> u64 \<Rightarrow> BlockData \<Rightarrow> bool" where
  "shows_height chain h b \<longleftrightarrow> nonempty_blobs (Blobs b) = nonempty_blobs (fst chain h) \<and> bdTimestamp b = snd chain h"

lemma cached_block_shows:
  assumes "async_ok env vw" "cache_ok env vw chain (cache f)" "cached_block env f h = Some b"
  shows "shows_height chain h b"
proof -
  obtain data p where d: "ds_get (cache_ds env) (cache f) (newBlockDataKey env h) = Inr data"
    and p: "dec (c_block env) data = Inr p"
    and b: "b = \<lparr>bdHeight = pbb_height p, bdTimestamp = pbb_timestamp p, Blobs = pbb_blobs p\<rparr>"
    using assms(3) by (auto simp: cached_block_def GetCachedBlock_def split: sum.splits if_splits)
  have "vw (cache f) (newBlockDataKey env h) = Some data"
    using datastore_getD(1) [OF _ d] assms(1) by (auto simp: async_ok_def)
  then have "right_block env chain h data" using assms(2) by (auto simp: cache_ok_def)
  then show ?thesis by (simp add: right_block_def p b shows_height_def)
qed

definition usable :: "da_rpc \<Rightarrow> bytes \<Rightarrow> u64 \<Rightarrow> bool" where
  "usable api ns h \<longleftrightarrow> Code (Retrieve api h ns) = StatusSuccess \<or> Code (Retrieve api h ns) = StatusNotFound"

definition from_future :: "da_rpc \<Rightarrow> bytes \<Rightarrow> u64 \<Rightarrow> bool" where
  "from_future api ns h \<longleftrightarrow> Code (Retrieve api h ns) = StatusHeightFromFuture"

lemma sync_fetch_Inl: "sync_fetch api ns hs = Inl e \<longleftrightarrow>
    e = Wrap ''height not yet available'' (Sentinel ErrHeightFromFuture) \<and> (\<exists>h \<in> set hs. from_future api ns h)"
  by (induction hs) (auto simp: Let_def from_future_def split: sum.splits prod.splits)

lemma sync_fetch_Inr:
  assumes "rpc_honest api ns chain" and "sync_fetch api ns hs = Inr (blocks, failed)"
  shows "(\<forall>(h, b) \<in> set blocks. shows_height chain h b) \<and> (failed \<longleftrightarrow> (\<exists>h \<in> set hs. \<not> usable api ns h)) \<and>
    (\<not> failed \<longrightarrow> map fst blocks = hs)"
  using assms(2)
proof (induction hs arbitrary: blocks failed)
  case Nil
  then show ?case by simp
next
  case (Cons h hs)
  then obtain bs fl where r: "sync_fetch api ns hs = Inr (bs, fl)"
    by (auto simp: Let_def split: if_splits sum.splits prod.splits)
  note IH = Cons.IH [OF r]
  have s: "Code (Retrieve api h ns) = StatusSuccess \<Longrightarrow>
      shows_height chain h \<lparr>bdHeight = 0, bdTimestamp = Timestamp (Retrieve api h ns), Blobs = rData (Retrieve api h ns)\<rparr>"
    "Code (Retrieve api h ns) = StatusNotFound \<Longrightarrow>
      shows_height chain h \<lparr>bdHeight = 0, bdTimestamp = Timestamp (Retrieve api h ns), Blobs = []\<rparr>"
    using client.success [OF assms(1), of h] client.not_found [OF assms(1), of h] by (simp_all add: shows_height_def)
  show ?case using Cons.prems r IH s
    by (auto simp: Let_def usable_def split: if_splits)
qed

lemma add_blocks_exact:
  assumes "\<forall>h \<in> set hs. \<exists>b. f h = Some b \<and> shows_height chain h b"
  shows "fold (\<lambda>h. add_block (f h)) hs ev =
    ev\<lparr>evTxs := evTxs ev @ epoch_txs chain hs, evTimestamp := fold (\<lambda>h t. max t (snd chain h)) hs (evTimestamp ev)\<rparr>"
  using assms
proof (induction hs arbitrary: ev)
  case Nil
  then show ?case by (simp add: epoch_txs_def)
next
  case (Cons h hs)
  then obtain b where "f h = Some b" "shows_height chain h b" by auto
  then have "add_block (f h) ev = ev\<lparr>evTxs := evTxs ev @ nonempty_blobs (fst chain h), evTimestamp := max (evTimestamp ev) (snd chain h)\<rparr>"
    by (auto simp: add_block_def shows_height_def max_def)
  then show ?case using Cons by (simp add: epoch_txs_def)
qed

definition exact_event :: "da_content \<Rightarrow> u64 \<Rightarrow> u64 \<Rightarrow> ForcedInclusionEvent" where
  "exact_event chain es ee = \<lparr>evTimestamp = epoch_time chain (u64_upto es ee), StartDaHeight = es, EndDaHeight = ee,
     evTxs = epoch_txs chain (u64_upto es ee)\<rparr>"

lemma retrieve_epoch_result:
  assumes ok: "async_ok env vw" and inv: "fi_inv env vw chain c start sz r"
    and honest: "rpc_honest api (forcedNamespaceBz c) chain"
  shows "case retrieve_epoch env api r h es ee (u64_upto es ee) of
    Inl e \<Rightarrow> errors_is e ErrHeightFromFuture \<and> (\<exists>k \<in> {es..ee}. from_future api (forcedNamespaceBz c) k)
  | Inr ev \<Rightarrow> ev = exact_event chain es ee \<or>
      StartDaHeight ev = h \<and> EndDaHeight ev = h \<and> evTxs ev = [] \<and> (\<exists>k \<in> {es..ee}. \<not> usable api (forcedNamespaceBz c) k \<and> \<not> from_future api (forcedNamespaceBz c) k)"
proof -
  let ?ns = "forcedNamespaceBz c" and ?hs = "u64_upto es ee" and ?cached = "cached_block env (asyncFetcher r)"
  let ?missing = "filter (\<lambda>h. ?cached h = None) ?hs"
  have c: "fr_client r = c" "cache_ok env vw chain (cache (asyncFetcher r))" using inv by (simp_all add: fi_inv_def)
  show ?thesis
  proof (cases "sync_fetch api ?ns ?missing")
    case (Inl e)
    then show ?thesis using sync_fetch_Inl [of api ?ns ?missing e]
      by (auto simp: retrieve_epoch_def Let_def c set_u64_upto)
  next
    case (Inr bf)
    obtain blocks failed where bf: "bf = (blocks, failed)" by (cases bf)
    note s = sync_fetch_Inr [OF honest Inr [unfolded bf]]
    show ?thesis
    proof (cases failed)
      case True
      then obtain k where "k \<in> set ?missing" "\<not> usable api ?ns k" using s by blast
      moreover have "\<not> (\<exists>h \<in> set ?missing. from_future api ?ns h)" using sync_fetch_Inl [of api ?ns ?missing] Inr by auto
      ultimately have "k \<in> {es..ee}" "\<not> usable api ?ns k" "\<not> from_future api ?ns k" by (auto simp: set_u64_upto)
      then show ?thesis using True Inr bf by (auto simp: retrieve_epoch_def Let_def c)
    next
      case False
      have "\<exists>b. (case ?cached h of Some b \<Rightarrow> Some b | None \<Rightarrow> map_of blocks h) = Some b \<and> shows_height chain h b"
        if h: "h \<in> set ?hs" for h
      proof (cases "?cached h")
        case None
        then have "h \<in> set ?missing" using h by simp
        then have "h \<in> fst ` set blocks" using s False by (metis image_set)
        then obtain b where "map_of blocks h = Some b" using weak_map_of_SomeI by fastforce
        then show ?thesis using None s map_of_SomeD by fastforce
      next
        case (Some b)
        then show ?thesis using cached_block_shows [OF ok c(2)] by simp
      qed
      then have "fold (\<lambda>h. add_block (case ?cached h of Some b \<Rightarrow> Some b | None \<Rightarrow> map_of blocks h)) ?hs ev =
          ev\<lparr>evTxs := evTxs ev @ epoch_txs chain ?hs, evTimestamp := fold (\<lambda>h t. max t (snd chain h)) ?hs (evTimestamp ev)\<rparr>" for ev
        by (intro add_blocks_exact) blast
      then show ?thesis using False Inr bf
        by (simp add: retrieve_epoch_def Let_def c exact_event_def epoch_time_def)
    qed
  qed
qed

section \<open>Properties\<close>

lemma epoch_end_bound:
  assumes "epoch_fits h start sz" "CalculateEpochBoundaries h start sz = (es, ee, en)"
  shows "ee < - 1" and "start \<le> h"
  using assms(1) unat_epoch_boundaries(2) [OF assms] by (simp_all add: u64_less_max_iff epoch_fits_def)

lemma Retrieve_at_end:
  assumes "hasForcedNamespace (fr_client r)" "\<not> h < fr_daStartHeight r" "ee < - 1"
    "CalculateEpochBoundaries h (fr_daStartHeight r) (fr_daEpochSize r) = (es, ee, en)"
  shows "RetrieveForcedIncludedTxs env api r h =
    (let r1 = r\<lparr>asyncFetcher := UpdateCurrentHeight (asyncFetcher r) h\<rparr> in
     Some (if h \<noteq> ee then Inr \<lparr>evTimestamp = zero_time, StartDaHeight = h, EndDaHeight = h, evTxs = []\<rparr>
           else retrieve_epoch env api r1 h es ee (u64_upto es ee), r1))"
  using assms u64_range_eq [OF assms(3), of es] by (simp add: RetrieveForcedIncludedTxs_def Let_def)

lemma forced_result:
  assumes ok: "async_ok env vw" "times_ok chain" and reach: "fi_reach env chain c start sz r"
    and honest: "rpc_honest api (forcedNamespaceBz c) chain" and forced: "hasForcedNamespace c"
    and fits: "epoch_fits h start sz" and b: "CalculateEpochBoundaries h start sz = (es, ee, en)"
  shows "\<exists>res r'. RetrieveForcedIncludedTxs env api r h = Some (res, r') \<and> fi_reach env chain c start sz r' \<and>
    (case res of
       Inl e \<Rightarrow> h = ee \<and> errors_is e ErrHeightFromFuture \<and> (\<exists>k \<in> {es..ee}. from_future api (forcedNamespaceBz c) k)
     | Inr ev \<Rightarrow> if h \<noteq> ee then ev = \<lparr>evTimestamp = zero_time, StartDaHeight = h, EndDaHeight = h, evTxs = []\<rparr>
         else ev = exact_event chain es ee \<or> StartDaHeight ev = h \<and> EndDaHeight ev = h \<and> evTxs ev = [] \<and>
           (\<exists>k \<in> {es..ee}. \<not> usable api (forcedNamespaceBz c) k \<and> \<not> from_future api (forcedNamespaceBz c) k))"
proof -
  have inv: "fi_inv env vw chain c start sz r" by (rule fi_reach_inv [OF ok reach])
  let ?r1 = "r\<lparr>asyncFetcher := UpdateCurrentHeight (asyncFetcher r) h\<rparr>"
  have inv1: "fi_inv env vw chain c start sz ?r1" using inv by (simp add: fi_inv_def)
  have R: "RetrieveForcedIncludedTxs env api r h =
      Some (if h \<noteq> ee then Inr \<lparr>evTimestamp = zero_time, StartDaHeight = h, EndDaHeight = h, evTxs = []\<rparr>
           else retrieve_epoch env api ?r1 h es ee (u64_upto es ee), ?r1)"
    using Retrieve_at_end [of r h ee es en env api] inv forced epoch_end_bound [OF fits b] b
    by (simp add: fi_inv_def Let_def)
  have "fi_reach env chain c start sz ?r1" by (rule fi_retrieve [OF reach honest R])
  then show ?thesis
    using R retrieve_epoch_result [OF ok(1) inv1 honest, where h = h and es = es and ee = ee]
    by (auto split: sum.splits)
qed


definition block_codec :: "pb_BlockData codec" where
  "block_codec = \<lparr>enc = (\<lambda>m. if - 9223372036854775808 \<le> pbb_timestamp m \<and> pbb_timestamp m < 9223372036854775808
       then Inr (flag_enc (put_be64 (pbb_height m) # put_be64 (word_of_int (pbb_timestamp m)) # pbb_blobs m))
       else Inl (Msg ''range'')),
     dec = (\<lambda>b. case flag_dec [] b of Inr (h # t # bs) \<Rightarrow>
         Inr \<lparr>pbb_height = get_be64 h, pbb_timestamp = sint (get_be64 t), pbb_blobs = bs\<rparr> | _ \<Rightarrow> Inl (Msg ''wire''))\<rparr>"

lemma block_codec_ok [simp]: "codec_ok block_codec"
  by (auto simp: codec_ok_on_def block_codec_def sint_sbintrunc' signed_take_bit_int_eq_self)

definition demo_async :: "mem_db async_env" where
  "demo_async = \<lparr>cache_ds = mem_datastore, empty_cache = [], c_block = block_codec\<rparr>"

lemma demo_async_ok [simp]: "async_ok demo_async mem_view"
  by (simp add: async_ok_def demo_async_def mem_view_def)

definition demo_chain :: "bytes list \<Rightarrow> da_content" where
  "demo_chain content = ((\<lambda>h. content), sint)"

lemma demo_chain_ok [simp]: "times_ok (demo_chain content)" "rpc_honest (demo_rpc content) ns (demo_chain content)"
proof -
  show "times_ok (demo_chain content)"
    using sint_greater_eq [where ?'a = 64] sint_less [where ?'a = 64] by (simp add: times_ok_def demo_chain_def)
  show "rpc_honest (demo_rpc content) ns (demo_chain content)"
    by (simp add: rpc_honest_def demo_rpc_def demo_chain_def comp_def)
qed

definition demo_client :: client where
  "demo_client = NewClient ''rollup'' ''rollup-data'' ''forced''"

lemma demo_client_forced [simp]: "hasForcedNamespace demo_client"
  by (simp add: demo_client_def NewClient_def)

lemma demo_usable [simp]: "usable (demo_rpc content) ns h" "\<not> from_future (demo_rpc content) ns h"
  by (simp_all add: usable_def from_future_def Retrieve_def demo_rpc_def emptyResult_def Let_def)




end
