(* ===== verification/Single_Sequencer.thy ===== *)
theory Single_Sequencer
  imports Queue Checkpoint_Store Forced_Inclusion Store
begin

text \<open>
  The single sequencer, \<^verbatim>\<open>src/pkg/sequencers/single/sequencer.go\<close>, with the types of
  \<^verbatim>\<open>src/core/sequencer/sequencing.go\<close>, \<^verbatim>\<open>src/core/execution/execution.go\<close> and
  \<^verbatim>\<open>src/pkg/genesis/genesis.go\<close>. Its state joins the batch queue, the checkpoint in the forced
  transactions of the DA layer, the transactions of the current DA epoch and the catch-up state; one
  call of \<^verbatim>\<open>GetNextBatch\<close> fetches the next epoch when the current one is consumed, joins forced and
  mempool transactions, filters them through the execution layer and advances the checkpoint. The
  execution layer is a parameter, as are the databases and the RPC below the components it calls.
\<close>

section \<open>Genesis\<close>

record Genesis =
  gChainID :: string
  StartTime :: gotime
  gInitialHeight :: u64
  gProposerAddress :: "bytes option"
  DAStartHeight :: u64
  DAEpochForcedInclusion :: u64

definition NewGenesis :: "string \<Rightarrow> u64 \<Rightarrow> gotime \<Rightarrow> bytes option \<Rightarrow> Genesis" where
  "NewGenesis chainID initialHeight startTime proposerAddress =
     \<lparr>gChainID = chainID, StartTime = startTime, gInitialHeight = initialHeight,
      gProposerAddress = proposerAddress, DAStartHeight = 0, DAEpochForcedInclusion = 50\<rparr>"

definition Genesis_Validate :: "Genesis \<Rightarrow> goerr option" where
  "Genesis_Validate g =
     (if gChainID g = [] then Some (Msg ''invalid or missing chain_id in genesis file'')
      else if gInitialHeight g < 1 then Some (Msg ''initial_height must be at least 1'')
      else if StartTime g = zero_time then Some (Msg ''start_time cannot be zero time'')
      else if gProposerAddress g = None then Some (Msg ''proposer_address cannot be nil'')
      else if DAEpochForcedInclusion g < 1 then Some (Msg ''da_epoch_forced_inclusion must be at least 1'')
      else None)"

section \<open>The interfaces of the core\<close>

datatype FilterStatus = FilterOK | FilterRemove | FilterPostpone

text \<open>The calls to the execution layer: \<^verbatim>\<open>GetExecutionInfo\<close> and \<^verbatim>\<open>FilterTxs\<close>.\<close>

record exec_api =
  GetExecutionInfo :: "u64 result"
  FilterTxs :: "bytes list \<Rightarrow> u64 \<Rightarrow> u64 \<Rightarrow> bool \<Rightarrow> FilterStatus list result"

record GetNextBatchRequest =
  reqId :: bytes
  LastBatchData :: "bytes list"
  MaxBytes :: u64

record GetNextBatchResponse =
  respBatch :: Batch
  respTimestamp :: gotime
  BatchData :: "bytes list"

definition Batch_preimage :: "Batch \<Rightarrow> bytes" where
  "Batch_preimage txs = put_be64 (of_nat (length txs)) @ concat (map (\<lambda>tx. put_be64 (of_nat (length tx)) @ tx) txs)"

text \<open>A nil batch hashes as an empty one.\<close>

definition Batch_Hash :: "Batch option \<Rightarrow> bytes" where
  "Batch_Hash b = (case b of
     Some txs \<Rightarrow> if txs = [] then sha256 [] else sha256 (Batch_preimage txs)
   | None \<Rightarrow> sha256 [])"

section \<open>State\<close>

datatype catch_up = catchUpUnchecked | catchUpInProgress | catchUpDone

record 'db Sequencer =
  sId :: bytes
  squeue :: "'db BatchQueue"
  fiRetriever :: "'db forcedInclusionRetriever"
  daHeight :: u64
  daStartHeight :: u64
  checkpoint :: Checkpoint
  cpdb :: 'db
  cachedForcedInclusionTxs :: "bytes list"
  catchUpState :: catch_up
  currentDAEndTime :: gotime
  currentEpochTxCount :: u64

text \<open>What a sequencer is built from, and what it calls at the time of one operation. The queue, the
  checkpoint and the block store use disjoint parts of one database (keys under \<^verbatim>\<open>batches\<close>,
  \<^verbatim>\<open>/single/checkpoint\<close> and the prefix \<^verbatim>\<open>0\<close>), so each has a handle of its own.\<close>

record ('db, 'pk) seq_env =
  qenv :: "'db queue_env"
  cpenv :: "'db cp_env"
  aenv :: "'db async_env"
  stenv :: "('db, 'pk) store_env"
  genesis :: Genesis
  daClient :: client

record 'db seq_ctx =
  rpc :: da_rpc
  exec :: exec_api
  storedb :: 'db
  clock :: gotime

definition isValid :: "'db Sequencer \<Rightarrow> bytes \<Rightarrow> bool" where
  "isValid c i = (sId c = i)"

definition SetDAHeight :: "'db Sequencer \<Rightarrow> u64 \<Rightarrow> 'db Sequencer" where
  "SetDAHeight c height = c\<lparr>daHeight := height\<rparr>"

definition GetDAHeight :: "'db Sequencer \<Rightarrow> u64" where
  "GetDAHeight c = daHeight c"

definition isCatchingUp :: "'db Sequencer \<Rightarrow> bool" where
  "isCatchingUp c = (catchUpState c = catchUpInProgress)"

definition getInitialDAStartHeight ::
  "('db, 'pk) seq_env \<Rightarrow> 'db seq_ctx \<Rightarrow> 'db Sequencer \<Rightarrow> u64 \<times> 'db Sequencer" where
  "getInitialDAStartHeight env ctx c =
     (if daStartHeight c \<noteq> 0 then (daStartHeight c, c)
      else (case GetMetadata (stenv env) (storedb ctx) GenesisDAHeightKey of
              Inl e \<Rightarrow> (0, c)
            | Inr bz \<Rightarrow> if length bz \<noteq> 8 then (0, c)
                       else (get_le64 bz, c\<lparr>daStartHeight := get_le64 bz\<rparr>)))"

text \<open>\<^verbatim>\<open>NewSequencer\<close>: the retriever is nil until its last step, which no step before reads; the
  record holds an unused one until then.\<close>

definition NewSequencer ::
  "('db, 'pk) seq_env \<Rightarrow> 'db seq_ctx \<Rightarrow> 'db \<Rightarrow> 'db \<Rightarrow> bytes \<Rightarrow> int \<Rightarrow> 'db Sequencer result" where
  "NewSequencer env ctx queuedb cdb i maxSize =
     (case Load (qenv env) (NewBatchQueue queuedb maxSize) of
        (Some e, q) \<Rightarrow> Inl (Wrap ''failed to load batch queue from DB'' e)
      | (None, q) \<Rightarrow>
          let start = DAStartHeight (genesis env) in
          (case (case cp_Load (cpenv env) cdb of
                   Inr cp \<Rightarrow> Inr cp
                 | Inl e \<Rightarrow> if errors_is e ErrCheckpointNotFound then Inr (Checkpoint start 0)
                           else Inl (Wrap ''failed to load checkpoint from DB'' e)) of
             Inl e \<Rightarrow> Inl e
           | Inr cp \<Rightarrow>
               let s = \<lparr>sId = i, squeue = q,
                     fiRetriever = NewForcedInclusionRetriever (aenv env) (daClient env) 0 0,
                     daHeight = start, daStartHeight = start, checkpoint = cp, cpdb = cdb,
                     cachedForcedInclusionTxs = [], catchUpState = catchUpUnchecked,
                     currentDAEndTime = StartTime (genesis env), currentEpochTxCount = 0\<rparr>;
                   (initial, s1) = getInitialDAStartHeight env ctx s in
               Inr (s1\<lparr>fiRetriever := NewForcedInclusionRetriever (aenv env) (daClient env) initial
                        (DAEpochForcedInclusion (genesis env))\<rparr>)))"

section \<open>Submission\<close>

text \<open>The request carries an identifier and a batch that may be nil.\<close>

definition SubmitBatchTxs ::
  "('db, 'pk) seq_env \<Rightarrow> 'db Sequencer \<Rightarrow> bytes \<Rightarrow> Batch option \<Rightarrow> goerr option \<times> 'db Sequencer" where
  "SubmitBatchTxs env c i batch =
     (if \<not> isValid c i then (Some (Sentinel ErrInvalidId), c)
      else (case batch of
              None \<Rightarrow> (None, c)
            | Some txs \<Rightarrow>
                if txs = [] then (None, c)
                else (case AddBatch (qenv env) (squeue c) txs of
                        (None, q) \<Rightarrow> (None, c\<lparr>squeue := q\<rparr>)
                      | (Some e, q) \<Rightarrow>
                          (Some (if errors_is e ErrQueueFull
                                 then Wrap ''batch queue is full, cannot accept more batches'' e
                                 else Wrap ''failed to add batch'' e), c\<lparr>squeue := q\<rparr>))))"

section \<open>Fetching an epoch\<close>

definition updateCatchUpState :: "('db, 'pk) seq_env \<Rightarrow> 'db seq_ctx \<Rightarrow> 'db Sequencer \<Rightarrow> 'db Sequencer" where
  "updateCatchUpState env ctx c =
     (if catchUpState c \<noteq> catchUpUnchecked then c
      else let c1 = c\<lparr>catchUpState := catchUpDone\<rparr>; epochSize = DAEpochForcedInclusion (genesis env) in
        if epochSize = 0 then c1
        else (case GetLatestDAHeight (rpc ctx) of
                Inl e \<Rightarrow> c1
              | Inr latestDAHeight \<Rightarrow>
                  let currentDAHeight = Checkpoint.DAHeight (checkpoint c); start = DAStartHeight (genesis env) in
                  if latestDAHeight \<le> currentDAHeight then c1
                  else if CalculateEpochNumber latestDAHeight start epochSize
                          - CalculateEpochNumber currentDAHeight start epochSize = 0 then c1
                  else let c2 = c1\<lparr>catchUpState := catchUpInProgress\<rparr> in
                    (case GetState (stenv env) (storedb ctx) of
                       Inl e \<Rightarrow> c2
                     | Inr st \<Rightarrow>
                         if LastBlockTime st \<noteq> zero_time \<and> LastBlockTime st > currentDAEndTime c2
                         then c2\<lparr>currentDAEndTime := LastBlockTime st\<rparr> else c2)))"

definition fetchNextDAEpoch ::
  "('db, 'pk) seq_env \<Rightarrow> 'db seq_ctx \<Rightarrow> 'db Sequencer \<Rightarrow> u64 \<Rightarrow> (u64 result \<times> 'db Sequencer) option" where
  "fetchNextDAEpoch env ctx c maxBytes =
     (let c1 = updateCatchUpState env ctx c in
      case RetrieveForcedIncludedTxs (aenv env) (rpc ctx) (fiRetriever c1) (Checkpoint.DAHeight (checkpoint c)) of
        None \<Rightarrow> None
      | Some (Inl e, r) \<Rightarrow>
          let c2 = c1\<lparr>fiRetriever := r\<rparr> in
          Some (if errors_is e ErrHeightFromFuture
                then (Inr 0, if catchUpState c2 = catchUpInProgress then c2\<lparr>catchUpState := catchUpDone\<rparr> else c2)
                else if errors_is e ErrForceInclusionNotConfigured
                then (Inr 0, c2\<lparr>cachedForcedInclusionTxs := [], catchUpState := catchUpDone\<rparr>)
                else (Inl (Wrap ''failed to retrieve forced inclusion transactions'' e), c2))
      | Some (Inr ev, r) \<Rightarrow>
          let c2 = c1\<lparr>fiRetriever := r\<rparr>;
              validTxs = filter (\<lambda>tx. \<not> of_nat (length tx) > maxBytes) (evTxs ev) in
          Some (Inr (EndDaHeight ev),
            c2\<lparr>cachedForcedInclusionTxs := validTxs, currentEpochTxCount := of_nat (length validTxs),
               currentDAEndTime := (if evTimestamp ev > currentDAEndTime c2 then evTimestamp ev else currentDAEndTime c2)\<rparr>))"

section \<open>The next batch\<close>

text \<open>The checkpoint of a sequencer that learns its first DA height.\<close>

definition bootstrap :: "('db, 'pk) seq_env \<Rightarrow> 'db seq_ctx \<Rightarrow> 'db Sequencer \<Rightarrow> 'db Sequencer" where
  "bootstrap env ctx c =
     (if daHeight c > 0 \<and> Checkpoint.DAHeight (checkpoint c) = 0
      then let (initial, c1) = getInitialDAStartHeight env ctx (c\<lparr>checkpoint := Checkpoint (daHeight c) 0\<rparr>) in
        c1\<lparr>fiRetriever := NewForcedInclusionRetriever (aenv env) (daClient env) initial
              (DAEpochForcedInclusion (genesis env))\<rparr>
      else c)"

definition epoch_consumed :: "'db Sequencer \<Rightarrow> bool" where
  "epoch_consumed c \<longleftrightarrow> cachedForcedInclusionTxs c = [] \<or>
     TxIndex (checkpoint c) \<ge> of_nat (length (cachedForcedInclusionTxs c))"

definition forced_left :: "'db Sequencer \<Rightarrow> bytes list" where
  "forced_left c =
     (if cachedForcedInclusionTxs c \<noteq> [] \<and> TxIndex (checkpoint c) < of_nat (length (cachedForcedInclusionTxs c))
      then drop (unat (TxIndex (checkpoint c))) (cachedForcedInclusionTxs c) else [])"

text \<open>No mempool transactions while catching up.\<close>

definition take_mempool :: "('db, 'pk) seq_env \<Rightarrow> 'db Sequencer \<Rightarrow> Batch \<times> 'db Sequencer" where
  "take_mempool env c =
     (if catchUpState c \<noteq> catchUpInProgress
      then let (b, q) = Next (qenv env) (squeue c) in (b, c\<lparr>squeue := q\<rparr>)
      else ([], c))"

text \<open>A failed filter lets every transaction pass. The contract of \<^verbatim>\<open>FilterTxs\<close> is that it returns
  one status per transaction.\<close>

definition max_gas :: "exec_api \<Rightarrow> u64" where
  "max_gas ex = (case GetExecutionInfo ex of Inl e \<Rightarrow> 0 | Inr g \<Rightarrow> g)"

definition filter_statuses :: "exec_api \<Rightarrow> bytes list \<Rightarrow> u64 \<Rightarrow> bool \<Rightarrow> FilterStatus list" where
  "filter_statuses ex allTxs maxBytes hasForced =
     (case FilterTxs ex allTxs maxBytes (max_gas ex) hasForced of
        Inl e \<Rightarrow> replicate (length allTxs) FilterOK
      | Inr sts \<Rightarrow> sts)"

text \<open>The loop over the forced transactions: the valid ones, how many were consumed, and whether one was
  postponed, behind which the rest is left for the next batch.\<close>

fun forced_step :: "FilterStatus \<times> bytes \<Rightarrow> bytes list \<times> u64 \<times> bool \<Rightarrow> bytes list \<times> u64 \<times> bool" where
  "forced_step (st, tx) (valid, consumed, postponed) =
     (if postponed then (valid, consumed, postponed)
      else (case st of
              FilterOK \<Rightarrow> (valid @ [tx], consumed + 1, postponed)
            | FilterRemove \<Rightarrow> (valid, consumed + 1, postponed)
            | FilterPostpone \<Rightarrow> (valid, consumed, True)))"

definition process_forced :: "(FilterStatus \<times> bytes) list \<Rightarrow> bytes list \<times> u64" where
  "process_forced sts = (let (valid, consumed, postponed) = fold forced_step sts ([], 0, False) in (valid, consumed))"

definition with_status :: "FilterStatus \<Rightarrow> (FilterStatus \<times> bytes) list \<Rightarrow> bytes list" where
  "with_status st sts = map snd (filter (\<lambda>p. fst p = st) sts)"

definition requeue_postponed :: "('db, 'pk) seq_env \<Rightarrow> 'db Sequencer \<Rightarrow> bytes list \<Rightarrow> 'db Sequencer" where
  "requeue_postponed env c txs =
     (if txs \<noteq> [] then c\<lparr>squeue := snd (Prepend (qenv env) (squeue c) txs)\<rparr> else c)"

text \<open>The index before the reset at the end of an epoch is what the timestamp is computed from.\<close>

definition advance_checkpoint ::
  "('db, 'pk) seq_env \<Rightarrow> 'db Sequencer \<Rightarrow> u64 \<Rightarrow> bytes list \<Rightarrow> u64 \<Rightarrow> u64 result \<times> 'db Sequencer" where
  "advance_checkpoint env c height forcedTxs consumed =
     (if height > 0 \<or> forcedTxs \<noteq> []
      then let ti = TxIndex (checkpoint c) + consumed;
               c1 = (if ti \<ge> of_nat (length (cachedForcedInclusionTxs c))
                     then c\<lparr>checkpoint := Checkpoint (height + 1) 0, cachedForcedInclusionTxs := [], daHeight := height + 1\<rparr>
                     else c\<lparr>checkpoint := Checkpoint (Checkpoint.DAHeight (checkpoint c)) ti\<rparr>) in
        (case cp_Save (cpenv env) (cpdb c1) (checkpoint c1) of
           (Some e, db) \<Rightarrow> (Inl (Wrap ''failed to save checkpoint'' e), c1\<lparr>cpdb := db\<rparr>)
         | (None, db) \<Rightarrow> (Inr ti, c1\<lparr>cpdb := db\<rparr>))
      else (Inr 0, c))"

text \<open>\<^verbatim>\<open>-time.Duration(n) * time.Millisecond\<close> and \<^verbatim>\<open>time.Duration(n) * time.Millisecond\<close> in 64-bit
  arithmetic.\<close>

definition epoch_timestamp :: "gotime \<Rightarrow> u64 \<Rightarrow> u64 \<Rightarrow> gotime" where
  "epoch_timestamp daEndTime epochTxCount txIndex =
     daEndTime + sint (- epochTxCount * 1000000) + sint (txIndex * 1000000)"

definition finish_batch ::
  "('db, 'pk) seq_env \<Rightarrow> 'db seq_ctx \<Rightarrow> 'db Sequencer \<Rightarrow> GetNextBatchRequest \<Rightarrow> u64 \<Rightarrow> GetNextBatchResponse result \<times> 'db Sequencer" where
  "finish_batch env ctx c req height =
     (let forcedTxs = forced_left c;
          (mempool, c1) = take_mempool env c;
          allTxs = forcedTxs @ mempool;
          n = length forcedTxs;
          sts = zip (filter_statuses (exec ctx) allTxs (MaxBytes req) (n > 0)) allTxs;
          (validForced, consumed) = process_forced (take n sts);
          validMempool = with_status FilterOK (drop n sts);
          c2 = requeue_postponed env c1 (with_status FilterPostpone (drop n sts)) in
      case advance_checkpoint env c2 height forcedTxs consumed of
        (Inl e, c3) \<Rightarrow> (Inl e, c3)
      | (Inr txIndex, c3) \<Rightarrow>
          let batchTxs = validForced @ validMempool;
              timestamp = (if catchUpState c3 = catchUpInProgress \<or> consumed > 0
                           then epoch_timestamp (currentDAEndTime c3) (currentEpochTxCount c3) txIndex
                           else clock ctx) in
          if isCatchingUp c3 \<and> batchTxs = [] then (Inl (Sentinel ErrNoBatch), c3)
          else (Inr \<lparr>respBatch = batchTxs, respTimestamp = timestamp, BatchData = LastBatchData req\<rparr>, c3))"

definition GetNextBatch ::
  "('db, 'pk) seq_env \<Rightarrow> 'db seq_ctx \<Rightarrow> 'db Sequencer \<Rightarrow> GetNextBatchRequest \<Rightarrow>
     (GetNextBatchResponse result \<times> 'db Sequencer) option" where
  "GetNextBatch env ctx c req =
     (if \<not> isValid c (reqId req) then Some (Inl (Sentinel ErrInvalidId), c)
      else let height = daHeight c; c1 = bootstrap env ctx c in
        if height > 0 \<and> epoch_consumed c1
        then (case fetchNextDAEpoch env ctx c1 (MaxBytes req) of
                None \<Rightarrow> None
              | Some (Inl e, c2) \<Rightarrow> Some (Inl e, c2)
              | Some (Inr daEndHeight, c2) \<Rightarrow> Some (finish_batch env ctx c2 req daEndHeight))
        else Some (finish_batch env ctx c1 req height))"

section \<open>Verification\<close>

definition VerifyBatch :: "'db seq_ctx \<Rightarrow> 'db Sequencer \<Rightarrow> bytes \<Rightarrow> bytes list \<Rightarrow> bool result" where
  "VerifyBatch ctx c i batchData =
     (if \<not> isValid c i then Inl (Sentinel ErrInvalidId)
      else (case GetProofs (rpc ctx) batchData (sId c) of
              Inl e \<Rightarrow> Inl (Wrap ''failed to get proofs'' e)
            | Inr proofs \<Rightarrow>
                (case Validate_proofs (rpc ctx) batchData proofs (sId c) of
                   Inl e \<Rightarrow> Inl (Wrap ''failed to validate proof'' e)
                 | Inr valid \<Rightarrow> Inr (\<forall>v \<in> set valid. v))))"

end
