(* ===== verification/Based_Sequencer.thy ===== *)
theory Based_Sequencer
  imports Single_Sequencer
begin

text \<open>
  The based sequencer, \<^verbatim>\<open>src/pkg/sequencers/based/sequencer.go\<close>: it takes every transaction from the
  DA layer through forced inclusion and persists only its checkpoint.
\<close>

record 'db BasedSequencer =
  bRetriever :: "'db forcedInclusionRetriever"
  bDaHeight :: u64
  bCheckpoint :: Checkpoint
  bCpdb :: 'db
  currentBatchTxs :: "bytes list"
  bCurrentDAEndTime :: gotime
  bCurrentEpochTxCount :: u64

definition Based_SetDAHeight :: "'db BasedSequencer \<Rightarrow> u64 \<Rightarrow> 'db BasedSequencer" where
  "Based_SetDAHeight s height = s\<lparr>bDaHeight := height\<rparr>"

definition Based_GetDAHeight :: "'db BasedSequencer \<Rightarrow> u64" where
  "Based_GetDAHeight s = bDaHeight s"

definition NewBasedSequencer :: "('db, 'pk) seq_env \<Rightarrow> 'db seq_ctx \<Rightarrow> 'db \<Rightarrow> 'db BasedSequencer result" where
  "NewBasedSequencer env ctx cdb =
     (let start = (case GetState (stenv env) (storedb ctx) of
                     Inl e \<Rightarrow> DAStartHeight (genesis env)
                   | Inr st \<Rightarrow> if sDAHeight st > 0 then sDAHeight st else DAStartHeight (genesis env)) in
      case (case cp_Load (cpenv env) cdb of
              Inr cp \<Rightarrow> Inr cp
            | Inl e \<Rightarrow> if errors_is e ErrCheckpointNotFound then Inr (Checkpoint start 0)
                      else Inl (Wrap ''failed to load checkpoint from DB'' e)) of
        Inl e \<Rightarrow> Inl e
      | Inr cp \<Rightarrow> Inr \<lparr>bRetriever = NewForcedInclusionRetriever (aenv env) (daClient env) (DAStartHeight (genesis env))
            (DAEpochForcedInclusion (genesis env)),
          bDaHeight = start, bCheckpoint = cp, bCpdb = cdb, currentBatchTxs = [],
          bCurrentDAEndTime = StartTime (genesis env), bCurrentEpochTxCount = 0\<rparr>)"

text \<open>Submitted transactions are ignored, and every batch verifies.\<close>

definition Based_SubmitBatchTxs :: "'db BasedSequencer \<Rightarrow> bytes \<Rightarrow> Batch option \<Rightarrow> goerr option \<times> 'db BasedSequencer" where
  "Based_SubmitBatchTxs s i batch = (None, s)"

definition Based_VerifyBatch :: "'db BasedSequencer \<Rightarrow> bytes \<Rightarrow> bytes list \<Rightarrow> bool result" where
  "Based_VerifyBatch s i batchData = Inr True"

definition getMaxGas :: "exec_api \<Rightarrow> u64" where
  "getMaxGas ex = (case GetExecutionInfo ex of Inl e \<Rightarrow> 0 | Inr g \<Rightarrow> g)"

definition Based_fetchNextDAEpoch ::
  "('db, 'pk) seq_env \<Rightarrow> 'db seq_ctx \<Rightarrow> 'db BasedSequencer \<Rightarrow> u64 \<Rightarrow> (u64 result \<times> 'db BasedSequencer) option" where
  "Based_fetchNextDAEpoch env ctx s maxBytes =
     (case RetrieveForcedIncludedTxs (aenv env) (rpc ctx) (bRetriever s) (Checkpoint.DAHeight (bCheckpoint s)) of
        None \<Rightarrow> None
      | Some (Inl e, r) \<Rightarrow>
          let s1 = s\<lparr>bRetriever := r\<rparr> in
          Some (if errors_is e ErrForceInclusionNotConfigured then (Inl (Sentinel ErrForceInclusionNotConfigured), s1)
                else if errors_is e ErrHeightFromFuture then (Inr 0, s1)
                else (Inl (Wrap ''failed to retrieve forced inclusion transactions'' e), s1))
      | Some (Inr ev, r) \<Rightarrow>
          let s1 = s\<lparr>bRetriever := r\<rparr>;
              validTxs = filter (\<lambda>tx. \<not> of_nat (length tx) > maxBytes) (evTxs ev) in
          Some (Inr (EndDaHeight ev),
            s1\<lparr>currentBatchTxs := validTxs, bCurrentEpochTxCount := of_nat (length validTxs),
               bCurrentDAEndTime := (if evTimestamp ev > bCurrentDAEndTime s1 then evTimestamp ev else bCurrentDAEndTime s1)\<rparr>))"

text \<open>The loop over the statuses ends at the first postponed transaction.\<close>

fun based_process :: "(FilterStatus \<times> bytes) list \<Rightarrow> bytes list \<times> u64" where
  "based_process [] = ([], 0)"
| "based_process ((st, tx) # rest) =
     (case st of
        FilterOK \<Rightarrow> (let (valid, consumed) = based_process rest in (tx # valid, consumed + 1))
      | FilterRemove \<Rightarrow> (let (valid, consumed) = based_process rest in (valid, consumed + 1))
      | FilterPostpone \<Rightarrow> ([], 0))"

definition based_left :: "'db BasedSequencer \<Rightarrow> bytes list" where
  "based_left s =
     (if currentBatchTxs s \<noteq> [] \<and> TxIndex (bCheckpoint s) < of_nat (length (currentBatchTxs s))
      then drop (unat (TxIndex (bCheckpoint s))) (currentBatchTxs s) else [])"

definition based_statuses :: "exec_api \<Rightarrow> bytes list \<Rightarrow> u64 \<Rightarrow> FilterStatus list" where
  "based_statuses ex batchTxs maxBytes =
     (case FilterTxs ex batchTxs maxBytes (getMaxGas ex) True of
        Inl e \<Rightarrow> replicate (length batchTxs) FilterOK
      | Inr sts \<Rightarrow> sts)"

definition based_advance ::
  "('db, 'pk) seq_env \<Rightarrow> 'db BasedSequencer \<Rightarrow> u64 \<Rightarrow> bytes list \<Rightarrow> u64 \<Rightarrow> u64 result \<times> 'db BasedSequencer" where
  "based_advance env s height batchTxs consumed =
     (if height > 0 \<or> batchTxs \<noteq> []
      then let ti = TxIndex (bCheckpoint s) + consumed;
               s1 = (if ti \<ge> of_nat (length (currentBatchTxs s))
                     then s\<lparr>bCheckpoint := Checkpoint (height + 1) 0, currentBatchTxs := [], bDaHeight := height + 1\<rparr>
                     else s\<lparr>bCheckpoint := Checkpoint (Checkpoint.DAHeight (bCheckpoint s)) ti\<rparr>) in
        (case cp_Save (cpenv env) (bCpdb s1) (bCheckpoint s1) of
           (Some e, db) \<Rightarrow> (Inl (Wrap ''failed to save checkpoint'' e), s1\<lparr>bCpdb := db\<rparr>)
         | (None, db) \<Rightarrow> (Inr ti, s1\<lparr>bCpdb := db\<rparr>))
      else (Inr 0, s))"

definition based_finish ::
  "('db, 'pk) seq_env \<Rightarrow> 'db seq_ctx \<Rightarrow> 'db BasedSequencer \<Rightarrow> GetNextBatchRequest \<Rightarrow> u64 \<Rightarrow>
     GetNextBatchResponse result \<times> 'db BasedSequencer" where
  "based_finish env ctx s req height =
     (let batchTxs = based_left s;
          (validTxs, consumed) = based_process (zip (based_statuses (exec ctx) batchTxs (MaxBytes req)) batchTxs) in
      case based_advance env s height batchTxs consumed of
        (Inl e, s1) \<Rightarrow> (Inl e, s1)
      | (Inr txIndex, s1) \<Rightarrow>
          let timestamp = epoch_timestamp (bCurrentDAEndTime s1) (bCurrentEpochTxCount s1) txIndex in
          if validTxs = [] then (Inl (Sentinel ErrNoBatch), s1)
          else (Inr \<lparr>respBatch = validTxs, respTimestamp = timestamp, BatchData = LastBatchData req\<rparr>, s1))"

definition Based_GetNextBatch ::
  "('db, 'pk) seq_env \<Rightarrow> 'db seq_ctx \<Rightarrow> 'db BasedSequencer \<Rightarrow> GetNextBatchRequest \<Rightarrow>
     (GetNextBatchResponse result \<times> 'db BasedSequencer) option" where
  "Based_GetNextBatch env ctx s req =
     (let height = bDaHeight s in
      if height > 0 \<and> (currentBatchTxs s = [] \<or> TxIndex (bCheckpoint s) \<ge> of_nat (length (currentBatchTxs s)))
      then (case Based_fetchNextDAEpoch env ctx s (MaxBytes req) of
              None \<Rightarrow> None
            | Some (Inl e, s1) \<Rightarrow> Some (Inl e, s1)
            | Some (Inr daEndHeight, s1) \<Rightarrow> Some (based_finish env ctx s1 req daEndHeight))
      else Some (based_finish env ctx s req height))"

end
