(* ===== verification/Sequencer_Spec.thy ===== *)
theory Sequencer_Spec
  imports Based_Sequencer Queue_Log
begin

text \<open>
  What the sequencers promise. Forced transactions are consumed in DA order, each exactly once, and
  over a run the single sequencer includes exactly the forced transactions of the DA epochs it has
  passed; mempool transactions are neither lost nor invented; the checkpoint only moves forward and
  survives a restart; a single sequencer that is catching up behaves as a based sequencer and, when
  the DA layer serves it, catches up.
\<close>

section \<open>The filter loops\<close>

text \<open>The transactions before the first postponed one.\<close>

definition processed :: "(FilterStatus \<times> bytes) list \<Rightarrow> (FilterStatus \<times> bytes) list" where
  "processed sts = takeWhile (\<lambda>p. fst p \<noteq> FilterPostpone) sts"

lemma based_process_eq: "based_process sts = (with_status FilterOK (processed sts), of_nat (length (processed sts)))"
proof (induction sts)
  case Nil
  then show ?case by (simp add: processed_def with_status_def)
next
  case (Cons p sts)
  then show ?case by (cases p; cases "fst p") (simp_all add: processed_def with_status_def)
qed

lemma forced_step_postponed: "fold forced_step sts (v, n, True) = (v, n, True)"
  by (induction sts) auto

lemma forced_fold: "fold forced_step sts (v, n, False) =
    (v @ with_status FilterOK (processed sts), n + of_nat (length (processed sts)), length (processed sts) < length sts)"
proof (induction sts arbitrary: v n)
  case Nil
  then show ?case by (simp add: processed_def with_status_def)
next
  case (Cons p sts)
  obtain st tx where p: "p = (st, tx)" by (cases p)
  show ?case
  proof (cases st)
    case FilterPostpone
    then show ?thesis by (simp add: p processed_def with_status_def forced_step_postponed)
  qed (use Cons in \<open>simp_all add: p processed_def with_status_def\<close>)
qed

lemma process_forced_eq: "process_forced sts = (with_status FilterOK (processed sts), of_nat (length (processed sts)))"
  by (simp add: process_forced_def forced_fold)

text \<open>The two sequencers process forced transactions alike.\<close>

lemma process_forced_based: "process_forced sts = based_process sts"
  by (simp add: process_forced_eq based_process_eq)

text \<open>The contract of \<^verbatim>\<open>FilterTxs\<close>.\<close>

definition filter_ok :: "exec_api \<Rightarrow> bool" where
  "filter_ok ex \<longleftrightarrow> (\<forall>txs mb mg f sts. FilterTxs ex txs mb mg f = Inr sts \<longrightarrow> length sts = length txs)"

lemma filter_statuses_length: "filter_ok ex \<Longrightarrow> length (filter_statuses ex txs mb f) = length txs"
  by (auto simp: filter_statuses_def filter_ok_def split: sum.splits)

lemma processed_length: "length (processed sts) \<le> length sts"
  by (simp add: processed_def length_takeWhile_le)

lemma processed_take: "processed sts = take (length (processed sts)) sts"
  by (simp add: processed_def takeWhile_eq_take [symmetric])

section \<open>One call\<close>

text \<open>The state a batch is built from: after the bootstrap and, where the epoch is consumed, the fetch.\<close>

definition prepared ::
  "('db, 'pk) seq_env \<Rightarrow> 'db seq_ctx \<Rightarrow> 'db Sequencer \<Rightarrow> GetNextBatchRequest \<Rightarrow> (u64 result \<times> 'db Sequencer) option" where
  "prepared env ctx c req =
     (let c1 = bootstrap env ctx c in
      if daHeight c > 0 \<and> epoch_consumed c1 then fetchNextDAEpoch env ctx c1 (MaxBytes req)
      else Some (Inr (daHeight c), c1))"

lemma GetNextBatch_prepared:
  "isValid c (reqId req) \<Longrightarrow> GetNextBatch env ctx c req =
     (case prepared env ctx c req of
        None \<Rightarrow> None
      | Some (Inl e, c2) \<Rightarrow> Some (Inl e, c2)
      | Some (Inr h, c2) \<Rightarrow> Some (finish_batch env ctx c2 req h))"
  by (auto simp: GetNextBatch_def prepared_def Let_def split: option.splits sum.splits)

text \<open>The statuses of the forced transactions of a batch, and those that it consumes.\<close>

definition batch_statuses :: "('db, 'pk) seq_env \<Rightarrow> 'db seq_ctx \<Rightarrow> 'db Sequencer \<Rightarrow> GetNextBatchRequest \<Rightarrow> (FilterStatus \<times> bytes) list" where
  "batch_statuses env ctx c req =
     (let allTxs = forced_left c @ fst (take_mempool env c) in
      zip (filter_statuses (exec ctx) allTxs (MaxBytes req) (length (forced_left c) > 0)) allTxs)"

definition forced_processed :: "('db, 'pk) seq_env \<Rightarrow> 'db seq_ctx \<Rightarrow> 'db Sequencer \<Rightarrow> GetNextBatchRequest \<Rightarrow> (FilterStatus \<times> bytes) list" where
  "forced_processed env ctx c req = processed (take (length (forced_left c)) (batch_statuses env ctx c req))"

definition mempool_statuses :: "('db, 'pk) seq_env \<Rightarrow> 'db seq_ctx \<Rightarrow> 'db Sequencer \<Rightarrow> GetNextBatchRequest \<Rightarrow> (FilterStatus \<times> bytes) list" where
  "mempool_statuses env ctx c req = drop (length (forced_left c)) (batch_statuses env ctx c req)"

lemma batch_statuses_txs:
  assumes "filter_ok (exec ctx)"
  shows "map snd (batch_statuses env ctx c req) = forced_left c @ fst (take_mempool env c)"
  using filter_statuses_length [OF assms] by (simp add: batch_statuses_def Let_def)

lemma forced_processed_prefix:
  assumes "filter_ok (exec ctx)"
  shows "map snd (forced_processed env ctx c req) = take (length (forced_processed env ctx c req)) (forced_left c)"
proof -
  let ?s = "take (length (forced_left c)) (batch_statuses env ctx c req)"
  have "map snd ?s = forced_left c" using batch_statuses_txs [OF assms, of env c req] by (simp add: take_map [symmetric])
  moreover have "map snd (processed ?s) = take (length (processed ?s)) (map snd ?s)"
    by (metis processed_take take_map)
  ultimately show ?thesis unfolding forced_processed_def by simp
qed

lemma forced_processed_le: "filter_ok (exec ctx) \<Longrightarrow> length (forced_processed env ctx c req) \<le> length (forced_left c)"
  using processed_length [of "take (length (forced_left c)) (batch_statuses env ctx c req)"]
  by (simp add: forced_processed_def)

lemma mempool_statuses_txs:
  "filter_ok (exec ctx) \<Longrightarrow> map snd (mempool_statuses env ctx c req) = fst (take_mempool env c)"
  using batch_statuses_txs [of ctx env c req] by (simp add: mempool_statuses_def drop_map [symmetric])

definition batch_queue :: "('db, 'pk) seq_env \<Rightarrow> 'db seq_ctx \<Rightarrow> 'db Sequencer \<Rightarrow> GetNextBatchRequest \<Rightarrow> 'db Sequencer" where
  "batch_queue env ctx c req =
     requeue_postponed env (snd (take_mempool env c)) (with_status FilterPostpone (mempool_statuses env ctx c req))"

lemma finish_batch_eq:
  "finish_batch env ctx c req h =
     (let valid = with_status FilterOK (forced_processed env ctx c req) @ with_status FilterOK (mempool_statuses env ctx c req);
          n = of_nat (length (forced_processed env ctx c req)) in
      case advance_checkpoint env (batch_queue env ctx c req) h (forced_left c) n of
        (Inl e, c3) \<Rightarrow> (Inl e, c3)
      | (Inr txIndex, c3) \<Rightarrow>
          if isCatchingUp c3 \<and> valid = [] then (Inl (Sentinel ErrNoBatch), c3)
          else (Inr \<lparr>respBatch = valid, respTimestamp = (if isCatchingUp c3 \<or> n > 0
               then epoch_timestamp (currentDAEndTime c3) (currentEpochTxCount c3) txIndex else clock ctx),
               BatchData = LastBatchData req\<rparr>, c3))"
  unfolding finish_batch_def forced_processed_def mempool_statuses_def batch_statuses_def batch_queue_def
  by (auto simp: Let_def process_forced_eq isCatchingUp_def split: prod.split sum.split)

lemma batch_queue_frame [simp]:
  "checkpoint (batch_queue env ctx c req) = checkpoint c"
  "cachedForcedInclusionTxs (batch_queue env ctx c req) = cachedForcedInclusionTxs c"
  "daHeight (batch_queue env ctx c req) = daHeight c" "cpdb (batch_queue env ctx c req) = cpdb c"
  "catchUpState (batch_queue env ctx c req) = catchUpState c"
  "fiRetriever (batch_queue env ctx c req) = fiRetriever c" "sId (batch_queue env ctx c req) = sId c"
  "currentDAEndTime (batch_queue env ctx c req) = currentDAEndTime c"
  "currentEpochTxCount (batch_queue env ctx c req) = currentEpochTxCount c"
  "daStartHeight (batch_queue env ctx c req) = daStartHeight c"
  by (simp_all add: batch_queue_def requeue_postponed_def take_mempool_def split: prod.splits)

section \<open>Forced transactions\<close>

lemma forced_left_drop:
  "length (cachedForcedInclusionTxs c) < 2 ^ 64 \<Longrightarrow>
     forced_left c = drop (unat (TxIndex (checkpoint c))) (cachedForcedInclusionTxs c)"
  by (auto simp: forced_left_def word_less_nat_alt unat_of_nat)

lemma epoch_consumed_iff:
  "length (cachedForcedInclusionTxs c) < 2 ^ 64 \<Longrightarrow> epoch_consumed c \<longleftrightarrow> forced_left c = []"
  by (auto simp: epoch_consumed_def forced_left_def word_less_nat_alt word_le_nat_alt unat_of_nat)

text \<open>Where a checkpoint moves to when \<open>k\<close> more transactions of an epoch that ends at \<open>h\<close> are consumed.\<close>

definition advanced :: "'db Sequencer \<Rightarrow> u64 \<Rightarrow> nat \<Rightarrow> 'db Sequencer" where
  "advanced c h k =
     (if length (forced_left c) \<le> k
      then c\<lparr>checkpoint := Checkpoint (h + 1) 0, cachedForcedInclusionTxs := [], daHeight := h + 1\<rparr>
      else c\<lparr>checkpoint := Checkpoint (Checkpoint.DAHeight (checkpoint c)) (TxIndex (checkpoint c) + of_nat k)\<rparr>)"

lemma advance_checkpoint_eq:
  assumes len: "length (cachedForcedInclusionTxs c) < 2 ^ 64" and k: "k \<le> length (forced_left c)"
  shows "advance_checkpoint env c h F (of_nat k) =
    (if h > 0 \<or> F \<noteq> []
     then (case cp_Save (cpenv env) (cpdb c) (checkpoint (advanced c h k)) of
        (Some e, db) \<Rightarrow> (Inl (Wrap ''failed to save checkpoint'' e), (advanced c h k)\<lparr>cpdb := db\<rparr>)
      | (None, db) \<Rightarrow> (Inr (TxIndex (checkpoint c) + of_nat k), (advanced c h k)\<lparr>cpdb := db\<rparr>))
     else (Inr 0, c))"
proof -
  let ?i = "TxIndex (checkpoint c)" and ?L = "length (cachedForcedInclusionTxs c)"
  have fl: "length (forced_left c) = ?L - unat ?i" by (simp add: forced_left_drop [OF len])
  have "of_nat ?L \<le> ?i + of_nat k \<longleftrightarrow> length (forced_left c) \<le> k"
  proof (cases "unat ?i < ?L")
    case True
    then have "unat ?i + k < 2 ^ 64" using k len fl by simp
    then have "unat (?i + of_nat k) = unat ?i + k" using k len fl by (simp add: unat_plus_if' unat_of_nat)
    then show ?thesis using len True fl by (auto simp: word_le_nat_alt unat_of_nat)
  next
    case False
    then have "k = 0" "length (forced_left c) = 0" using k fl by simp_all
    then show ?thesis using False len by (simp add: word_le_nat_alt unat_of_nat)
  qed
  then show ?thesis
    by (auto simp: advance_checkpoint_def advanced_def Let_def split: prod.splits option.splits)
qed

lemma advanced_left:
  assumes "length (cachedForcedInclusionTxs c) < 2 ^ 64" and "k \<le> length (forced_left c)"
  shows "forced_left (advanced c h k) = drop k (forced_left c)"
proof (cases "length (forced_left c) \<le> k")
  case True
  then show ?thesis by (simp add: advanced_def forced_left_def)
next
  case False
  let ?i = "TxIndex (checkpoint c)"
  have "length (forced_left c) = length (cachedForcedInclusionTxs c) - unat ?i" by (simp add: forced_left_drop [OF assms(1)])
  then have "unat ?i + k < 2 ^ 64" using False assms(1) by simp
  then have "unat (?i + of_nat k) = unat ?i + k" by (simp add: unat_plus_if' unat_of_nat)
  then show ?thesis
    using False assms(1) by (simp add: advanced_def forced_left_drop add.commute)
qed

definition call_ok :: "GetNextBatchResponse result \<Rightarrow> bool" where
  "call_ok res = (case res of Inr _ \<Rightarrow> True | Inl e \<Rightarrow> e = Sentinel ErrNoBatch)"

lemma finish_ok:
  assumes len: "length (cachedForcedInclusionTxs c) < 2 ^ 64" and ex: "filter_ok (exec ctx)"
    and f: "finish_batch env ctx c req h = (res, c')" and ok: "call_ok res"
  shows "if h > 0 \<or> forced_left c \<noteq> []
    then \<exists>db. cp_Save (cpenv env) (cpdb c) (checkpoint c') = (None, db) \<and>
      c' = (advanced (batch_queue env ctx c req) h (length (forced_processed env ctx c req)))\<lparr>cpdb := db\<rparr>
    else c' = batch_queue env ctx c req"
proof -
  let ?b = "batch_queue env ctx c req" and ?k = "length (forced_processed env ctx c req)"
  have left: "forced_left ?b = forced_left c" by (simp add: forced_left_def)
  have "advance_checkpoint env ?b h (forced_left c) (of_nat ?k) =
    (if h > 0 \<or> forced_left c \<noteq> []
     then (case cp_Save (cpenv env) (cpdb ?b) (checkpoint (advanced ?b h ?k)) of
        (Some e, db) \<Rightarrow> (Inl (Wrap ''failed to save checkpoint'' e), (advanced ?b h ?k)\<lparr>cpdb := db\<rparr>)
      | (None, db) \<Rightarrow> (Inr (TxIndex (checkpoint ?b) + of_nat ?k), (advanced ?b h ?k)\<lparr>cpdb := db\<rparr>))
     else (Inr 0, ?b))"
    using len forced_processed_le [OF ex, of env c req] by (intro advance_checkpoint_eq) (simp_all add: left)
  then show ?thesis
    using f ok by (auto simp: finish_batch_eq Let_def call_ok_def split: if_splits prod.splits sum.splits option.splits)
qed

section \<open>The mempool\<close>

lemma fetch_frame:
  assumes "fetchNextDAEpoch env ctx c mb = Some (res, c')"
  shows "squeue c' = squeue c" "checkpoint c' = checkpoint c" "daHeight c' = daHeight c" "cpdb c' = cpdb c" "sId c' = sId c"
  using assms by (auto simp: fetchNextDAEpoch_def updateCatchUpState_def Let_def split: option.splits sum.splits if_splits)

lemma prepared_squeue:
  assumes "prepared env ctx c req = Some (res, c')"
  shows "squeue c' = squeue c"
proof -
  have "squeue (bootstrap env ctx c) = squeue c"
    by (auto simp: bootstrap_def getInitialDAStartHeight_def Let_def split: prod.splits sum.splits)
  then show ?thesis using assms by (auto simp: prepared_def Let_def dest!: fetch_frame(1) split: if_splits)
qed

text \<open>The forced transactions that a call consumes.\<close>

definition call_consumed :: "('db, 'pk) seq_env \<Rightarrow> 'db seq_ctx \<Rightarrow> 'db Sequencer \<Rightarrow> GetNextBatchRequest \<Rightarrow> bytes list" where
  "call_consumed env ctx c req = (case prepared env ctx c req of
     Some (Inr h, c2) \<Rightarrow> map snd (forced_processed env ctx c2 req)
   | _ \<Rightarrow> [])"

lemma advance_frame:
  assumes "advance_checkpoint env c h F k = (res, c')"
  shows "squeue c' = squeue c" "catchUpState c' = catchUpState c"
  using assms by (auto simp: advance_checkpoint_def Let_def split: if_splits prod.splits option.splits)

lemma batch_queue_items:
  fixes env :: "('db, 'pk) seq_env" and req :: GetNextBatchRequest
  assumes wf: "queue_wf (squeue c)" and run: "\<not> isCatchingUp c" and ex: "filter_ok (exec ctx)"
  defines "mem \<equiv> mempool_statuses env ctx c req" and "q1 \<equiv> snd (Next (qenv env) (squeue c))"
  defines "P \<equiv> with_status FilterPostpone mem"
  shows "case queue_items (squeue c) of
      [] \<Rightarrow> mem = [] \<and> queue_items (squeue (batch_queue env ctx c req)) = []
    | b # bs \<Rightarrow> map snd mem = b \<and> queue_items (squeue (batch_queue env ctx c req)) =
        (if P \<noteq> [] \<and> fst (Prepend (qenv env) q1 P) = None then P # bs else bs)"
proof -
  obtain b q where n: "Next (qenv env) (squeue c) = (b, q)" by (cases "Next (qenv env) (squeue c)")
  have t: "take_mempool env c = (b, c\<lparr>squeue := q\<rparr>)" using run n by (simp add: take_mempool_def isCatchingUp_def)
  have m: "map snd mem = b" using mempool_statuses_txs [OF ex, of env c req] t by (simp add: mem_def)
  have wq: "queue_wf q" by (rule bq_fifo.next_inv [OF wf n])
  have it: "case queue_items (squeue c) of [] \<Rightarrow> b = [] \<and> queue_items q = [] | x # xs \<Rightarrow> b = x \<and> queue_items q = xs"
    by (rule bq_fifo.next_items [OF wf n])
  have "queue_items (squeue (batch_queue env ctx c req)) =
      (if P \<noteq> [] \<and> fst (Prepend (qenv env) q P) = None then P # queue_items q else queue_items q)"
    using bq_fifo.prepend_items [OF wq surjective_pairing, of "qenv env" P]
    by (simp add: batch_queue_def requeue_postponed_def t P_def mem_def)
  moreover have "b = [] \<Longrightarrow> P = []" using m by (simp add: P_def with_status_def)
  ultimately show ?thesis using it m n by (auto simp: q1_def split: list.splits)
qed

section \<open>Catching up is based sequencing\<close>

text \<open>A based sequencer in the state of a single sequencer.\<close>

definition as_based :: "'db Sequencer \<Rightarrow> 'db BasedSequencer" where
  "as_based c = \<lparr>bRetriever = fiRetriever c, bDaHeight = daHeight c, bCheckpoint = checkpoint c, bCpdb = cpdb c,
     currentBatchTxs = cachedForcedInclusionTxs c, bCurrentDAEndTime = currentDAEndTime c, bCurrentEpochTxCount = currentEpochTxCount c\<rparr>"

lemma as_based_sel [simp]:
  "bRetriever (as_based c) = fiRetriever c" "bDaHeight (as_based c) = daHeight c" "bCheckpoint (as_based c) = checkpoint c"
  "bCpdb (as_based c) = cpdb c" "currentBatchTxs (as_based c) = cachedForcedInclusionTxs c"
  "bCurrentDAEndTime (as_based c) = currentDAEndTime c" "bCurrentEpochTxCount (as_based c) = currentEpochTxCount c"
  "based_left (as_based c) = forced_left c"
  by (simp_all add: as_based_def based_left_def forced_left_def)

lemma as_based_fetch:
  assumes "catchUpState c = catchUpInProgress" and "fetchNextDAEpoch env ctx c mb = Some (res, c')" and "catchUpState c' = catchUpInProgress"
  shows "Based_fetchNextDAEpoch env ctx (as_based c) mb = Some (res, as_based c')"
proof -
  have u: "updateCatchUpState env ctx c = c" using assms(1) by (simp add: updateCatchUpState_def)
  obtain x r where R: "RetrieveForcedIncludedTxs (aenv env) (rpc ctx) (fiRetriever c) (Checkpoint.DAHeight (checkpoint c)) = Some (x, r)"
    using assms(2) by (auto simp: fetchNextDAEpoch_def u Let_def split: option.splits)
  show ?thesis
  proof (cases x)
    case (Inl e)
    then have "\<not> errors_is e ErrHeightFromFuture" "\<not> errors_is e ErrForceInclusionNotConfigured"
      using assms R by (auto simp: fetchNextDAEpoch_def u Let_def split: if_splits)
    then show ?thesis using assms(2) R Inl
      by (simp add: fetchNextDAEpoch_def Based_fetchNextDAEpoch_def u Let_def) (auto simp: as_based_def)
  next
    case (Inr ev)
    then show ?thesis using assms(2) R
      by (simp add: fetchNextDAEpoch_def Based_fetchNextDAEpoch_def u Let_def) (auto simp: as_based_def)
  qed
qed

lemma as_based_advance:
  "advance_checkpoint env c h F k = (res, c') \<Longrightarrow> based_advance env (as_based c) h F k = (res, as_based c')"
  by (auto simp: advance_checkpoint_def based_advance_def Let_def as_based_def split: if_splits prod.splits option.splits)

lemma finish_frame: "finish_batch env ctx c req h = (res, c') \<Longrightarrow> catchUpState c' = catchUpState c"
  by (auto simp: finish_batch_eq Let_def dest!: advance_frame(2) split: prod.splits sum.splits if_splits)

lemma as_based_finish:
  assumes ex: "filter_ok (exec ctx)" and cu: "catchUpState c = catchUpInProgress" and f: "finish_batch env ctx c req h = (res, c')"
  shows "based_finish env ctx (as_based c) req h = (res, as_based c')"
proof -
  let ?F = "forced_left c"
  have st: "based_statuses (exec ctx) ?F (MaxBytes req) = filter_statuses (exec ctx) ?F (MaxBytes req) (length ?F > 0)"
  proof (cases "?F = []")
    case True
    have "length (based_statuses (exec ctx) [] (MaxBytes req)) = 0"
      using ex by (auto simp: based_statuses_def filter_ok_def split: sum.splits) (metis length_0_conv list.size(3))
    then show ?thesis using True filter_statuses_length [OF ex, of "[]" "MaxBytes req" False] by simp
  qed (simp add: based_statuses_def filter_statuses_def getMaxGas_def max_gas_def)
  have t: "take_mempool env c = ([], c)" using cu by (simp add: take_mempool_def)
  have b: "batch_queue env ctx c req = c" "mempool_statuses env ctx c req = []"
    using mempool_statuses_txs [OF ex, of env c req] by (simp_all add: batch_queue_def t requeue_postponed_def with_status_def)
  have s: "batch_statuses env ctx c req = zip (based_statuses (exec ctx) ?F (MaxBytes req)) ?F"
    by (simp add: batch_statuses_def t st Let_def)
  then have p: "based_process (zip (based_statuses (exec ctx) ?F (MaxBytes req)) ?F) =
      (with_status FilterOK (forced_processed env ctx c req), of_nat (length (forced_processed env ctx c req)))"
    by (simp add: based_process_eq forced_processed_def)
  obtain x c3 where a: "advance_checkpoint env c h ?F (of_nat (length (forced_processed env ctx c req))) = (x, c3)"
    by (cases "advance_checkpoint env c h ?F (of_nat (length (forced_processed env ctx c req)))")
  have cu3: "catchUpState c3 = catchUpInProgress" using advance_frame(2) [OF a] cu by simp
  show ?thesis using f as_based_advance [OF a] cu3
    by (cases x) (auto simp: finish_batch_eq based_finish_def b a p isCatchingUp_def with_status_def Let_def split: if_splits)
qed

end
