(* ===== verification/Sequencer_Run.thy ===== *)
theory Sequencer_Run
  imports Sequencer_Spec Store_Spec
begin

text \<open>
  Runs of the single sequencer: batch requests, submissions, prefetches and restarts in any order. The
  invariant \<^verbatim>\<open>seq_inv\<close> relates the checkpoint to the content of the DA layer, and the theorem that
  forced inclusion is complete and exact over a run rests on it.
\<close>

section \<open>The forced transactions of the DA heights\<close>

text \<open>The transactions that fit in a batch, and those of the heights from \<open>start\<close> up to but excluding \<open>e\<close>.\<close>

definition fitting :: "u64 \<Rightarrow> bytes list \<Rightarrow> bytes list" where
  "fitting mb = filter (\<lambda>tx. \<not> of_nat (length tx) > mb)"

definition forced_upto :: "da_content \<Rightarrow> u64 \<Rightarrow> u64 \<Rightarrow> nat \<Rightarrow> bytes list" where
  "forced_upto chain mb start e = fitting mb (epoch_txs chain (map of_nat [unat start ..< e]))"

lemma forced_upto_append:
  assumes "unat start \<le> a" and "a \<le> b"
  shows "forced_upto chain mb start b = forced_upto chain mb start a @ fitting mb (epoch_txs chain (map of_nat [a ..< b]))"
proof -
  have "[unat start ..< b] = [unat start ..< a] @ [a ..< b]" using assms by (metis le_Suc_ex upt_add_eq_append)
  then show ?thesis by (simp add: forced_upto_def fitting_def epoch_txs_def)
qed

abbreviation cp_first :: "('db, 'pk) seq_env \<Rightarrow> 'db Sequencer \<Rightarrow> nat" where
  "cp_first env c \<equiv> epoch_first (unat (Checkpoint.DAHeight (checkpoint c)))
     (unat (DAStartHeight (genesis env))) (unat (DAEpochForcedInclusion (genesis env)))"

abbreviation cp_last :: "('db, 'pk) seq_env \<Rightarrow> 'db Sequencer \<Rightarrow> nat" where
  "cp_last env c \<equiv> epoch_last (unat (Checkpoint.DAHeight (checkpoint c)))
     (unat (DAStartHeight (genesis env))) (unat (DAEpochForcedInclusion (genesis env)))"

abbreviation cp_fits :: "('db, 'pk) seq_env \<Rightarrow> u64 \<Rightarrow> bool" where
  "cp_fits env h \<equiv> epoch_fits h (DAStartHeight (genesis env)) (DAEpochForcedInclusion (genesis env))"

text \<open>The DA layer and the execution layer behind a call: honest, serving every height that it has, and
  returning one status per transaction.\<close>

definition ctx_ok :: "('db, 'pk) seq_env \<Rightarrow> da_content \<Rightarrow> 'db seq_ctx \<Rightarrow> bool" where
  "ctx_ok env chain ctx \<longleftrightarrow> rpc_honest (rpc ctx) (forcedNamespaceBz (daClient env)) chain \<and> filter_ok (exec ctx) \<and>
     (\<forall>k. usable (rpc ctx) (forcedNamespaceBz (daClient env)) k \<or> from_future (rpc ctx) (forcedNamespaceBz (daClient env)) k)"

text \<open>The forced transactions of the epoch of the checkpoint.\<close>

definition epoch_of :: "('db, 'pk) seq_env \<Rightarrow> da_content \<Rightarrow> u64 \<Rightarrow> bytes list" where
  "epoch_of env chain h = epoch_txs chain (map of_nat
     [epoch_first (unat h) (unat (DAStartHeight (genesis env))) (unat (DAEpochForcedInclusion (genesis env))) ..<
      Suc (epoch_last (unat h) (unat (DAStartHeight (genesis env))) (unat (DAEpochForcedInclusion (genesis env))))])"

abbreviation cp_epoch :: "('db, 'pk) seq_env \<Rightarrow> da_content \<Rightarrow> u64 \<Rightarrow> 'db Sequencer \<Rightarrow> bytes list" where
  "cp_epoch env chain mb c \<equiv> fitting mb (epoch_of env chain (Checkpoint.DAHeight (checkpoint c)))"

text \<open>What a run needs: correct databases and codecs, a configured forced namespace, a start height, and
  epochs whose transactions can be counted by a \<^verbatim>\<open>uint64\<close>.\<close>

definition seq_ok :: "('db, 'pk) seq_env \<Rightarrow> ('db \<Rightarrow> view) \<Rightarrow> da_content \<Rightarrow> bool" where
  "seq_ok env vw chain \<longleftrightarrow> async_ok (aenv env) vw \<and> cp_ok (cpenv env) vw \<and> times_ok chain \<and>
     hasForcedNamespace (daClient env) \<and> DAStartHeight (genesis env) > 0 \<and>
     (\<forall>h. cp_fits env h \<longrightarrow> length (epoch_of env chain h) < 2 ^ 64)"

text \<open>The checkpoint in memory is the saved one; before the first save it is the start of the chain.\<close>

definition cp_stored :: "('db, 'pk) seq_env \<Rightarrow> ('db \<Rightarrow> view) \<Rightarrow> 'db \<Rightarrow> Checkpoint \<Rightarrow> bool" where
  "cp_stored env vw db cp \<longleftrightarrow> (case vw db (checkpointKey (cpenv env)) of
     None \<Rightarrow> cp = Checkpoint (DAStartHeight (genesis env)) 0
   | Some b \<Rightarrow> decoded_checkpoint (cpenv env) b = Some cp)"

text \<open>The invariant of a run: \<open>t\<close> are the forced transactions consumed by its \<open>n\<close> calls. They are those of
  the epochs before the checkpoint and the first ones of its epoch; that epoch is cached or, after a
  restart, not yet fetched again.\<close>

definition consumed_exact :: "('db, 'pk) seq_env \<Rightarrow> da_content \<Rightarrow> u64 \<Rightarrow> bytes list \<Rightarrow> 'db Sequencer \<Rightarrow> bool" where
  "consumed_exact env chain mb t c \<longleftrightarrow>
     t = forced_upto chain mb (DAStartHeight (genesis env)) (cp_first env c) @
         take (unat (TxIndex (checkpoint c))) (cp_epoch env chain mb c)"

definition seq_inv :: "('db, 'pk) seq_env \<Rightarrow> ('db \<Rightarrow> view) \<Rightarrow> da_content \<Rightarrow> u64 \<Rightarrow> nat \<Rightarrow> bytes list \<Rightarrow> 'db Sequencer \<Rightarrow> bool" where
  "seq_inv env vw chain mb n t c \<longleftrightarrow>
     fi_reach (aenv env) chain (daClient env) (DAStartHeight (genesis env)) (DAEpochForcedInclusion (genesis env)) (fiRetriever c) \<and>
     cp_stored env vw (cpdb c) (checkpoint c) \<and> daHeight c = Checkpoint.DAHeight (checkpoint c) \<and>
     DAStartHeight (genesis env) \<le> Checkpoint.DAHeight (checkpoint c) \<and>
     unat (Checkpoint.DAHeight (checkpoint c)) \<le> unat (DAStartHeight (genesis env)) + n \<and>
     (TxIndex (checkpoint c) \<noteq> 0 \<longrightarrow> unat (Checkpoint.DAHeight (checkpoint c)) = cp_last env c \<and>
        unat (TxIndex (checkpoint c)) < length (cp_epoch env chain mb c)) \<and>
     (cachedForcedInclusionTxs c \<noteq> [] \<longrightarrow> unat (Checkpoint.DAHeight (checkpoint c)) = cp_last env c \<and>
        cachedForcedInclusionTxs c = cp_epoch env chain mb c) \<and>
     consumed_exact env chain mb t c"

section \<open>Fetching\<close>

lemma cached_block_update [simp]: "cached_block env (UpdateCurrentHeight f h) k = cached_block env f k"
  by (simp add: cached_block_def GetCachedBlock_def UpdateCurrentHeight_def)

lemma update_frame [simp]:
  "checkpoint (updateCatchUpState env ctx c) = checkpoint c" "daHeight (updateCatchUpState env ctx c) = daHeight c"
  "fiRetriever (updateCatchUpState env ctx c) = fiRetriever c" "cpdb (updateCatchUpState env ctx c) = cpdb c"
  "cachedForcedInclusionTxs (updateCatchUpState env ctx c) = cachedForcedInclusionTxs c"
  "squeue (updateCatchUpState env ctx c) = squeue c" "sId (updateCatchUpState env ctx c) = sId c"
  "daStartHeight (updateCatchUpState env ctx c) = daStartHeight c"
  "currentEpochTxCount (updateCatchUpState env ctx c) = currentEpochTxCount c"
  by (simp_all add: updateCatchUpState_def Let_def split: sum.splits)

text \<open>A fetch at the checkpoint: the epoch has not ended, or it is there, or the DA layer has not reached
  its end.\<close>

lemma fetch_result:
  fixes env :: "('db, 'pk) seq_env"
  assumes ok: "seq_ok env vw chain" "ctx_ok env chain ctx"
    and reach: "fi_reach (aenv env) chain (daClient env) (DAStartHeight (genesis env)) (DAEpochForcedInclusion (genesis env)) (fiRetriever c)"
    and fits: "cp_fits env (Checkpoint.DAHeight (checkpoint c))"
  shows "\<exists>h c'. fetchNextDAEpoch env ctx c mb = Some (Inr h, c') \<and> checkpoint c' = checkpoint c \<and> daHeight c' = daHeight c \<and>
    cpdb c' = cpdb c \<and> squeue c' = squeue c \<and> sId c' = sId c \<and>
    fi_reach (aenv env) chain (daClient env) (DAStartHeight (genesis env)) (DAEpochForcedInclusion (genesis env)) (fiRetriever c') \<and>
    (h = 0 \<and> cachedForcedInclusionTxs c' = cachedForcedInclusionTxs c \<or>
     h = Checkpoint.DAHeight (checkpoint c) \<and> (if unat h = cp_last env c
       then cachedForcedInclusionTxs c' = cp_epoch env chain mb c
       else cachedForcedInclusionTxs c' = []))"
proof -
  let ?h = "Checkpoint.DAHeight (checkpoint c)" and ?c = "updateCatchUpState env ctx c"
  let ?ns = "forcedNamespaceBz (daClient env)"
  obtain es ee en where b: "CalculateEpochBoundaries ?h (DAStartHeight (genesis env)) (DAEpochForcedInclusion (genesis env)) = (es, ee, en)"
    by (metis prod_cases3)
  note u = unat_epoch_boundaries [OF fits b]
  have "async_ok (aenv env) vw" "times_ok chain" "rpc_honest (rpc ctx) ?ns chain" "hasForcedNamespace (daClient env)"
    using ok by (simp_all add: seq_ok_def ctx_ok_def)
  from forced_result [OF this(1,2) reach this(3,4) fits b]
  obtain res r where R: "RetrieveForcedIncludedTxs (aenv env) (rpc ctx) (fiRetriever c) ?h = Some (res, r)"
    and r: "fi_reach (aenv env) chain (daClient env) (DAStartHeight (genesis env)) (DAEpochForcedInclusion (genesis env)) r"
    and res: "case res of
       Inl e \<Rightarrow> ?h = ee \<and> errors_is e ErrHeightFromFuture \<and> (\<exists>k \<in> {es..ee}. from_future (rpc ctx) ?ns k)
     | Inr ev \<Rightarrow> if ?h \<noteq> ee then ev = \<lparr>evTimestamp = zero_time, StartDaHeight = ?h, EndDaHeight = ?h, evTxs = []\<rparr>
         else ev = exact_event chain es ee \<or> StartDaHeight ev = ?h \<and> EndDaHeight ev = ?h \<and> evTxs ev = [] \<and>
           (\<exists>k \<in> {es..ee}. \<not> usable (rpc ctx) ?ns k \<and> \<not> from_future (rpc ctx) ?ns k)" by blast
  have ev: "res = Inr (if ?h \<noteq> ee then \<lparr>evTimestamp = zero_time, StartDaHeight = ?h, EndDaHeight = ?h, evTxs = []\<rparr> else exact_event chain es ee)
      \<or> (\<exists>e. res = Inl e \<and> errors_is e ErrHeightFromFuture)"
    using res ok(2) by (auto simp: ctx_ok_def split: sum.splits if_splits)
  have eq: "?h = ee \<longleftrightarrow> unat ?h = cp_last env c" by (simp add: u(2) word_unat_eq_iff)
  have up: "u64_upto es ee = map of_nat [cp_first env c ..< Suc (cp_last env c)]" by (simp add: u64_upto_def u)
  show ?thesis
  proof (cases res)
    case (Inl e)
    then have "errors_is e ErrHeightFromFuture" using ev by auto
    then show ?thesis using r by (simp add: fetchNextDAEpoch_def Let_def R Inl)
  next
    case (Inr x)
    then have "x = (if ?h \<noteq> ee then \<lparr>evTimestamp = zero_time, StartDaHeight = ?h, EndDaHeight = ?h, evTxs = []\<rparr> else exact_event chain es ee)"
      using ev by simp
    then have "EndDaHeight x = ?h" "evTxs x = (if unat ?h = cp_last env c then epoch_of env chain ?h else [])"
      using eq by (auto simp: exact_event_def up epoch_of_def simp del: upt_Suc)
    then show ?thesis using r by (simp add: fetchNextDAEpoch_def Let_def R Inr fitting_def)
  qed
qed

lemma bootstrap_done: "Checkpoint.DAHeight (checkpoint c) \<noteq> 0 \<Longrightarrow> bootstrap env ctx c = c"
  by (simp add: bootstrap_def)

lemma cp_first_le_last: "0 < sz \<Longrightarrow> epoch_first h start sz \<le> epoch_last h start sz"
  by (simp add: epoch_last_def)

lemma advanced_frame [simp]:
  "fiRetriever (advanced c h k) = fiRetriever c" "sId (advanced c h k) = sId c" "squeue (advanced c h k) = squeue c"
  "catchUpState (advanced c h k) = catchUpState c" "currentDAEndTime (advanced c h k) = currentDAEndTime c"
  "currentEpochTxCount (advanced c h k) = currentEpochTxCount c"
  by (simp_all add: advanced_def)

lemma forced_left_cpdb [simp]: "forced_left (c\<lparr>cpdb := db\<rparr>) = forced_left c"
  by (simp add: forced_left_def)

lemma forced_left_batch_queue [simp]: "forced_left (batch_queue env ctx c req) = forced_left c"
  by (simp add: forced_left_def)


section \<open>A call keeps the invariant\<close>

lemma seq_okD:
  assumes "seq_ok env vw chain"
  shows "async_ok (aenv env) vw" "cp_ok (cpenv env) vw" "DAStartHeight (genesis env) \<noteq> 0"
    "cp_fits env h \<Longrightarrow> length (fitting mb (epoch_of env chain h)) < 2 ^ 64"
  using assms by (auto simp: seq_ok_def fitting_def intro: le_less_trans [OF length_filter_le])

lemma mid_epoch_prepared:
  assumes "length (cachedForcedInclusionTxs c) < 2 ^ 64" "forced_left c \<noteq> []" "Checkpoint.DAHeight (checkpoint c) \<noteq> 0"
  shows "prepared env ctx c req = Some (Inr (daHeight c), c)"
  using assms epoch_consumed_iff [OF assms(1)] by (simp add: prepared_def bootstrap_def Let_def)

text \<open>The epoch is over, so the checkpoint moves on; or it is there and at its last height.\<close>

lemma prepared_inv:
  fixes env :: "('db, 'pk) seq_env"
  assumes ok: "seq_ok env vw chain" "ctx_ok env chain ctx" and inv: "seq_inv env vw chain (MaxBytes req) n t c"
    and fits: "cp_fits env (daHeight c)"
  shows "\<exists>h c'. prepared env ctx c req = Some (Inr h, c') \<and> checkpoint c' = checkpoint c \<and> daHeight c' = daHeight c \<and>
    cpdb c' = cpdb c \<and> squeue c' = squeue c \<and>
    fi_reach (aenv env) chain (daClient env) (DAStartHeight (genesis env)) (DAEpochForcedInclusion (genesis env)) (fiRetriever c') \<and>
    (h = 0 \<and> cachedForcedInclusionTxs c' = [] \<or>
     h = daHeight c \<and> unat h \<noteq> cp_last env c \<and> cachedForcedInclusionTxs c' = [] \<or>
     h = daHeight c \<and> unat h = cp_last env c \<and> cachedForcedInclusionTxs c' = cp_epoch env chain (MaxBytes req) c)"
proof -
  let ?s = "DAStartHeight (genesis env)" and ?z = "DAEpochForcedInclusion (genesis env)" and ?mb = "MaxBytes req"
  have reach: "fi_reach (aenv env) chain (daClient env) ?s ?z (fiRetriever c)" using inv by (simp add: seq_inv_def)
  have h: "daHeight c = Checkpoint.DAHeight (checkpoint c)" using inv by (simp add: seq_inv_def)
  moreover have "?s \<le> daHeight c" "?s \<noteq> 0" using inv seq_okD(3) [OF ok(1)] by (simp_all add: seq_inv_def)
  ultimately have pos: "daHeight c > 0" by (auto simp: word_gt_0)
  have boot: "bootstrap env ctx c = c" using pos h by (intro bootstrap_done) auto
  show ?thesis
  proof (cases "cachedForcedInclusionTxs c = []")
    case True
    then have p: "prepared env ctx c req = fetchNextDAEpoch env ctx c ?mb"
      using pos by (simp add: prepared_def boot Let_def epoch_consumed_def)
    show ?thesis using fetch_result [OF ok reach, of ?mb] fits h True unfolding p by (simp split: if_splits) metis
  next
    case False
    then have l: "unat (daHeight c) = cp_last env c" "cachedForcedInclusionTxs c = cp_epoch env chain ?mb c"
      using inv h by (simp_all add: seq_inv_def)
    have "unat (TxIndex (checkpoint c)) < length (cp_epoch env chain ?mb c)"
      using inv False l by (cases "TxIndex (checkpoint c) = 0") (simp_all add: seq_inv_def)
    moreover have "length (cp_epoch env chain ?mb c) < 2 ^ 64" using seq_okD(4) [OF ok(1)] fits h by simp
    ultimately have "\<not> epoch_consumed c"
      using False l(2) by (simp add: epoch_consumed_def word_le_nat_alt unat_of_nat)
    then have "prepared env ctx c req = Some (Inr (daHeight c), c)" by (simp add: prepared_def boot Let_def)
    then show ?thesis using reach l by simp
  qed
qed

lemma advanced_stored:
  assumes ok: "cp_ok (cpenv env) vw" and s: "cp_Save (cpenv env) db cp = (None, db')"
  shows "cp_stored env vw db' cp"
  using cp_Save_ok [OF assms] by (auto simp: cp_stored_def)

text \<open>Consuming the rest of an epoch, and a part of it.\<close>

lemma advanced_consumed:
  fixes env :: "('db, 'pk) seq_env"
  assumes h: "h = Checkpoint.DAHeight (checkpoint c)" and fits: "cp_fits env h"
    and len: "length (cp_epoch env chain mb c) < 2 ^ 64"
    and cached: "if unat h = cp_last env c then cachedForcedInclusionTxs c = cp_epoch env chain mb c
      else cachedForcedInclusionTxs c = [] \<and> TxIndex (checkpoint c) = 0"
    and k: "k \<le> length (forced_left c)" and t: "consumed_exact env chain mb t c"
  shows "consumed_exact env chain mb (t @ take k (forced_left c)) (advanced c h k)"
proof -
  let ?s = "DAStartHeight (genesis env)" and ?z = "DAEpochForcedInclusion (genesis env)" and ?E = "cp_epoch env chain mb c"
  let ?i = "unat (TxIndex (checkpoint c))"
  note le = epoch_fits_bounds(1,2) [OF fits] and uh = epoch_fits_bounds(4) [OF fits]
  have left: "forced_left c = (if unat h = cp_last env c then drop ?i ?E else [])"
    using cached len by (auto simp: forced_left_drop)
  show ?thesis
  proof (cases "length (forced_left c) \<le> k")
    case True
    have "forced_upto chain mb ?s (Suc (cp_last env c)) = forced_upto chain mb ?s (cp_first env c) @ ?E"
      using le(2) by (subst forced_upto_append [of _ "cp_first env c"]) (simp_all add: epoch_first_def epoch_last_def epoch_of_def h)
    then show ?thesis
      using True t left uh le cached h by (auto simp: consumed_exact_def advanced_def epoch_first_Suc)
  next
    case False
    then have eq: "unat h = cp_last env c" using left by (cases "unat h = cp_last env c") simp_all
    then have "?i + k < 2 ^ 64" using False left len by simp
    then have "unat (TxIndex (checkpoint c) + of_nat k) = ?i + k" by (simp add: unat_plus_if' unat_of_nat)
    then show ?thesis using False t left eq by (simp add: consumed_exact_def advanced_def take_add)
  qed
qed

lemma advanced_le:
  assumes "h = Checkpoint.DAHeight (checkpoint c)" and "h < - 1" and "length (cachedForcedInclusionTxs c) < 2 ^ 64"
  shows "checkpoint c \<le> checkpoint (advanced c h k)"
proof (cases "length (forced_left c) \<le> k")
  case True
  have "unat (h + 1) = unat h + 1" using assms(2) by (simp add: u64_less_max_iff unat_u64_add)
  then have "h < h + 1" by (simp add: word_less_nat_alt)
  then show ?thesis using True assms(1) by (simp add: advanced_def less_eq_Checkpoint_def)
next
  case False
  let ?i = "TxIndex (checkpoint c)"
  have "unat ?i + k < 2 ^ 64" using False assms(3) by (simp add: forced_left_drop)
  then have "?i \<le> ?i + of_nat k" by (simp add: word_le_nat_alt unat_plus_if' unat_of_nat)
  then show ?thesis using False by (simp add: advanced_def less_eq_Checkpoint_def)
qed

lemma advanced_inv:
  fixes env :: "('db, 'pk) seq_env"
  assumes ok: "seq_ok env vw chain" and inv: "seq_inv env vw chain mb n t c"
    and h: "h = daHeight c" and fits: "cp_fits env h" and same: "checkpoint c2 = checkpoint c" "daHeight c2 = daHeight c"
    and reach: "fi_reach (aenv env) chain (daClient env) (DAStartHeight (genesis env)) (DAEpochForcedInclusion (genesis env)) (fiRetriever c2)"
    and cached: "if unat h = cp_last env c then cachedForcedInclusionTxs c2 = cp_epoch env chain mb c else cachedForcedInclusionTxs c2 = []"
    and k: "k \<le> length (forced_left c2)" and save: "cp_Save (cpenv env) db (checkpoint (advanced c2 h k)) = (None, db')"
  shows "seq_inv env vw chain mb (Suc n) (t @ take k (forced_left c2)) ((advanced c2 h k)\<lparr>cpdb := db'\<rparr>)"
proof -
  let ?s = "DAStartHeight (genesis env)" and ?z = "DAEpochForcedInclusion (genesis env)"
  have h': "h = Checkpoint.DAHeight (checkpoint c)" using inv h by (simp add: seq_inv_def)
  note le = epoch_fits_bounds(1,2) [OF fits] and uh = epoch_fits_bounds(4) [OF fits]
  have len: "length (cp_epoch env chain mb c) < 2 ^ 64" using seq_okD(4) [OF ok fits] h' by simp
  have ti: "unat h \<noteq> cp_last env c \<Longrightarrow> TxIndex (checkpoint c) = 0" using inv h' by (auto simp: seq_inv_def)
  have con: "consumed_exact env chain mb (t @ take k (forced_left c2)) (advanced c2 h k)"
    using inv h' same fits len cached k ti
    by (intro advanced_consumed) (simp_all add: seq_inv_def consumed_exact_def split: if_splits)
  have st: "cp_stored env vw db' (checkpoint (advanced c2 h k))" by (rule advanced_stored [OF seq_okD(2) [OF ok] save])
  show ?thesis
  proof (cases "length (forced_left c2) \<le> k")
    case True
    then show ?thesis using con st reach inv h' uh same
      by (simp add: seq_inv_def advanced_def consumed_exact_def word_le_nat_alt)
  next
    case False
    then have eq: "unat h = cp_last env c" "cachedForcedInclusionTxs c2 = cp_epoch env chain mb c"
      using cached by (cases "unat h = cp_last env c"; simp add: forced_left_def)+
    have left: "unat (TxIndex (checkpoint c)) + k < length (cp_epoch env chain mb c)"
      using False eq(2) len same by (simp add: forced_left_drop)
    then have "unat (TxIndex (checkpoint c) + of_nat k) = unat (TxIndex (checkpoint c)) + k"
      using len by (simp add: unat_plus_if' unat_of_nat)
    then show ?thesis using False con st reach inv h' same eq left
      by (simp add: seq_inv_def advanced_def consumed_exact_def)
  qed
qed

lemma call_inv:
  fixes env :: "('db, 'pk) seq_env"
  assumes ok: "seq_ok env vw chain" "ctx_ok env chain ctx" and inv: "seq_inv env vw chain (MaxBytes req) n t c"
    and fits: "cp_fits env (daHeight c)" and v: "isValid c (reqId req)"
  shows "\<exists>res c'. GetNextBatch env ctx c req = Some (res, c') \<and> (call_ok res \<longrightarrow> checkpoint c \<le> checkpoint c' \<and>
    seq_inv env vw chain (MaxBytes req) (Suc n) (t @ call_consumed env ctx c req) c')"
proof -
  let ?s = "DAStartHeight (genesis env)" and ?z = "DAEpochForcedInclusion (genesis env)" and ?E = "cp_epoch env chain (MaxBytes req) c"
  have ex: "filter_ok (exec ctx)" using ok(2) by (simp add: ctx_ok_def)
  have hc: "daHeight c = Checkpoint.DAHeight (checkpoint c)" using inv by (simp add: seq_inv_def)
  have pos: "daHeight c > 0" using inv seq_okD(3) [OF ok(1)] by (auto simp: seq_inv_def word_gt_0)
  have len: "length ?E < 2 ^ 64" using seq_okD(4) [OF ok(1) fits] hc by simp
  obtain h c2 where p: "prepared env ctx c req = Some (Inr h, c2)" "checkpoint c2 = checkpoint c" "daHeight c2 = daHeight c" "cpdb c2 = cpdb c"
      "fi_reach (aenv env) chain (daClient env) ?s ?z (fiRetriever c2)"
    and cases: "h = 0 \<and> cachedForcedInclusionTxs c2 = [] \<or> h = daHeight c \<and>
     (if unat h = cp_last env c then cachedForcedInclusionTxs c2 = ?E else cachedForcedInclusionTxs c2 = [])"
    using prepared_inv [OF ok inv fits] by (elim exE conjE) (auto split: if_splits)
  obtain res c' where f: "finish_batch env ctx c2 req h = (res, c')" by (cases "finish_batch env ctx c2 req h")
  have G: "GetNextBatch env ctx c req = Some (res, c')" by (simp add: GetNextBatch_prepared [OF v] p(1) f)
  let ?k = "length (forced_processed env ctx c2 req)" and ?b = "batch_queue env ctx c2 req"
  have con: "call_consumed env ctx c req = take ?k (forced_left c2)"
    by (simp add: call_consumed_def p(1) forced_processed_prefix [OF ex, symmetric])
  have k: "?k \<le> length (forced_left c2)" by (rule forced_processed_le [OF ex])
  have l2: "length (cachedForcedInclusionTxs c2) < 2 ^ 64" using cases len by (auto split: if_splits)
  have "checkpoint c \<le> checkpoint c' \<and> seq_inv env vw chain (MaxBytes req) (Suc n) (t @ take ?k (forced_left c2)) c'" if cok: "call_ok res"
  proof (cases "h = 0")
    case True
    then have e: "forced_left c2 = []" "cachedForcedInclusionTxs c2 = []" using cases pos by (auto simp: forced_left_def)
    then have "c' = ?b" using finish_ok [OF l2 ex f cok] True by simp
    then show ?thesis using inv e p by (simp add: seq_inv_def consumed_exact_def)
  next
    case False
    then have h: "h = daHeight c" and
      cached: "if unat h = cp_last env c then cachedForcedInclusionTxs c2 = ?E else cachedForcedInclusionTxs c2 = []"
      using cases by auto
    have "h > 0" using False by (simp add: word_gt_0)
    then obtain db where c': "cp_Save (cpenv env) (cpdb c2) (checkpoint c') = (None, db)" "c' = (advanced ?b h ?k)\<lparr>cpdb := db\<rparr>"
      using finish_ok [OF l2 ex f cok] by auto
    have "seq_inv env vw chain (MaxBytes req) (Suc n) (t @ take ?k (forced_left ?b)) ((advanced ?b h ?k)\<lparr>cpdb := db\<rparr>)"
      by (rule advanced_inv [OF ok(1) inv h _ _ _ _ _ _ c'(1) [unfolded c'(2), simplified]]) (use h fits p cached k in simp_all)
    moreover have "h < - 1" using epoch_fits_bounds(3) [OF fits] h by simp
    then have "checkpoint ?b \<le> checkpoint (advanced ?b h ?k)" using h hc p l2 by (intro advanced_le) simp_all
    ultimately show ?thesis using c'(2) p(2) by simp
  qed
  then show ?thesis using G con by simp
qed

section \<open>Runs\<close>

text \<open>Batches are requested with one byte limit, the only error being \<^verbatim>\<open>ErrNoBatch\<close>; transactions are
  submitted and blocks prefetched in between; the node restarts, when the executor sets the DA
  height that it recorded. All in any order.\<close>

inductive seq_run :: "('db, 'pk) seq_env \<Rightarrow> da_content \<Rightarrow> u64 \<Rightarrow> 'db Sequencer \<Rightarrow> nat \<Rightarrow> bytes list \<Rightarrow> 'db Sequencer \<Rightarrow> bool"
  for env chain mb c0 where
  run_start: "seq_run env chain mb c0 0 [] c0"
| run_submit: "seq_run env chain mb c0 n t c \<Longrightarrow> SubmitBatchTxs env c i b = (r, c') \<Longrightarrow> seq_run env chain mb c0 n t c'"
| run_prefetch: "seq_run env chain mb c0 n t c \<Longrightarrow> rpc_honest api (forcedNamespaceBz (daClient env)) chain \<Longrightarrow>
    seq_run env chain mb c0 n t (c\<lparr>fiRetriever := (fiRetriever c)\<lparr>asyncFetcher :=
      prefetchBlocks (aenv env) api (asyncFetcher (fiRetriever c))\<rparr>\<rparr>)"
| run_restart: "seq_run env chain mb c0 n t c \<Longrightarrow> NewSequencer env ctx queuedb (cpdb c) i m = Inr c' \<Longrightarrow>
    seq_run env chain mb c0 n t (SetDAHeight c' (daHeight c))"
| run_batch: "seq_run env chain mb c0 n t c \<Longrightarrow> ctx_ok env chain ctx \<Longrightarrow> isValid c (reqId req) \<Longrightarrow> MaxBytes req = mb \<Longrightarrow>
    GetNextBatch env ctx c req = Some (res, c') \<Longrightarrow> call_ok res \<Longrightarrow>
    seq_run env chain mb c0 (Suc n) (t @ call_consumed env ctx c req) c'"

lemma submit_frame:
  assumes "SubmitBatchTxs env c i b = (r, c')"
  shows "\<exists>q. c' = c\<lparr>squeue := q\<rparr>"
  using assms by (auto simp: SubmitBatchTxs_def split: if_splits option.splits prod.splits)
    (metis Sequencer.surjective Sequencer.update_convs(2))+

lemma new_sequencer_state:
  fixes env :: "('db, 'pk) seq_env"
  assumes ok: "seq_ok env vw chain" and new: "NewSequencer env ctx queuedb cdb i m = Inr c" and st: "cp_stored env vw cdb cp"
  shows "fiRetriever c = NewForcedInclusionRetriever (aenv env) (daClient env) (DAStartHeight (genesis env)) (DAEpochForcedInclusion (genesis env))"
    "daHeight c = DAStartHeight (genesis env)" "checkpoint c = cp" "cachedForcedInclusionTxs c = []" "cpdb c = cdb" "sId c = i"
    "catchUpState c = catchUpUnchecked"
proof -
  obtain x where x: "(case cp_Load (cpenv env) cdb of Inr x \<Rightarrow> Inr x | Inl e \<Rightarrow>
      if errors_is e ErrCheckpointNotFound then Inr (Checkpoint (DAStartHeight (genesis env)) 0)
      else Inl (Wrap ''failed to load checkpoint from DB'' e)) = Inr x"
    using new by (auto simp: NewSequencer_def Let_def split: prod.splits option.splits sum.splits if_splits)
  have "x = cp"
  proof (cases "cp_Load (cpenv env) cdb")
    case (Inl e)
    then show ?thesis using x st cp_Load_missing [OF seq_okD(2) [OF ok] Inl] by (auto simp: cp_stored_def split: if_splits)
  next
    case (Inr y)
    then show ?thesis using x st cp_Load_Inr [OF seq_okD(2) [OF ok] Inr] by (auto simp: cp_stored_def)
  qed
  with x new seq_okD(3) [OF ok]
  show "fiRetriever c = NewForcedInclusionRetriever (aenv env) (daClient env) (DAStartHeight (genesis env)) (DAEpochForcedInclusion (genesis env))"
    "daHeight c = DAStartHeight (genesis env)" "checkpoint c = cp" "cachedForcedInclusionTxs c = []" "cpdb c = cdb" "sId c = i"
    "catchUpState c = catchUpUnchecked"
    by (auto simp: NewSequencer_def getInitialDAStartHeight_def Let_def split: prod.splits option.splits)
qed

lemma restart_inv:
  fixes env :: "('db, 'pk) seq_env"
  assumes ok: "seq_ok env vw chain" and inv: "seq_inv env vw chain mb n t c"
    and new: "NewSequencer env ctx queuedb (cpdb c) i m = Inr c'"
  shows "seq_inv env vw chain mb n t (SetDAHeight c' (daHeight c))"
proof -
  have "cp_stored env vw (cpdb c) (checkpoint c)" using inv by (simp add: seq_inv_def)
  note s = new_sequencer_state [OF ok new this]
  show ?thesis using inv by (simp add: seq_inv_def SetDAHeight_def s fi_new consumed_exact_def)
qed

lemma new_sequencer_inv:
  fixes env :: "('db, 'pk) seq_env"
  assumes ok: "seq_ok env vw chain" and new: "NewSequencer env ctx queuedb cdb i m = Inr c0"
    and fresh: "vw cdb (checkpointKey (cpenv env)) = None"
  shows "seq_inv env vw chain mb 0 [] c0"
proof -
  have "cp_stored env vw cdb (Checkpoint (DAStartHeight (genesis env)) 0)" using fresh by (simp add: cp_stored_def)
  note s = new_sequencer_state [OF ok new this] and this
  then show ?thesis by (simp add: seq_inv_def fi_new consumed_exact_def forced_upto_def fitting_def epoch_first_def epoch_txs_def)
qed

lemma run_inv:
  fixes env :: "('db, 'pk) seq_env"
  assumes ok: "seq_ok env vw chain" and start: "seq_inv env vw chain mb 0 [] c0"
    and run: "seq_run env chain mb c0 n t c"
    and fits: "unat (DAStartHeight (genesis env)) + n < 2 ^ 64" "cp_fits env (DAStartHeight (genesis env) + of_nat n)"
  shows "seq_inv env vw chain mb n t c"
  using run fits
proof (induction rule: seq_run.induct)
  case run_start
  show ?case by (rule start)
next
  case (run_submit n t c i b r c')
  then show ?case using submit_frame [OF run_submit.hyps(2)] by (auto simp: seq_inv_def consumed_exact_def)
next
  case (run_prefetch n t c api)
  then have "seq_inv env vw chain mb n t c" by simp
  then show ?case using fi_prefetch [OF _ run_prefetch.hyps(2)] by (auto simp: seq_inv_def consumed_exact_def)
next
  case (run_restart n t c ctx queuedb i m c')
  then show ?case using restart_inv [OF ok] by blast
next
  case (run_batch n t c ctx req res c')
  let ?s = "DAStartHeight (genesis env)"
  have u: "unat (?s + of_nat k) = unat ?s + k" if "k \<le> Suc n" for k
    using run_batch.prems(1) that by (simp add: unat_plus_if' unat_of_nat)
  have "?s + of_nat n \<le> ?s + of_nat (Suc n)" using u [of n] u [of "Suc n"] by (simp add: word_le_nat_alt)
  moreover have "?s \<le> ?s + of_nat n" using u [of n] by (simp add: word_le_nat_alt)
  ultimately have fn: "cp_fits env (?s + of_nat n)" by (intro epoch_fits_le [OF run_batch.prems(2)])
  then have inv: "seq_inv env vw chain (MaxBytes req) n t c" using run_batch by simp
  then have "?s \<le> daHeight c" "daHeight c \<le> ?s + of_nat n" using u [of n] by (simp_all add: seq_inv_def word_le_nat_alt)
  then have "cp_fits env (daHeight c)" by (intro epoch_fits_le [OF fn])
  from call_inv [OF ok run_batch.hyps(2) inv this run_batch.hyps(3)]
  show ?case using run_batch.hyps(4,5,6) by auto
qed

section \<open>Properties\<close>


subsection \<open>An environment to run the sequencers on\<close>

definition cp_codec :: "pb_SequencerDACheckpoint codec" where
  "cp_codec = \<lparr>enc = (\<lambda>m. Inr (flag_enc [put_be64 (pbc_da_height m), put_be64 (pbc_tx_index m)])),
     dec = (\<lambda>b. case flag_dec [] b of Inr [h, i] \<Rightarrow> Inr \<lparr>pbc_da_height = get_be64 h, pbc_tx_index = get_be64 i\<rparr>
       | _ \<Rightarrow> Inl (Msg ''wire''))\<rparr>"

lemma cp_codec_ok [simp]: "codec_ok cp_codec"
  by (auto simp: codec_ok_on_def cp_codec_def)

definition demo_genesis :: Genesis where
  "demo_genesis = (NewGenesis ''rollup'' 1 0 (Some [1]))\<lparr>DAStartHeight := 1, DAEpochForcedInclusion := 2\<rparr>"

definition demo_cp :: "mem_db cp_env" where
  "demo_cp = \<lparr>cp_ds = mem_datastore, checkpointKey = ''/single/checkpoint'', c_checkpoint = cp_codec\<rparr>"

definition demo_seq :: "(mem_db, bytes) seq_env" where
  "demo_seq = \<lparr>qenv = mem_queue_env, cpenv = demo_cp,
     aenv = demo_async, stenv = demo_store, genesis = demo_genesis, daClient = demo_client\<rparr>"

text \<open>An execution layer that takes one transaction per batch and postpones the others.\<close>

definition one_tx :: exec_api where
  "one_tx = \<lparr>GetExecutionInfo = Inr 0, FilterTxs = (\<lambda>txs mb mg f.
     Inr (case txs of [] \<Rightarrow> [] | tx # rest \<Rightarrow> FilterOK # map (\<lambda>_. FilterPostpone) rest))\<rparr>"

definition demo_ctx :: "mem_db seq_ctx" where
  "demo_ctx = \<lparr>rpc = demo_rpc [[1], [2, 3]], exec = one_tx, storedb = [], clock = 0\<rparr>"

definition demo_req :: GetNextBatchRequest where
  "demo_req = \<lparr>reqId = [], LastBatchData = [], MaxBytes = 100\<rparr>"

abbreviation two_blobs :: da_content where
  "two_blobs \<equiv> demo_chain [[1], [2, 3]]"

lemma demo_seq_sel [simp]:
  "qenv demo_seq = mem_queue_env" "aenv demo_seq = demo_async" "stenv demo_seq = demo_store" "genesis demo_seq = demo_genesis"
  "daClient demo_seq = demo_client" "cp_ds (cpenv demo_seq) = mem_datastore" "c_checkpoint (cpenv demo_seq) = cp_codec"
  "checkpointKey (cpenv demo_seq) = ''/single/checkpoint''"
  "DAStartHeight demo_genesis = 1" "DAEpochForcedInclusion demo_genesis = 2" "StartTime demo_genesis = 0"
  "exec demo_ctx = one_tx" "rpc demo_ctx = demo_rpc [[1], [2, 3]]" "MaxBytes demo_req = 100" "reqId demo_req = []" "storedb demo_ctx = []"
  by (simp_all add: demo_seq_def demo_cp_def demo_genesis_def NewGenesis_def demo_ctx_def demo_req_def)

lemma one_tx_ok [simp]: "filter_ok one_tx"
  by (auto simp: filter_ok_def one_tx_def split: list.splits)

lemma demo_ctx_ok [simp]: "ctx_ok demo_seq two_blobs demo_ctx"
  by (simp add: ctx_ok_def)

lemma demo_epoch: "epoch_of demo_seq two_blobs h = [[1], [2, 3], [1], [2, 3]]"
proof -
  have "[a ..< Suc (a + 2 - 1)] = [a, Suc a]" for a :: nat by (simp add: upt_rec)
  then show ?thesis by (simp add: epoch_of_def epoch_last_def epoch_txs_def demo_chain_def nonempty_blobs_def del: upt_Suc)
qed

lemma demo_seq_ok [simp]: "seq_ok demo_seq mem_view two_blobs"
proof -
  have "\<not> errors_is e ErrCheckpointNotFound" if "ds_get mem_datastore db k = Inl e" for db k e
    using that by (auto simp: mem_datastore_def split: option.splits)
  moreover have "\<not> errors_is e ErrCheckpointNotFound" if "dec cp_codec b = Inl e" for b e
    using that by (auto simp: cp_codec_def split: sum.splits list.splits)
  ultimately have "cp_ok (cpenv demo_seq) mem_view" by (simp add: cp_ok_def)
  then show ?thesis by (simp add: seq_ok_def demo_epoch)
qed

definition demo_start :: "mem_db Sequencer" where
  "demo_start = \<lparr>sId = [], squeue = NewBatchQueue [] 0, fiRetriever = NewForcedInclusionRetriever demo_async demo_client 1 2,
     daHeight = 1, daStartHeight = 1, checkpoint = Checkpoint 1 0, cpdb = [], cachedForcedInclusionTxs = [],
     catchUpState = catchUpUnchecked, currentDAEndTime = 0, currentEpochTxCount = 0\<rparr>"

lemma demo_new: "NewSequencer demo_seq demo_ctx [] [] [] 0 = Inr demo_start"
  by (simp add: NewSequencer_def Load_def NewBatchQueue_def cp_Load_def getInitialDAStartHeight_def mem_datastore_def
      mem_keys_def mem_view_def mem_queue_env_def demo_start_def Let_def)

lemma demo_retriever:
  "fr_client (fiRetriever demo_start) = demo_client" "fr_daStartHeight (fiRetriever demo_start) = 1"
  "fr_daEpochSize (fiRetriever demo_start) = 2"
  by (simp_all add: demo_start_def NewForcedInclusionRetriever_def)

lemma demo_bounds: "CalculateEpochBoundaries 1 1 2 = (1, 2, 1)" "CalculateEpochBoundaries 2 1 2 = (1, 2, 1)"
  by (simp_all add: CalculateEpochBoundaries_def CalculateEpochNumber_def Let_def)

lemma demo_fits: "epoch_fits 1 1 2" "epoch_fits 2 1 2" "epoch_fits 3 1 2"
  by (simp_all add: epoch_fits_def epoch_last_def epoch_first_def)

text \<open>The head of the DA layer is at height 9: the sequencer is catching up.\<close>

lemma demo_update:
  "catchUpState c = catchUpUnchecked \<Longrightarrow> checkpoint c = Checkpoint 1 0 \<Longrightarrow>
     catchUpState (updateCatchUpState demo_seq demo_ctx c) = catchUpInProgress"
  by (simp add: updateCatchUpState_def GetLatestDAHeight_def demo_rpc_def CalculateEpochNumber_def Let_def word_le_nat_alt split: sum.split)

lemma demo_retrieve:
  assumes "fi_reach demo_async two_blobs demo_client 1 2 r"
  shows "\<exists>r'. RetrieveForcedIncludedTxs demo_async (demo_rpc [[1], [2, 3]]) r 1 =
      Some (Inr \<lparr>evTimestamp = zero_time, StartDaHeight = 1, EndDaHeight = 1, evTxs = []\<rparr>, r') \<and> fi_reach demo_async two_blobs demo_client 1 2 r'"
    and "\<exists>r'. RetrieveForcedIncludedTxs demo_async (demo_rpc [[1], [2, 3]]) r 2 =
      Some (Inr (exact_event two_blobs 1 2), r') \<and> fi_reach demo_async two_blobs demo_client 1 2 r'"
proof -
  note r = forced_result [OF demo_async_ok demo_chain_ok(1) assms demo_chain_ok(2) demo_client_forced]
  show "\<exists>r'. RetrieveForcedIncludedTxs demo_async (demo_rpc [[1], [2, 3]]) r 1 =
      Some (Inr \<lparr>evTimestamp = zero_time, StartDaHeight = 1, EndDaHeight = 1, evTxs = []\<rparr>, r') \<and> fi_reach demo_async two_blobs demo_client 1 2 r'"
    using r [OF demo_fits(1) demo_bounds(1)] by (elim exE conjE) (case_tac res; simp)
  show "\<exists>r'. RetrieveForcedIncludedTxs demo_async (demo_rpc [[1], [2, 3]]) r 2 =
      Some (Inr (exact_event two_blobs 1 2), r') \<and> fi_reach demo_async two_blobs demo_client 1 2 r'"
    using r [OF demo_fits(2) demo_bounds(2)] by (elim exE conjE) (case_tac res; simp)
qed

definition demo_state :: "mem_db Sequencer \<Rightarrow> u64 \<Rightarrow> u64 \<Rightarrow> bool" where
  "demo_state c h i \<longleftrightarrow> fi_reach demo_async two_blobs demo_client 1 2 (fiRetriever c) \<and> checkpoint c = Checkpoint h i \<and>
     daHeight c = h \<and> sId c = [] \<and> cachedForcedInclusionTxs c = (if i = 0 then [] else [[1], [2, 3], [1], [2, 3]])"

text \<open>Saving to the demonstration database does not fail, and no batch is taken from the queue while
  catching up.\<close>

lemma demo_finish:
  fixes ctx :: "mem_db seq_ctx"
  assumes "catchUpState c = catchUpInProgress" "length (cachedForcedInclusionTxs c) < 2 ^ 64" "0 < h" "filter_ok (exec ctx)"
  defines "k \<equiv> length (forced_processed demo_seq ctx c demo_req)"
    and "v \<equiv> with_status FilterOK (forced_processed demo_seq ctx c demo_req)"
  shows "\<exists>ts db. finish_batch demo_seq ctx c demo_req h =
    (if v = [] then Inl (Sentinel ErrNoBatch) else Inr \<lparr>respBatch = v, respTimestamp = ts, BatchData = LastBatchData demo_req\<rparr>,
     (advanced c h k)\<lparr>cpdb := db\<rparr>)"
proof -
  have m: "mempool_statuses demo_seq ctx c demo_req = []" "batch_queue demo_seq ctx c demo_req = c"
    using assms(1) mempool_statuses_txs [OF assms(4), of demo_seq c demo_req]
    by (simp_all add: take_mempool_def batch_queue_def with_status_def requeue_postponed_def)
  obtain db where db: "cp_Save (cpenv demo_seq) (cpdb c) (checkpoint (advanced c h k)) = (None, db)"
    by (simp add: cp_Save_def cp_codec_def mem_datastore_def)
  have "k \<le> length (forced_left c)" unfolding k_def by (rule forced_processed_le [OF assms(4)])
  then have "advance_checkpoint demo_seq c h (forced_left c) (of_nat k) = (Inr (TxIndex (checkpoint c) + of_nat k), (advanced c h k)\<lparr>cpdb := db\<rparr>)"
    using assms(3) by (subst advance_checkpoint_eq [OF assms(2)]) (simp_all add: db)
  then show ?thesis using assms(1)
    by (intro exI [of _ "epoch_timestamp (currentDAEndTime c) (currentEpochTxCount c) (TxIndex (checkpoint c) + of_nat k)"] exI [of _ db])
      (simp add: finish_batch_eq m with_status_def isCatchingUp_def k_def v_def Let_def)
qed

lemma demo_call_1:
  assumes s: "demo_state c 1 0" "catchUpState c = catchUpUnchecked"
  shows "\<exists>c'. GetNextBatch demo_seq demo_ctx c demo_req = Some (Inl (Sentinel ErrNoBatch), c') \<and> demo_state c' 2 0 \<and>
    catchUpState c' = catchUpInProgress \<and> call_consumed demo_seq demo_ctx c demo_req = []"
proof -
  let ?u = "updateCatchUpState demo_seq demo_ctx c"
  obtain r where r: "RetrieveForcedIncludedTxs demo_async (demo_rpc [[1], [2, 3]]) (fiRetriever c) 1 =
      Some (Inr \<lparr>evTimestamp = zero_time, StartDaHeight = 1, EndDaHeight = 1, evTxs = []\<rparr>, r)" "fi_reach demo_async two_blobs demo_client 1 2 r"
    using demo_retrieve(1) s by (auto simp: demo_state_def)
  have "catchUpState ?u = catchUpInProgress" using s demo_update by (simp add: demo_state_def)
  then obtain c2 where p: "prepared demo_seq demo_ctx c demo_req = Some (Inr 1, c2)" "catchUpState c2 = catchUpInProgress"
      "checkpoint c2 = Checkpoint 1 0" "cachedForcedInclusionTxs c2 = []" "sId c2 = []" "fiRetriever c2 = r"
    using s r(1) by (simp add: prepared_def demo_state_def bootstrap_def epoch_consumed_def fetchNextDAEpoch_def Let_def)
  moreover have "forced_processed demo_seq demo_ctx c2 demo_req = []" using p by (simp add: forced_processed_def forced_left_def processed_def)
  moreover obtain db where "finish_batch demo_seq demo_ctx c2 demo_req 1 = (Inl (Sentinel ErrNoBatch), (advanced c2 1 0)\<lparr>cpdb := db\<rparr>)"
    using demo_finish [OF p(2), of 1 demo_ctx] p calculation by (auto simp: with_status_def)
  ultimately show ?thesis using s r(2)
    by (simp add: GetNextBatch_prepared isValid_def demo_state_def call_consumed_def advanced_def forced_left_def)
qed

lemma demo_call_2:
  assumes s: "demo_state c 2 0" "catchUpState c = catchUpInProgress"
  shows "\<exists>c' ts. GetNextBatch demo_seq demo_ctx c demo_req = Some (Inr \<lparr>respBatch = [[1]], respTimestamp = ts, BatchData = []\<rparr>, c') \<and>
    demo_state c' 2 1 \<and> catchUpState c' = catchUpInProgress \<and> call_consumed demo_seq demo_ctx c demo_req = [[1]]"
proof -
  let ?E = "[[1], [2, 3], [1], [2, 3]]"
  obtain r where r: "RetrieveForcedIncludedTxs demo_async (demo_rpc [[1], [2, 3]]) (fiRetriever c) 2 =
      Some (Inr (exact_event two_blobs 1 2), r)" "fi_reach demo_async two_blobs demo_client 1 2 r"
    using demo_retrieve(2) s by (auto simp: demo_state_def)
  have u: "updateCatchUpState demo_seq demo_ctx c = c" using s by (simp add: updateCatchUpState_def)
  have e: "evTxs (exact_event two_blobs 1 2) = ?E" "EndDaHeight (exact_event two_blobs 1 2) = 2"
    by (simp_all add: exact_event_def epoch_txs_def u64_upto_def demo_chain_def nonempty_blobs_def upt_rec)
  obtain c2 where p: "prepared demo_seq demo_ctx c demo_req = Some (Inr 2, c2)" "catchUpState c2 = catchUpInProgress"
      "checkpoint c2 = Checkpoint 2 0" "cachedForcedInclusionTxs c2 = ?E" "sId c2 = []" "fiRetriever c2 = r" "daHeight c2 = 2"
    using s r(1) by (simp add: prepared_def demo_state_def bootstrap_def epoch_consumed_def fetchNextDAEpoch_def u e Let_def word_less_nat_alt)
  have l: "forced_left c2 = ?E" using p by (simp add: forced_left_def word_less_nat_alt)
  have fp: "forced_processed demo_seq demo_ctx c2 demo_req = [(FilterOK, [1])]"
    by (simp add: forced_processed_def batch_statuses_def l take_mempool_def p(2) filter_statuses_def one_tx_def processed_def)
  then obtain db ts where "finish_batch demo_seq demo_ctx c2 demo_req 2 =
      (Inr \<lparr>respBatch = [[1]], respTimestamp = ts, BatchData = []\<rparr>, (advanced c2 2 1)\<lparr>cpdb := db\<rparr>)"
    using demo_finish [OF p(2), of 2 demo_ctx] fp p by (auto simp: with_status_def demo_req_def)
  then show ?thesis using s p fp r(2)
    by (simp add: GetNextBatch_prepared isValid_def demo_state_def call_consumed_def advanced_def l)
qed

lemma demo_run:
  "\<exists>c. seq_run demo_seq two_blobs 100 demo_start 2 [[1]] c \<and> demo_state c 2 1 \<and> catchUpState c = catchUpInProgress"
proof -
  have s: "demo_state demo_start 1 0" "catchUpState demo_start = catchUpUnchecked"
    by (simp_all add: demo_state_def demo_start_def fi_new)
  obtain c1 where c1: "GetNextBatch demo_seq demo_ctx demo_start demo_req = Some (Inl (Sentinel ErrNoBatch), c1)" "demo_state c1 2 0"
      "catchUpState c1 = catchUpInProgress" "call_consumed demo_seq demo_ctx demo_start demo_req = []"
    using demo_call_1 [OF s] by blast
  obtain c2 ts where c2: "GetNextBatch demo_seq demo_ctx c1 demo_req = Some (Inr \<lparr>respBatch = [[1]], respTimestamp = ts, BatchData = []\<rparr>, c2)"
      "demo_state c2 2 1" "catchUpState c2 = catchUpInProgress" "call_consumed demo_seq demo_ctx c1 demo_req = [[1]]"
    using demo_call_2 [OF c1(2,3)] by blast
  have "seq_run demo_seq two_blobs 100 demo_start (Suc 0) ([] @ []) c1"
    using run_batch [OF run_start demo_ctx_ok _ _ c1(1)] s(1) c1(4) by (simp add: isValid_def demo_state_def call_ok_def)
  then have "seq_run demo_seq two_blobs 100 demo_start (Suc (Suc 0)) ([] @ [[1]]) c2"
    using run_batch [OF _ demo_ctx_ok _ _ c2(1), of 100 demo_start "Suc 0" "[]"] c1(2) c2(4) by (simp add: isValid_def demo_state_def call_ok_def)
  then show ?thesis using c2 by (auto simp: numeral_2_eq_2)
qed


text \<open>
  C4: A batch is made of the forced transactions it consumes followed by mempool transactions, those
  that the filter accepts and in order. Outside of catch-up the mempool transactions are those of the
  first batch in the queue: what the filter postpones returns to the front of the queue when the
  write succeeds, and nothing else of the queue changes. While catching up the queue is not touched.
\<close>

theorem batch_conserves_mempool:
  assumes ex: "filter_ok (exec ctx)" and wf: "queue_wf (squeue c)" and v: "isValid c (reqId req)"
    and G: "GetNextBatch env ctx c req = Some (Inr resp, c')"
  shows "\<exists>forced mem. respBatch resp = with_status FilterOK forced @ with_status FilterOK mem \<and>
    map snd forced = call_consumed env ctx c req \<and>
    (if isCatchingUp c' then mem = [] \<and> squeue c' = squeue c
     else (case queue_items (squeue c) of
        [] \<Rightarrow> mem = [] \<and> queue_items (squeue c') = []
      | b # bs \<Rightarrow> map snd mem = b \<and> (let P = with_status FilterPostpone mem in
          queue_items (squeue c') =
            (if P \<noteq> [] \<and> fst (Prepend (qenv env) (snd (Next (qenv env) (squeue c))) P) = None then P # bs else bs))))"
proof -
  obtain h c2 where p: "prepared env ctx c req = Some (Inr h, c2)" and f: "finish_batch env ctx c2 req h = (Inr resp, c')"
    using G by (auto simp: GetNextBatch_prepared [OF v] split: option.splits sum.splits prod.splits)
  have q: "squeue c2 = squeue c" by (rule prepared_squeue [OF p])
  obtain i where a: "advance_checkpoint env (batch_queue env ctx c2 req) h (forced_left c2)
      (of_nat (length (forced_processed env ctx c2 req))) = (Inr i, c')"
    and resp: "respBatch resp = with_status FilterOK (forced_processed env ctx c2 req) @ with_status FilterOK (mempool_statuses env ctx c2 req)"
    using f by (auto simp: finish_batch_eq Let_def split: prod.splits sum.splits if_splits)
  note fr = advance_frame [OF a]
  let ?m = "mempool_statuses env ctx c2 req"
  have "if isCatchingUp c' then ?m = [] \<and> squeue c' = squeue c
     else (case queue_items (squeue c) of
        [] \<Rightarrow> ?m = [] \<and> queue_items (squeue c') = []
      | b # bs \<Rightarrow> map snd ?m = b \<and> (let P = with_status FilterPostpone ?m in
          queue_items (squeue c') =
            (if P \<noteq> [] \<and> fst (Prepend (qenv env) (snd (Next (qenv env) (squeue c))) P) = None then P # bs else bs)))"
  proof (cases "isCatchingUp c'")
    case True
    then have t: "take_mempool env c2 = ([], c2)" using fr(2) by (simp add: take_mempool_def isCatchingUp_def)
    then have "?m = []" using mempool_statuses_txs [OF ex, of env c2 req] by simp
    then show ?thesis using True t fr(1) q by (simp add: batch_queue_def requeue_postponed_def with_status_def)
  next
    case False
    then have "\<not> isCatchingUp c2" using fr(2) by (simp add: isCatchingUp_def)
    then show ?thesis using batch_queue_items [OF _ _ ex, of c2 env req] wf False fr(1) q
      by (cases "queue_items (squeue c)") (simp_all add: Let_def)
  qed
  then show ?thesis using resp p
    by (intro exI [of _ "forced_processed env ctx c2 req"] exI [of _ ?m]) (simp add: call_consumed_def)
qed

lemma demo_finish_done:
  assumes "\<not> isCatchingUp c"
  shows "\<exists>resp c'. finish_batch demo_seq demo_ctx c demo_req h = (Inr resp, c') \<and> \<not> isCatchingUp c'"
proof -
  let ?b = "batch_queue demo_seq demo_ctx c demo_req" and ?k = "of_nat (length (forced_processed demo_seq demo_ctx c demo_req))"
  have "fst (cp_Save (cpenv demo_seq) db cp) = None" for db cp by (simp add: cp_Save_def cp_codec_def mem_datastore_def)
  then have "\<exists>i c'. advance_checkpoint demo_seq ?b h (forced_left c) ?k = (Inr i, c')"
    by (auto simp: advance_checkpoint_def Let_def split: prod.splits option.splits) (metis fst_conv option.distinct(1))+
  then obtain i c' where a: "advance_checkpoint demo_seq ?b h (forced_left c) ?k = (Inr i, c')" by blast
  moreover have "\<not> isCatchingUp c'" using assms advance_frame(2) [OF a] by (simp add: isCatchingUp_def)
  ultimately show ?thesis by (simp add: finish_batch_eq Let_def)
qed

theorem batch_conserves_mempool_witness:
  "\<exists>resp c' mem. GetNextBatch demo_seq demo_ctx (demo_start\<lparr>catchUpState := catchUpDone, squeue := demo_queue\<rparr>) demo_req = Some (Inr resp, c') \<and>
     map snd mem = [[8], [9]] \<and> (let P = with_status FilterPostpone mem in
       queue_items (squeue c') = (if P \<noteq> [] \<and> fst (Prepend mem_queue_env (snd (Next mem_queue_env demo_queue)) P) = None then [P] else []))"
proof -
  let ?c = "demo_start\<lparr>catchUpState := catchUpDone, squeue := demo_queue\<rparr>"
  obtain r where r: "RetrieveForcedIncludedTxs demo_async (demo_rpc [[1], [2, 3]]) (fiRetriever demo_start) 1 =
      Some (Inr \<lparr>evTimestamp = zero_time, StartDaHeight = 1, EndDaHeight = 1, evTxs = []\<rparr>, r)"
    using demo_retrieve(1) [of "fiRetriever demo_start"] by (auto simp: demo_start_def fi_new)
  have st: "daHeight demo_start = 1" "checkpoint demo_start = Checkpoint 1 0" "cachedForcedInclusionTxs demo_start = []" "sId demo_start = []"
    by (simp_all add: demo_start_def)
  obtain c2 where p: "prepared demo_seq demo_ctx ?c demo_req = Some (Inr 1, c2)" "\<not> isCatchingUp c2"
    using r by (simp add: prepared_def st bootstrap_def epoch_consumed_def fetchNextDAEpoch_def updateCatchUpState_def isCatchingUp_def Let_def)
  obtain resp c' where f: "finish_batch demo_seq demo_ctx c2 demo_req 1 = (Inr resp, c')" "\<not> isCatchingUp c'"
    using demo_finish_done [OF p(2)] by blast
  have v: "isValid ?c (reqId demo_req)" by (simp add: isValid_def st)
  have G: "GetNextBatch demo_seq demo_ctx ?c demo_req = Some (Inr resp, c')" by (simp add: GetNextBatch_prepared [OF v] p(1) f(1))
  have wf: "queue_wf (squeue ?c)"
    by (simp add: queue_wf_def demo_queue_def NewBatchQueue_def AddBatch_def Next_def persistBatch_def compact_def
      mem_queue_env_def mem_datastore_def flag_enc_def Let_def)
  from batch_conserves_mempool [OF _ wf v G] obtain mem where "map snd mem = [[8], [9]]" "let P = with_status FilterPostpone mem in
       queue_items (squeue c') = (if P \<noteq> [] \<and> fst (Prepend mem_queue_env (snd (Next mem_queue_env demo_queue)) P) = None then [P] else [])"
    using f(2) by (simp add: demo_queue_items) metis
  then show ?thesis using G by (intro exI [of _ resp] exI [of _ c'] exI [of _ mem]) simp
qed

text \<open>
  C6: Catching up is based sequencing. As long as the single sequencer is catching up, a call returns
  the same response, or error, as the based sequencer in the same state, and leaves it in the same
  state: the same checkpoint, saved in the same way, the same cached epoch and the same times.
\<close>

theorem catching_up_is_based:
  assumes ex: "filter_ok (exec ctx)" and v: "isValid c (reqId req)" and boot: "Checkpoint.DAHeight (checkpoint c) \<noteq> 0"
    and cu: "isCatchingUp c" "isCatchingUp c'" and G: "GetNextBatch env ctx c req = Some (res, c')"
  shows "Based_GetNextBatch env ctx (as_based c) req = Some (res, as_based c')"
proof -
  have b: "bootstrap env ctx c = c" using boot by (simp add: bootstrap_def)
  have cond: "(currentBatchTxs (as_based c) = [] \<or> of_nat (length (currentBatchTxs (as_based c))) \<le> TxIndex (bCheckpoint (as_based c))) = epoch_consumed c"
    by (simp add: epoch_consumed_def)
  show ?thesis
  proof (cases "daHeight c > 0 \<and> epoch_consumed c")
    case False
    then have "finish_batch env ctx c req (daHeight c) = (res, c')" using G v by (auto simp: GetNextBatch_def b Let_def split: if_splits)
    from as_based_finish [OF ex _ this] show ?thesis using False cu(1) cond
      by (auto simp: Based_GetNextBatch_def isCatchingUp_def Let_def)
  next
    case True
    then obtain x c2 where f: "fetchNextDAEpoch env ctx c (MaxBytes req) = Some (x, c2)"
      and r: "case x of Inl e \<Rightarrow> res = Inl e \<and> c' = c2 | Inr h \<Rightarrow> finish_batch env ctx c2 req h = (res, c')"
      using G v by (auto simp: GetNextBatch_def b Let_def split: option.splits sum.splits)
    have cu2: "catchUpState c2 = catchUpInProgress"
    proof (cases x)
      case (Inr h)
      then show ?thesis using r cu(2) finish_frame by (fastforce simp: isCatchingUp_def)
    qed (use r cu(2) in \<open>simp add: isCatchingUp_def\<close>)
    have "Based_fetchNextDAEpoch env ctx (as_based c) (MaxBytes req) = Some (x, as_based c2)"
      using as_based_fetch [OF _ f cu2] cu(1) by (simp add: isCatchingUp_def)
    then show ?thesis using True cond r as_based_finish [OF ex cu2]
      by (auto simp: Based_GetNextBatch_def Let_def split: sum.splits)
  qed
qed

theorem catching_up_is_based_witness:
  "\<exists>c c' ts. Based_GetNextBatch demo_seq demo_ctx (as_based c) demo_req =
     Some (Inr \<lparr>respBatch = [[1]], respTimestamp = ts, BatchData = []\<rparr>, as_based c') \<and> isCatchingUp c \<and> bCheckpoint (as_based c') = Checkpoint 2 1"
proof -
  have s: "demo_state demo_start 1 0" "catchUpState demo_start = catchUpUnchecked"
    by (simp_all add: demo_state_def demo_start_def fi_new)
  obtain c where c: "demo_state c 2 0" "catchUpState c = catchUpInProgress" using demo_call_1 [OF s] by blast
  obtain c' ts where c': "GetNextBatch demo_seq demo_ctx c demo_req = Some (Inr \<lparr>respBatch = [[1]], respTimestamp = ts, BatchData = []\<rparr>, c')"
      "demo_state c' 2 1" "catchUpState c' = catchUpInProgress" using demo_call_2 [OF c] by blast
  have "Based_GetNextBatch demo_seq demo_ctx (as_based c) demo_req =
      Some (Inr \<lparr>respBatch = [[1]], respTimestamp = ts, BatchData = []\<rparr>, as_based c')"
    by (rule catching_up_is_based [OF _ _ _ _ _ c'(1)]) (use c c' in \<open>simp_all add: demo_state_def isValid_def isCatchingUp_def\<close>)
  then show ?thesis using c c' by (intro exI [of _ c] exI [of _ c'] exI [of _ ts]) (simp add: isCatchingUp_def demo_state_def)
qed



end
