(* ===== verification/Sequencer_Edge.thy ===== *)
theory Sequencer_Edge
  imports Sequencer_Run
begin

text \<open>
  The single sequencer at its edges: the timestamps of the blocks of an epoch, the hash of a batch, and
  what happens when the checkpoint cannot be saved, when the DA layer fails at the end of an epoch, and
  when the DA height set by the executor is not the height of the checkpoint.
\<close>

section \<open>Timestamps\<close>

lemma sint_ms:
  assumes "unat n * 1000000 < 2 ^ 63"
  shows "sint (n * 1000000 :: u64) = int (unat n) * 1000000" "sint (- n * 1000000 :: u64) = - (int (unat n) * 1000000)"
proof -
  have sint: "sint (word_of_int k :: u64) = k" if "- (2 ^ 63) \<le> k" "k < 2 ^ 63" for k
    using that by (simp add: sint_sbintrunc' signed_take_bit_int_eq_self)
  have w: "n * 1000000 = word_of_int (int (unat n) * 1000000)" "- n * 1000000 = word_of_int (- (int (unat n) * 1000000))"
    by simp_all
  have "int (unat n * 1000000) < int (2 ^ 63)" using assms by (simp only: of_nat_less_iff)
  then have b: "int (unat n) * 1000000 < 2 ^ 63" by simp
  have z: "0 \<le> int (unat n) * 1000000" by simp
  show "sint (n * 1000000) = int (unat n) * 1000000" "sint (- n * 1000000) = - (int (unat n) * 1000000)"
    unfolding w using b z by (intro sint; linarith)+
qed

text \<open>
  C34: The timestamps of an epoch. As long as the number of transactions of an epoch, in milliseconds,
  fits the signed 64 bits of a duration, the timestamp after consuming the transaction with index \<open>i\<close>
  lies \<open>n - i\<close> milliseconds before the end of the epoch: it grows by one millisecond per transaction and
  the last block of the epoch lands exactly on the end time.
\<close>

theorem epoch_timestamp_spread:
  assumes "unat n * 1000000 < 2 ^ 63" and "i \<le> n"
  shows "epoch_timestamp e n i = e - int (unat n - unat i) * 1000000"
proof -
  have le: "unat i \<le> unat n" using assms(2) by (simp add: word_le_nat_alt)
  then have "unat i * 1000000 < 2 ^ 63" using assms(1) by linarith
  from sint_ms(1) [OF this] sint_ms(2) [OF assms(1)] le show ?thesis
    by (simp add: epoch_timestamp_def of_nat_diff algebra_simps)
qed

theorem epoch_timestamp_spread_witness:
  "epoch_timestamp 5000000 3 1 = 3000000 \<and> epoch_timestamp 5000000 3 3 = 5000000"
proof -
  have "unat (3 :: u64) * 1000000 < 2 ^ 63" "(1 :: u64) \<le> 3" "(3 :: u64) \<le> 3" by (simp_all add: word_le_nat_alt)
  then show ?thesis using epoch_timestamp_spread [of 3 1 5000000] epoch_timestamp_spread [of 3 3 5000000] by simp
qed

section \<open>The hash of a batch\<close>

text \<open>What a batch is hashed as.\<close>

definition hash_input :: "Batch \<Rightarrow> bytes" where
  "hash_input txs = (if txs = [] then [] else Batch_preimage txs)"

lemma put_be64_inj: "put_be64 a @ x = put_be64 b @ y \<longleftrightarrow> a = b \<and> x = y"
  by (metis append_eq_append_conv get_put_be64 length_put_be64)

lemma framed_inj:
  assumes "length a = length b" and "\<forall>tx \<in> set a \<union> set b. length tx < 2 ^ 64"
    and "concat (map (\<lambda>tx. put_be64 (of_nat (length tx)) @ tx) a) = concat (map (\<lambda>tx. put_be64 (of_nat (length tx)) @ tx) b)"
  shows "a = b"
  using assms
proof (induction a b rule: list_induct2)
  case (Cons x xs y ys)
  then have eq: "put_be64 (of_nat (length x)) @ x @ concat (map (\<lambda>tx. put_be64 (of_nat (length tx)) @ tx) xs) =
      put_be64 (of_nat (length y)) @ y @ concat (map (\<lambda>tx. put_be64 (of_nat (length tx)) @ tx) ys)" by simp
  then have "(of_nat (length x) :: u64) = of_nat (length y)" by (simp only: put_be64_inj)
  then have "unat (of_nat (length x) :: u64) = unat (of_nat (length y) :: u64)" by simp
  then have "length x = length y" using Cons.prems(1) by (simp add: unat_of_nat)
  moreover have "x @ concat (map (\<lambda>tx. put_be64 (of_nat (length tx)) @ tx) xs) = y @ concat (map (\<lambda>tx. put_be64 (of_nat (length tx)) @ tx) ys)"
    using eq by (simp only: put_be64_inj)
  ultimately have "x = y \<and> concat (map (\<lambda>tx. put_be64 (of_nat (length tx)) @ tx) xs) = concat (map (\<lambda>tx. put_be64 (of_nat (length tx)) @ tx) ys)"
    using append_eq_append_conv [of x y] by blast
  then show ?case using Cons.IH Cons.prems(1) by simp
qed simp

text \<open>
  C35: The hash of a batch binds it: a batch is hashed as a byte string that determines it, so two
  different batches with one hash are a collision of SHA-256; an empty and a nil batch hash alike.
\<close>

theorem batch_hash_binding:
  assumes "length a < 2 ^ 64" "length b < 2 ^ 64" "\<forall>tx \<in> set a \<union> set b. length tx < 2 ^ 64"
  shows "Batch_Hash (Some a) = sha256 (hash_input a) \<and> Batch_Hash None = sha256 (hash_input []) \<and> (hash_input a = hash_input b \<longleftrightarrow> a = b)"
proof -
  have "a = b" if eq: "hash_input a = hash_input b"
  proof (cases "a = [] \<or> b = []")
    case True
    have "Batch_preimage t \<noteq> []" for t
      using length_put_be64 [of "of_nat (length t)"] by (auto simp: Batch_preimage_def simp del: length_put_be64)
    then have "hash_input t = [] \<longleftrightarrow> t = []" for t by (simp add: hash_input_def)
    then show ?thesis using True eq by metis
  next
    case False
    then have "put_be64 (of_nat (length a)) @ concat (map (\<lambda>tx. put_be64 (of_nat (length tx)) @ tx) a) =
        put_be64 (of_nat (length b)) @ concat (map (\<lambda>tx. put_be64 (of_nat (length tx)) @ tx) b)"
      using eq by (simp add: hash_input_def Batch_preimage_def)
    then have l: "(of_nat (length a) :: u64) = of_nat (length b)"
      and c: "concat (map (\<lambda>tx. put_be64 (of_nat (length tx)) @ tx) a) = concat (map (\<lambda>tx. put_be64 (of_nat (length tx)) @ tx) b)"
      by (simp_all only: put_be64_inj)
    have "unat (of_nat (length a) :: u64) = unat (of_nat (length b) :: u64)" using l by simp
    then have "length a = length b" using assms(1,2) by (simp add: unat_of_nat)
    then show ?thesis by (rule framed_inj [OF _ assms(3) c])
  qed
  then show ?thesis by (auto simp: Batch_Hash_def hash_input_def)
qed

theorem batch_hash_binding_witness:
  "hash_input [[1], [2]] \<noteq> hash_input [[1, 2]] \<and> hash_input [[]] \<noteq> hash_input []"
  using batch_hash_binding [of "[[1], [2]]" "[[1, 2]]"] batch_hash_binding [of "[[]]" "[]"] by simp

section \<open>Calls in the middle of an epoch\<close>

lemma mid_epoch_call:
  assumes "length (cachedForcedInclusionTxs c) < 2 ^ 64" "forced_left c \<noteq> []" "Checkpoint.DAHeight (checkpoint c) \<noteq> 0"
    and v: "isValid c (reqId req)"
  shows "GetNextBatch env ctx c req = Some (finish_batch env ctx c req (daHeight c))"
    and "call_consumed env ctx c req = map snd (forced_processed env ctx c req)"
  by (simp_all add: GetNextBatch_prepared [OF v] call_consumed_def mid_epoch_prepared [OF assms(1-3)])

text \<open>
  C33: When the checkpoint cannot be saved, a call returns an error and no batch, yet the forced
  transactions it went through are gone from the ones that the sequencer has left: no later batch of
  this process has them.
\<close>

theorem save_failure_skips_forced:
  fixes env :: "('db, 'pk) seq_env"
  assumes ex: "filter_ok (exec ctx)" and mid: "length (cachedForcedInclusionTxs c) < 2 ^ 64" "forced_left c \<noteq> []"
      "Checkpoint.DAHeight (checkpoint c) \<noteq> 0" and v: "isValid c (reqId req)"
    and fail: "\<forall>db cp. fst (cp_Save (cpenv env) db cp) \<noteq> None"
  shows "\<exists>e c'. GetNextBatch env ctx c req = Some (Inl (Wrap ''failed to save checkpoint'' e), c') \<and>
    forced_left c = call_consumed env ctx c req @ forced_left c'"
proof -
  let ?b = "batch_queue env ctx c req" and ?k = "length (forced_processed env ctx c req)" and ?h = "daHeight c"
  have k: "?k \<le> length (forced_left c)" by (rule forced_processed_le [OF ex])
  obtain e db where s: "cp_Save (cpenv env) (cpdb c) (checkpoint (advanced ?b ?h ?k)) = (Some e, db)"
    using fail by (metis option.exhaust surjective_pairing)
  have "advance_checkpoint env ?b ?h (forced_left c) (of_nat ?k) =
      (Inl (Wrap ''failed to save checkpoint'' e), (advanced ?b ?h ?k)\<lparr>cpdb := db\<rparr>)"
    using mid k by (subst advance_checkpoint_eq) (simp_all add: s)
  then have f: "finish_batch env ctx c req ?h = (Inl (Wrap ''failed to save checkpoint'' e), (advanced ?b ?h ?k)\<lparr>cpdb := db\<rparr>)"
    by (simp add: finish_batch_eq Let_def)
  have "forced_left (advanced ?b ?h ?k) = drop ?k (forced_left c)" using advanced_left [of ?b ?k ?h] mid k by simp
  then have "forced_left c = call_consumed env ctx c req @ forced_left ((advanced ?b ?h ?k)\<lparr>cpdb := db\<rparr>)"
    using forced_processed_prefix [OF ex, of env c req] by (simp add: mid_epoch_call(2) [OF mid v])
  then show ?thesis using f by (auto simp: mid_epoch_call(1) [OF mid v])
qed

text \<open>The demonstration sequencer in the middle of an epoch, with a DA height of its own.\<close>

definition demo_mid :: "u64 \<Rightarrow> mem_db Sequencer" where
  "demo_mid h = demo_start\<lparr>daHeight := h, checkpoint := Checkpoint 4 1, cachedForcedInclusionTxs := [[1], [2]], catchUpState := catchUpInProgress\<rparr>"

lemma demo_mid_sel [simp]:
  "cachedForcedInclusionTxs (demo_mid h) = [[1], [2]]" "checkpoint (demo_mid h) = Checkpoint 4 1" "daHeight (demo_mid h) = h"
  "sId (demo_mid h) = []" "catchUpState (demo_mid h) = catchUpInProgress"
  by (simp_all add: demo_mid_def demo_start_def)

lemma demo_mid_left [simp]: "forced_left (demo_mid h) = [[2]]"
  by (simp add: forced_left_def word_less_nat_alt)

definition broken_seq :: "(mem_db, bytes) seq_env" where
  "broken_seq = demo_seq\<lparr>cpenv := demo_cp\<lparr>cp_ds := mem_datastore\<lparr>ds_put := (\<lambda>db k v. (Some (Msg ''disk full''), db))\<rparr>\<rparr>\<rparr>"

lemma demo_mid_consumed:
  "call_consumed env demo_ctx (demo_mid h) demo_req = [[2]]"
proof -
  have "take_mempool env (demo_mid h) = ([], demo_mid h)" by (simp add: take_mempool_def)
  then have "forced_processed env demo_ctx (demo_mid h) demo_req = [(FilterOK, [2])]"
    by (simp add: forced_processed_def batch_statuses_def filter_statuses_def one_tx_def processed_def)
  then show ?thesis by (simp add: mid_epoch_call(2) isValid_def)
qed

theorem save_failure_skips_forced_witness:
  "\<exists>e c'. GetNextBatch broken_seq demo_ctx (demo_mid 4) demo_req = Some (Inl (Wrap ''failed to save checkpoint'' e), c') \<and> forced_left c' = []"
proof -
  have "\<forall>db cp. fst (cp_Save (cpenv broken_seq) db cp) \<noteq> None"
    by (simp add: cp_Save_def broken_seq_def demo_cp_def cp_codec_def)
  from save_failure_skips_forced [OF _ _ _ _ _ this, of demo_ctx "demo_mid 4" demo_req]
  show ?thesis by (auto simp: demo_mid_consumed isValid_def)
qed

text \<open>
  C23: The call that completes an epoch which was begun by an earlier call sets the checkpoint behind the
  DA height of the sequencer, not behind the height of the epoch. When the two differ, as after a
  restart during catch-up, where the executor restores the DA height of the last block, the
  checkpoint goes back and forced transactions are consumed again.
\<close>

theorem epoch_end_uses_da_height:
  assumes ex: "filter_ok (exec ctx)" and mid: "length (cachedForcedInclusionTxs c) < 2 ^ 64" "forced_left c \<noteq> []"
      "Checkpoint.DAHeight (checkpoint c) \<noteq> 0" and v: "isValid c (reqId req)"
    and all: "call_consumed env ctx c req = forced_left c"
    and G: "GetNextBatch env ctx c req = Some (res, c')" and ok: "call_ok res"
  shows "checkpoint c' = Checkpoint (daHeight c + 1) 0 \<and> (daHeight c + 1 < Checkpoint.DAHeight (checkpoint c) \<longrightarrow> checkpoint c' < checkpoint c)"
proof -
  let ?b = "batch_queue env ctx c req" and ?k = "length (forced_processed env ctx c req)"
  have f: "finish_batch env ctx c req (daHeight c) = (res, c')" using G by (simp add: mid_epoch_call(1) [OF mid v])
  obtain db where c': "c' = (advanced ?b (daHeight c) ?k)\<lparr>cpdb := db\<rparr>"
    using finish_ok [OF mid(1) ex f ok] mid(2) by auto
  have "length (map snd (forced_processed env ctx c req)) = length (forced_left c)" using all mid_epoch_call(2) [OF mid v, of env ctx] by simp
  then have "checkpoint c' = Checkpoint (daHeight c + 1) 0" by (simp add: c' advanced_def)
  then show ?thesis by (simp add: less_Checkpoint_def)
qed

theorem epoch_end_uses_da_height_witness:
  "\<exists>res c'. GetNextBatch demo_seq demo_ctx (demo_mid 1) demo_req = Some (res, c') \<and> checkpoint c' = Checkpoint 2 0 \<and>
     checkpoint c' < checkpoint (demo_mid 1)"
proof -
  have mid: "length (cachedForcedInclusionTxs (demo_mid 1)) < 2 ^ 64" "forced_left (demo_mid 1) \<noteq> []"
      "Checkpoint.DAHeight (checkpoint (demo_mid 1)) \<noteq> 0" "isValid (demo_mid 1) (reqId demo_req)" by (simp_all add: isValid_def)
  have fp: "forced_processed demo_seq demo_ctx (demo_mid 1) demo_req = [(FilterOK, [2])]"
    by (simp add: forced_processed_def batch_statuses_def take_mempool_def filter_statuses_def one_tx_def processed_def)
  obtain ts db where "finish_batch demo_seq demo_ctx (demo_mid 1) demo_req 1 = (Inr \<lparr>respBatch = [[2]], respTimestamp = ts, BatchData = LastBatchData demo_req\<rparr>,
      (advanced (demo_mid 1) 1 1)\<lparr>cpdb := db\<rparr>)"
    using demo_finish [of "demo_mid 1" 1 demo_ctx] by (auto simp: fp with_status_def)
  then have G: "GetNextBatch demo_seq demo_ctx (demo_mid 1) demo_req =
      Some (Inr \<lparr>respBatch = [[2]], respTimestamp = ts, BatchData = LastBatchData demo_req\<rparr>, (advanced (demo_mid 1) 1 1)\<lparr>cpdb := db\<rparr>)"
    by (simp add: mid_epoch_call(1) [OF mid])
  show ?thesis using epoch_end_uses_da_height [OF _ mid _ G] G
    by (auto simp: demo_mid_consumed call_ok_def word_less_nat_alt)
qed

section \<open>A DA layer that fails\<close>

definition rpc_down :: "da_rpc \<Rightarrow> bytes \<Rightarrow> bool" where
  "rpc_down api ns \<longleftrightarrow> (\<forall>k. \<not> usable api ns k \<and> \<not> from_future api ns k)"

lemma sync_fetch_down: "rpc_down api ns \<Longrightarrow> sync_fetch api ns hs = Inr ([], hs \<noteq> [])"
  by (induction hs) (auto simp: rpc_down_def usable_def from_future_def Let_def)

lemma add_no_blocks: "fold (\<lambda>h. add_block None) hs ev = ev"
  by (induction hs) (simp_all add: add_block_def)

lemma retrieve_epoch_down:
  assumes "rpc_down api (forcedNamespaceBz (fr_client r))" "\<forall>k. cached_block env (asyncFetcher r) k = None" "hs \<noteq> []"
  shows "\<exists>ev. retrieve_epoch env api r h es ee hs = Inr ev \<and> EndDaHeight ev = h \<and> evTxs ev = []"
  using assms sync_fetch_down [OF assms(1), of hs] by (simp add: retrieve_epoch_def Let_def add_no_blocks)

lemma fetch_down:
  fixes env :: "('db, 'pk) seq_env"
  assumes ok: "async_ok (aenv env) vw" "times_ok chain" and forced: "hasForcedNamespace (daClient env)"
    and reach: "fi_reach (aenv env) chain (daClient env) (DAStartHeight (genesis env)) (DAEpochForcedInclusion (genesis env)) (fiRetriever c)"
    and cold: "\<forall>k. cached_block (aenv env) (asyncFetcher (fiRetriever c)) k = None"
    and down: "rpc_down (rpc ctx) (forcedNamespaceBz (daClient env))"
    and fits: "cp_fits env (Checkpoint.DAHeight (checkpoint c))" and last: "unat (Checkpoint.DAHeight (checkpoint c)) = cp_last env c"
  shows "\<exists>c'. fetchNextDAEpoch env ctx c mb = Some (Inr (Checkpoint.DAHeight (checkpoint c)), c') \<and> cachedForcedInclusionTxs c' = [] \<and>
    catchUpState c' = catchUpState (updateCatchUpState env ctx c)"
proof -
  let ?h = "Checkpoint.DAHeight (checkpoint c)" and ?r = "fiRetriever c"
  have inv: "fi_inv (aenv env) vw chain (daClient env) (DAStartHeight (genesis env)) (DAEpochForcedInclusion (genesis env)) ?r"
    by (rule fi_reach_inv [OF ok reach])
  obtain es ee en where b: "CalculateEpochBoundaries ?h (DAStartHeight (genesis env)) (DAEpochForcedInclusion (genesis env)) = (es, ee, en)"
    by (metis prod_cases3)
  note u = unat_epoch_boundaries [OF fits b]
  have h: "?h = ee" using last u(2) by (simp add: word_unat_eq_iff)
  have ne: "u64_upto es ee \<noteq> []"
    using u cp_first_le_last [OF epoch_fits_bounds(2) [OF fits]] by (auto simp: u64_upto_def)
  let ?r1 = "?r\<lparr>asyncFetcher := UpdateCurrentHeight (asyncFetcher ?r) ?h\<rparr>"
  have "cached_block (aenv env) (asyncFetcher ?r1) k = None" for k using cold by simp
  then obtain ev where ev: "retrieve_epoch (aenv env) (rpc ctx) ?r1 ?h es ee (u64_upto es ee) = Inr ev" "EndDaHeight ev = ?h" "evTxs ev = []"
    using retrieve_epoch_down [of "rpc ctx" ?r1 "aenv env" "u64_upto es ee" ?h es ee] down ne inv by (auto simp: fi_inv_def)
  have "RetrieveForcedIncludedTxs (aenv env) (rpc ctx) ?r ?h = Some (Inr ev, ?r1)"
    using Retrieve_at_end [of ?r ?h ee es en "aenv env" "rpc ctx"] inv forced epoch_end_bound [OF fits b] b h ev(1)
    by (simp add: fi_inv_def Let_def)
  then show ?thesis using ev by (simp add: fetchNextDAEpoch_def Let_def)
qed


definition down_ctx :: "mem_db seq_ctx" where
  "down_ctx = demo_ctx\<lparr>rpc := (demo_rpc [[1]])\<lparr>api_get_all := (\<lambda>h ns. Inl \<lparr>err_text = ''eof'', err_canceled = False\<rparr>)\<rparr>\<rparr>"

definition demo_end :: "mem_db Sequencer" where
  "demo_end = demo_start\<lparr>daHeight := 2, checkpoint := Checkpoint 2 0, catchUpState := catchUpInProgress\<rparr>"


end
