(* ===== verification/Sequencer_Liveness.thy ===== *)
theory Sequencer_Liveness
  imports Sequencer_Run
begin

text \<open>
  Catch-up ends. When the DA layer serves all heights below its head, the execution layer does not
  postpone the first transaction it is offered and checkpoints can be saved, a new sequencer that keeps
  requesting batches leaves catch-up after finitely many requests.
\<close>

section \<open>Progress of one call\<close>

definition filter_progress :: "exec_api \<Rightarrow> bool" where
  "filter_progress ex \<longleftrightarrow> (\<forall>txs mb mg f st sts. FilterTxs ex txs mb mg f = Inr (st # sts) \<longrightarrow> st \<noteq> FilterPostpone)"

definition saves_ok :: "('db, 'pk) seq_env \<Rightarrow> bool" where
  "saves_ok env \<longleftrightarrow> (\<forall>db cp. fst (cp_Save (cpenv env) db cp) = None)"

lemma finish_call_ok:
  assumes s: "saves_ok env" and f: "finish_batch env ctx c req h = (res, c')"
  shows "call_ok res"
proof -
  have "\<exists>i c3. advance_checkpoint env c1 h F k = (Inr i, c3)" for c1 F k
  proof -
    have "cp_Save (cpenv env) a b \<noteq> (Some e, d)" for a b e d using s by (metis saves_ok_def fst_conv option.distinct(1))
    then show ?thesis by (auto simp: advance_checkpoint_def Let_def split: prod.split option.split)
  qed
  then obtain i c3 where "advance_checkpoint env (batch_queue env ctx c req) h (forced_left c)
      (of_nat (length (forced_processed env ctx c req))) = (Inr i, c3)" by blast
  then show ?thesis using f by (auto simp: finish_batch_eq call_ok_def Let_def split: if_splits)
qed

lemma forced_progress:
  assumes "filter_ok (exec ctx)" "filter_progress (exec ctx)" "forced_left c \<noteq> []"
  shows "forced_processed env ctx c req \<noteq> []"
proof -
  let ?all = "forced_left c @ fst (take_mempool env c)"
  let ?sts = "filter_statuses (exec ctx) ?all (MaxBytes req) (length (forced_left c) > 0)"
  have l: "length ?sts = length ?all" by (rule filter_statuses_length [OF assms(1)])
  then obtain st sts where st: "?sts = st # sts" using assms(3) by (cases ?sts) auto
  have "st \<noteq> FilterPostpone"
  proof (cases "FilterTxs (exec ctx) ?all (MaxBytes req) (max_gas (exec ctx)) (length (forced_left c) > 0)")
    case (Inl e)
    then have "st \<in> set (replicate (length ?all) FilterOK)" using st by (simp add: filter_statuses_def)
    then show ?thesis by auto
  next
    case (Inr x)
    then have "x = st # sts" using st by (simp add: filter_statuses_def)
    then show ?thesis using Inr assms(2) unfolding filter_progress_def by metis
  qed
  moreover obtain tx txs where "forced_left c = tx # txs" using assms(3) by (cases "forced_left c") auto
  ultimately show ?thesis using st by (simp add: forced_processed_def batch_statuses_def processed_def Let_def)
qed

section \<open>Fetching at the head\<close>

lemma fold_add_block_end: "EndDaHeight (fold (\<lambda>h. add_block (f h)) hs ev) = EndDaHeight ev"
  by (induction hs arbitrary: ev) (simp_all add: add_block_def split: option.splits)

lemma retrieve_end:
  assumes "RetrieveForcedIncludedTxs env api r h = Some (res, r')"
  shows "cached_block env (asyncFetcher r') k = cached_block env (asyncFetcher r) k" and "res = Inr ev \<Longrightarrow> EndDaHeight ev = h"
proof -
  show "cached_block env (asyncFetcher r') k = cached_block env (asyncFetcher r) k"
    using assms by (auto simp: RetrieveForcedIncludedTxs_def Let_def split: if_splits prod.splits option.splits)
  show "EndDaHeight ev = h" if "res = Inr ev"
    using assms that by (auto simp: RetrieveForcedIncludedTxs_def retrieve_epoch_def Let_def fold_add_block_end
        split: if_splits prod.splits option.splits sum.splits)
qed

text \<open>A fetch that returns no height ends catch-up.\<close>

lemma update_checked: "catchUpState (updateCatchUpState env ctx c) \<noteq> catchUpUnchecked"
  by (auto simp: updateCatchUpState_def Let_def split: sum.splits)

lemma fetch_state:
  assumes f: "fetchNextDAEpoch env ctx c mb = Some (Inr h, c')" and pos: "Checkpoint.DAHeight (checkpoint c) \<noteq> 0"
  shows "h = 0 \<Longrightarrow> catchUpState c' = catchUpDone" "catchUpState c' \<noteq> catchUpUnchecked"
    "cached_block (aenv env) (asyncFetcher (fiRetriever c')) k = cached_block (aenv env) (asyncFetcher (fiRetriever c)) k"
proof -
  let ?u = "updateCatchUpState env ctx c"
  obtain res r where R: "RetrieveForcedIncludedTxs (aenv env) (rpc ctx) (fiRetriever c) (Checkpoint.DAHeight (checkpoint c)) = Some (res, r)"
    using f by (auto simp: fetchNextDAEpoch_def Let_def split: option.splits)
  note u = update_checked [of env ctx c]
  show "catchUpState c' = catchUpDone" if "h = 0"
    using f R that retrieve_end(2) [OF R] pos u
    by (cases res; cases "catchUpState ?u") (auto simp: fetchNextDAEpoch_def Let_def split: if_splits)
  show "catchUpState c' \<noteq> catchUpUnchecked"
    using f R u by (cases res) (auto simp: fetchNextDAEpoch_def Let_def split: if_splits)
  show "cached_block (aenv env) (asyncFetcher (fiRetriever c')) k = cached_block (aenv env) (asyncFetcher (fiRetriever c)) k"
    using f R retrieve_end(1) [OF R, of k] by (cases res) (auto simp: fetchNextDAEpoch_def Let_def split: if_splits)
qed

text \<open>At the end of an epoch that reaches beyond the head of the DA layer, the sequencer waits.\<close>

lemma fetch_beyond_head:
  fixes env :: "('db, 'pk) seq_env"
  assumes ok: "seq_ok env vw chain"
    and reach: "fi_reach (aenv env) chain (daClient env) (DAStartHeight (genesis env)) (DAEpochForcedInclusion (genesis env)) (fiRetriever c)"
    and fits: "cp_fits env (Checkpoint.DAHeight (checkpoint c))" and last: "unat (Checkpoint.DAHeight (checkpoint c)) = cp_last env c"
    and k: "cp_first env c \<le> unat k" "unat k \<le> cp_last env c" "from_future (rpc ctx) (forcedNamespaceBz (daClient env)) k"
      "cached_block (aenv env) (asyncFetcher (fiRetriever c)) k = None"
    and f: "fetchNextDAEpoch env ctx c mb = Some (Inr h, c')"
  shows "h = 0"
proof -
  let ?h = "Checkpoint.DAHeight (checkpoint c)" and ?r = "fiRetriever c"
  have inv: "fi_inv (aenv env) vw chain (daClient env) (DAStartHeight (genesis env)) (DAEpochForcedInclusion (genesis env)) ?r"
    using ok by (intro fi_reach_inv [OF _ _ reach]) (simp_all add: seq_ok_def)
  obtain es ee en where b: "CalculateEpochBoundaries ?h (DAStartHeight (genesis env)) (DAEpochForcedInclusion (genesis env)) = (es, ee, en)"
    by (metis prod_cases3)
  note u = unat_epoch_boundaries [OF fits b]
  have h: "?h = ee" using last u(2) by (simp add: word_unat_eq_iff)
  let ?r1 = "?r\<lparr>asyncFetcher := UpdateCurrentHeight (asyncFetcher ?r) ?h\<rparr>"
  let ?missing = "filter (\<lambda>h. cached_block (aenv env) (asyncFetcher ?r1) h = None) (u64_upto es ee)"
  have "cached_block (aenv env) (asyncFetcher ?r1) k = None"
    using k(4) by simp
  moreover have "k \<in> set (u64_upto es ee)" using k(1,2) u by (simp add: set_u64_upto word_le_nat_alt)
  ultimately have "k \<in> set ?missing" by simp
  then obtain e where e: "sync_fetch (rpc ctx) (forcedNamespaceBz (daClient env)) ?missing = Inl e" "errors_is e ErrHeightFromFuture"
    using sync_fetch_Inl [of "rpc ctx" "forcedNamespaceBz (daClient env)" ?missing] k(3) by auto
  then have "retrieve_epoch (aenv env) (rpc ctx) ?r1 ?h es ee (u64_upto es ee) = Inl e"
    using inv by (simp add: retrieve_epoch_def Let_def fi_inv_def)
  moreover have "hasForcedNamespace (daClient env)" using ok by (simp add: seq_ok_def)
  ultimately have "RetrieveForcedIncludedTxs (aenv env) (rpc ctx) ?r ?h = Some (Inl e, ?r1)"
    using Retrieve_at_end [of ?r ?h ee es en "aenv env" "rpc ctx"] inv epoch_end_bound [OF fits b] b h
    by (simp add: fi_inv_def Let_def)
  then show ?thesis using f e(2) by (simp add: fetchNextDAEpoch_def Let_def)
qed


section \<open>Every call comes closer to the head\<close>

lemma epoch_last_mono: "h \<le> h' \<Longrightarrow> epoch_last h start sz \<le> epoch_last h' start sz"
proof -
  assume "h \<le> h'"
  then have "(h - start) div sz * sz \<le> (h' - start) div sz * sz" by (intro mult_le_mono1 div_le_mono diff_le_mono)
  then show ?thesis unfolding epoch_last_def epoch_first_def by linarith
qed

abbreviation head_end :: "('db, 'pk) seq_env \<Rightarrow> u64 \<Rightarrow> nat" where
  "head_end env H \<equiv> epoch_last (unat H) (unat (DAStartHeight (genesis env))) (unat (DAEpochForcedInclusion (genesis env)))"

lemma below_head:
  assumes fits: "cp_fits env H" and le: "DAStartHeight (genesis env) \<le> h" "unat h \<le> head_end env H"
  shows "cp_fits env h"
    and "epoch_last (unat h) (unat (DAStartHeight (genesis env))) (unat (DAEpochForcedInclusion (genesis env))) \<le> head_end env H"
    and "unat h = head_end env H \<Longrightarrow> epoch_first (unat h) (unat (DAStartHeight (genesis env))) (unat (DAEpochForcedInclusion (genesis env))) \<le> unat H"
proof -
  let ?s = "DAStartHeight (genesis env)" and ?z = "DAEpochForcedInclusion (genesis env)"
  note b = epoch_fits_bounds [OF fits]
  have "head_end env H < 2 ^ 64" using fits by (simp add: epoch_fits_def)
  then have "unat (of_nat (head_end env H) :: u64) = head_end env H" by (simp add: unat_of_nat)
  then obtain L :: u64 where u: "unat L = head_end env H" by blast
  have m: "cp_fits env L \<and> epoch_first (unat L) (unat ?s) (unat ?z) = epoch_first (unat H) (unat ?s) (unat ?z) \<and>
      (unat L - unat ?s) div unat ?z = (unat H - unat ?s) div unat ?z"
    by (rule epoch_fits_mono [OF fits]) (simp_all add: u cp_first_le_last [OF b(2)])
  then have eq: "epoch_last (unat L) (unat ?s) (unat ?z) = head_end env H" by (simp add: epoch_last_def)
  have hL: "unat h \<le> unat L" using le(2) u by simp
  then have "h \<le> L" by (simp add: word_le_nat_alt)
  then show "cp_fits env h" using m le(1) epoch_fits_le by blast
  show "epoch_last (unat h) (unat ?s) (unat ?z) \<le> head_end env H"
    using epoch_last_mono [OF hL, of "unat ?s" "unat ?z"] unfolding eq .
  show "epoch_first (unat h) (unat ?s) (unat ?z) \<le> unat H" if "unat h = head_end env H"
  proof -
    have "unat h = unat L" using that u by simp
    then show ?thesis using m epoch_first_le [OF b(1,2)] by (simp only:)
  qed
qed

text \<open>Behind the head of the DA layer, with no block beyond it in the cache.\<close>

definition behind :: "('db, 'pk) seq_env \<Rightarrow> ('db \<Rightarrow> view) \<Rightarrow> da_content \<Rightarrow> u64 \<Rightarrow> u64 \<Rightarrow> bytes \<Rightarrow> 'db Sequencer \<Rightarrow> bool" where
  "behind env vw chain mb H i c \<longleftrightarrow> (\<exists>n t. seq_inv env vw chain mb n t c) \<and> sId c = i \<and>
     unat (Checkpoint.DAHeight (checkpoint c)) \<le> head_end env H \<and>
     (cachedForcedInclusionTxs c \<noteq> [] \<longrightarrow> unat (Checkpoint.DAHeight (checkpoint c)) < head_end env H) \<and>
     (\<forall>k. H \<le> k \<longrightarrow> cached_block (aenv env) (asyncFetcher (fiRetriever c)) k = None)"

definition head_at :: "('db, 'pk) seq_env \<Rightarrow> u64 \<Rightarrow> 'db seq_ctx \<Rightarrow> bool" where
  "head_at env H ctx \<longleftrightarrow> (\<forall>k. H \<le> k \<longrightarrow> from_future (rpc ctx) (forcedNamespaceBz (daClient env)) k)"

definition remaining :: "('db, 'pk) seq_env \<Rightarrow> da_content \<Rightarrow> u64 \<Rightarrow> u64 \<Rightarrow> 'db Sequencer \<Rightarrow> nat \<times> nat" where
  "remaining env chain mb H c = (head_end env H - unat (Checkpoint.DAHeight (checkpoint c)),
     length (cp_epoch env chain mb c) - unat (TxIndex (checkpoint c)))"

lemma behind_prepared:
  fixes env :: "('db, 'pk) seq_env"
  assumes ok: "seq_ok env vw chain" "ctx_ok env chain ctx" "head_at env H ctx" and fits: "cp_fits env H"
    and b: "behind env vw chain (MaxBytes req) H i c"
  shows "\<exists>h c2. prepared env ctx c req = Some (Inr h, c2) \<and> checkpoint c2 = checkpoint c \<and> sId c2 = sId c \<and>
    (\<forall>k. cached_block (aenv env) (asyncFetcher (fiRetriever c2)) k = cached_block (aenv env) (asyncFetcher (fiRetriever c)) k) \<and>
    (h = 0 \<and> catchUpState c2 = catchUpDone \<or> h = Checkpoint.DAHeight (checkpoint c) \<and> unat h < head_end env H)"
proof -
  let ?h = "Checkpoint.DAHeight (checkpoint c)"
  obtain n t where inv: "seq_inv env vw chain (MaxBytes req) n t c" using b by (auto simp: behind_def)
  have hc: "daHeight c = ?h" "DAStartHeight (genesis env) \<le> ?h" using inv by (simp_all add: seq_inv_def)
  have le: "unat ?h \<le> head_end env H" using b by (simp add: behind_def)
  note bh = below_head [OF fits hc(2) le]
  have pos: "?h \<noteq> 0" using hc(2) seq_okD(3) [OF ok(1)] by auto
  obtain h c2 where p: "prepared env ctx c req = Some (Inr h, c2)" "checkpoint c2 = checkpoint c"
    and hs: "h = 0 \<or> h = ?h"
    using prepared_inv [OF ok(1,2) inv bh(1) [folded hc(1)]] unfolding hc(1) by (elim exE conjE) blast
  show ?thesis
  proof (cases "cachedForcedInclusionTxs c = []")
    case False
    then have E: "cachedForcedInclusionTxs c = cp_epoch env chain (MaxBytes req) c"
      and len: "length (cachedForcedInclusionTxs c) < 2 ^ 64" using inv seq_okD(4) [OF ok(1) bh(1)] by (simp_all add: seq_inv_def)
    have "unat (TxIndex (checkpoint c)) < length (cachedForcedInclusionTxs c)"
      using inv False E by (cases "TxIndex (checkpoint c) = 0") (simp_all add: seq_inv_def)
    then have "forced_left c \<noteq> []" by (simp add: forced_left_drop [OF len])
    from mid_epoch_prepared [OF len this pos, of env ctx req] p have "h = ?h" "c2 = c" using hc(1) by simp_all
    then show ?thesis using p False b by (auto simp: behind_def)
  next
    case True
    have f: "fetchNextDAEpoch env ctx c (MaxBytes req) = Some (Inr h, c2)"
      using p(1) True pos hc(1) by (simp add: prepared_def bootstrap_def epoch_consumed_def word_gt_0 Let_def)
    note fs = fetch_state [OF f pos]
    have id: "sId c2 = sId c" by (rule fetch_frame(5) [OF f])
    show ?thesis
    proof (cases "h = 0")
      case False
      have "unat ?h < head_end env H"
      proof (rule ccontr)
        assume "\<not> unat ?h < head_end env H"
        then have eq: "unat ?h = head_end env H" using le by simp
        have last: "unat ?h = cp_last env c"
          using bh(2) eq epoch_last_ge [OF epoch_fits_bounds(1,2) [OF bh(1)]] by simp
        have reach: "fi_reach (aenv env) chain (daClient env) (DAStartHeight (genesis env)) (DAEpochForcedInclusion (genesis env)) (fiRetriever c)"
          using inv by (simp add: seq_inv_def)
        have "from_future (rpc ctx) (forcedNamespaceBz (daClient env)) H" "cached_block (aenv env) (asyncFetcher (fiRetriever c)) H = None"
          using ok(3) b by (simp_all add: head_at_def behind_def)
        moreover have "unat H \<le> cp_last env c" using last eq epoch_last_ge [OF epoch_fits_bounds(1,2) [OF fits]] by simp
        ultimately show False using fetch_beyond_head [OF ok(1) reach bh(1) last bh(3) [OF eq] _ _ _ f] False by simp
      qed
      then show ?thesis using p hs False fs(3) id by simp
    qed (use p fs id in simp)
  qed
qed


lemma advanced_closer:
  fixes env :: "('db, 'pk) seq_env"
  assumes h: "h = Checkpoint.DAHeight (checkpoint c)" "unat h < head_end env H" and fits: "cp_fits env h"
    and len: "length (cachedForcedInclusionTxs c) < 2 ^ 64"
    and E: "cachedForcedInclusionTxs c = [] \<or> cachedForcedInclusionTxs c = cp_epoch env chain mb c"
    and k: "forced_left c \<noteq> [] \<longrightarrow> 0 < k"
  shows "unat (Checkpoint.DAHeight (checkpoint (advanced c h k))) \<le> head_end env H"
    and "cachedForcedInclusionTxs (advanced c h k) \<noteq> [] \<Longrightarrow> unat (Checkpoint.DAHeight (checkpoint (advanced c h k))) < head_end env H"
    and "(remaining env chain mb H (advanced c h k), remaining env chain mb H c) \<in> less_than <*lex*> less_than"
proof -
  have uh: "unat (h + 1) = Suc (unat h)" by (rule epoch_fits_bounds(4) [OF fits])
  show "unat (Checkpoint.DAHeight (checkpoint (advanced c h k))) \<le> head_end env H"
    "cachedForcedInclusionTxs (advanced c h k) \<noteq> [] \<Longrightarrow> unat (Checkpoint.DAHeight (checkpoint (advanced c h k))) < head_end env H"
    using h uh by (auto simp: advanced_def split: if_splits)
  show "(remaining env chain mb H (advanced c h k), remaining env chain mb H c) \<in> less_than <*lex*> less_than"
  proof (cases "length (forced_left c) \<le> k")
    case True
    have "head_end env H - Suc (unat h) < head_end env H - unat h" using h(2) by linarith
    then show ?thesis using True h(1) uh by (simp add: remaining_def advanced_def)
  next
    case False
    let ?i = "unat (TxIndex (checkpoint c))"
    have l: "forced_left c = drop ?i (cachedForcedInclusionTxs c)" by (rule forced_left_drop [OF len])
    then have i: "?i + k < length (cachedForcedInclusionTxs c)" using False by simp
    then have "cachedForcedInclusionTxs c = cp_epoch env chain mb c" using E by auto
    moreover have "unat (TxIndex (checkpoint c) + of_nat k) = ?i + k" using i len by (simp add: unat_plus_if' unat_of_nat)
    moreover have "0 < k" using k False by auto
    ultimately show ?thesis using False i by (simp add: remaining_def advanced_def)
  qed
qed

lemma behind_step:
  fixes env :: "('db, 'pk) seq_env"
  assumes ok: "seq_ok env vw chain" "ctx_ok env chain ctx" "head_at env H ctx" "filter_progress (exec ctx)" "saves_ok env"
    and fits: "cp_fits env H" and b: "behind env vw chain (MaxBytes req) H (reqId req) c"
  shows "\<exists>res c'. GetNextBatch env ctx c req = Some (res, c') \<and> (catchUpState c' = catchUpDone \<or>
    behind env vw chain (MaxBytes req) H (reqId req) c' \<and>
    (remaining env chain (MaxBytes req) H c', remaining env chain (MaxBytes req) H c) \<in> less_than <*lex*> less_than)"
proof -
  let ?h = "Checkpoint.DAHeight (checkpoint c)" and ?mb = "MaxBytes req"
  obtain n t where inv: "seq_inv env vw chain ?mb n t c" using b by (auto simp: behind_def)
  have ex: "filter_ok (exec ctx)" using ok(2) by (simp add: ctx_ok_def)
  have v: "isValid c (reqId req)" using b by (simp add: behind_def isValid_def)
  have hc: "daHeight c = ?h" "DAStartHeight (genesis env) \<le> ?h" "unat ?h \<le> head_end env H"
    using inv b by (simp_all add: seq_inv_def behind_def)
  have fc: "cp_fits env (daHeight c)" using below_head(1) [OF fits hc(2,3)] hc(1) by simp
  obtain h c2 where p: "prepared env ctx c req = Some (Inr h, c2)" "checkpoint c2 = checkpoint c" "sId c2 = sId c"
    and cold: "\<forall>k. cached_block (aenv env) (asyncFetcher (fiRetriever c2)) k = cached_block (aenv env) (asyncFetcher (fiRetriever c)) k"
    and cases: "h = 0 \<and> catchUpState c2 = catchUpDone \<or> h = ?h \<and> unat h < head_end env H"
    using behind_prepared [OF ok(1-3) fits b] by blast
  obtain res c' where f: "finish_batch env ctx c2 req h = (res, c')" by (cases "finish_batch env ctx c2 req h")
  have G: "GetNextBatch env ctx c req = Some (res, c')" by (simp add: GetNextBatch_prepared [OF v] p(1) f)
  have res: "call_ok res" by (rule finish_call_ok [OF ok(5) f])
  have inv': "seq_inv env vw chain ?mb (Suc n) (t @ call_consumed env ctx c req) c'"
    using call_inv [OF ok(1,2) inv fc v] G res by auto
  show ?thesis
  proof (cases "h = 0 \<and> catchUpState c2 = catchUpDone")
    case True
    then show ?thesis using G finish_frame [OF f] by simp
  next
    case False
    then have h: "h = ?h" "unat h < head_end env H" using cases by auto
    have E: "cachedForcedInclusionTxs c2 = [] \<or> cachedForcedInclusionTxs c2 = cp_epoch env chain ?mb c2"
      using prepared_inv [OF ok(1,2) inv fc] p(1) by (elim exE conjE) (auto simp: p(2))
    have fh: "cp_fits env h" using fc hc(1) h(1) by simp
    have l2: "length (cachedForcedInclusionTxs c2) < 2 ^ 64" using E seq_okD(4) [OF ok(1) fh] h(1) p(2) by auto
    let ?b = "batch_queue env ctx c2 req" and ?k = "length (forced_processed env ctx c2 req)"
    have "h > 0" using h(1) hc(2) seq_okD(3) [OF ok(1)] by (auto simp: word_gt_0)
    then obtain db where c': "c' = (advanced ?b h ?k)\<lparr>cpdb := db\<rparr>" using finish_ok [OF l2 ex f res] by auto
    have "forced_left ?b \<noteq> [] \<longrightarrow> 0 < ?k" using forced_progress [OF ex ok(4), of c2 env req] by simp
    from advanced_closer [OF _ h(2) fh _ _ this, where chain = chain and mb = ?mb] E l2 h(1) p(2)
    have "unat (Checkpoint.DAHeight (checkpoint c')) \<le> head_end env H"
      "cachedForcedInclusionTxs c' \<noteq> [] \<longrightarrow> unat (Checkpoint.DAHeight (checkpoint c')) < head_end env H"
      "(remaining env chain ?mb H c', remaining env chain ?mb H c) \<in> less_than <*lex*> less_than"
      by (simp_all add: c' remaining_def)
    then show ?thesis using G inv' cold b p(3) by (auto simp: behind_def c')
  qed
qed


section \<open>Catch-up ends\<close>

text \<open>Requests one after the other, the \<open>i\<close>-th in the context \<open>ctxs i\<close>.\<close>

fun seq_calls :: "('db, 'pk) seq_env \<Rightarrow> (nat \<Rightarrow> 'db seq_ctx) \<Rightarrow> GetNextBatchRequest \<Rightarrow> nat \<Rightarrow> 'db Sequencer \<Rightarrow> 'db Sequencer option" where
  "seq_calls env ctxs req 0 c = Some c"
| "seq_calls env ctxs req (Suc n) c = (case GetNextBatch env (ctxs 0) c req of
     None \<Rightarrow> None
   | Some (res, c') \<Rightarrow> seq_calls env (\<lambda>i. ctxs (Suc i)) req n c')"

lemma behind_ends:
  fixes env :: "('db, 'pk) seq_env"
  assumes ok: "seq_ok env vw chain" "saves_ok env" and fits: "cp_fits env H"
    and b: "behind env vw chain (MaxBytes req) H (reqId req) c"
    and ctxs: "\<forall>i. ctx_ok env chain (ctxs i) \<and> head_at env H (ctxs i) \<and> filter_progress (exec (ctxs i))"
  shows "\<exists>n c'. seq_calls env ctxs req n c = Some c' \<and> catchUpState c' = catchUpDone"
  using b ctxs
proof (induction "remaining env chain (MaxBytes req) H c" arbitrary: c ctxs rule: wf_induct_rule [OF wf_lex_prod [OF wf_less_than wf_less_than]])
  case less: 1
  obtain res c' where G: "GetNextBatch env (ctxs 0) c req = Some (res, c')" and s: "catchUpState c' = catchUpDone \<or>
      behind env vw chain (MaxBytes req) H (reqId req) c' \<and>
      (remaining env chain (MaxBytes req) H c', remaining env chain (MaxBytes req) H c) \<in> less_than <*lex*> less_than"
    using behind_step [OF ok(1) _ _ _ ok(2) fits less.prems(1), of "ctxs 0"] less.prems(2) by blast
  show ?case
  proof (cases "catchUpState c' = catchUpDone")
    case True
    then have "seq_calls env ctxs req (Suc 0) c = Some c'" using G by simp
    then show ?thesis using True by blast
  next
    case False
    then obtain n c'' where "seq_calls env (\<lambda>i. ctxs (Suc i)) req n c' = Some c''" "catchUpState c'' = catchUpDone"
      using less.hyps [of c' "\<lambda>i. ctxs (Suc i)"] s less.prems(2) by blast
    then have "seq_calls env ctxs req (Suc n) c = Some c''" using G by simp
    then show ?thesis using \<open>catchUpState c'' = catchUpDone\<close> by blast
  qed
qed

text \<open>
  C8: Catch-up ends. A new sequencer whose requests meet a DA layer that serves the heights below its
  head, an execution layer that does not postpone the first transaction it is offered and a database
  that saves checkpoints has, after finitely many requests, returned from each of them and left
  catch-up.
\<close>

theorem catch_up_ends:
  fixes env :: "('db, 'pk) seq_env"
  assumes ok: "seq_ok env vw chain" "saves_ok env" and new: "NewSequencer env ctx queuedb cdb (reqId req) m = Inr c0"
    and fresh: "vw cdb (checkpointKey (cpenv env)) = None" and fits: "cp_fits env H"
    and ctxs: "\<forall>i. ctx_ok env chain (ctxs i) \<and> head_at env H (ctxs i) \<and> filter_progress (exec (ctxs i))"
  shows "\<exists>n c'. seq_calls env ctxs req n c0 = Some c' \<and> catchUpState c' = catchUpDone"
proof -
  have "cp_stored env vw cdb (Checkpoint (DAStartHeight (genesis env)) 0)" using fresh by (simp add: cp_stored_def)
  note st = new_sequencer_state [OF ok(1) new this]
  have "cached_block (aenv env) (asyncFetcher (fiRetriever c0)) k = None" for k
  proof -
    have "async_ok (aenv env) vw" using ok(1) by (simp add: seq_ok_def)
    then have "\<exists>e. ds_get (cache_ds (aenv env)) (empty_cache (aenv env)) x = Inl e" for x
      using datastore_getD(1) [of "cache_ds (aenv env)" vw "empty_cache (aenv env)" x]
      by (cases "ds_get (cache_ds (aenv env)) (empty_cache (aenv env)) x") (auto simp: async_ok_def)
    then show ?thesis
      by (auto simp: st NewForcedInclusionRetriever_def NewAsyncBlockRetriever_def cached_block_def GetCachedBlock_def split: sum.splits if_splits) (metis Inl_Inr_False)
  qed
  moreover have "unat (DAStartHeight (genesis env)) \<le> head_end env H"
    using epoch_fits_bounds(1,2) [OF fits] epoch_last_ge le_trans by blast
  ultimately have "behind env vw chain (MaxBytes req) H (reqId req) c0"
    using new_sequencer_inv [OF ok(1) new fresh] by (auto simp: behind_def st)
  then show ?thesis by (rule behind_ends [OF ok fits _ ctxs])
qed


subsection \<open>A DA layer with a head\<close>

definition head_rpc :: da_rpc where
  "head_rpc = (demo_rpc [[1], [2, 3]])\<lparr>api_get_all := (\<lambda>h ns. if h < 5 then Inr [([1, 1], [1]), ([1, 2, 3], [2, 3])]
     else Inl \<lparr>err_text = ''given height is from the future'', err_canceled = False\<rparr>)\<rparr>"

definition head_ctx :: "mem_db seq_ctx" where
  "head_ctx = demo_ctx\<lparr>rpc := head_rpc\<rparr>"

lemma head_ctx_ok: "ctx_ok demo_seq two_blobs head_ctx" "head_at demo_seq 5 head_ctx" "filter_progress (exec head_ctx)"
proof -
  have c: "contains ''given height is from the future'' ErrBlobNotFound_text = False" "contains ''given height is from the future'' ErrHeightFromFuture_text = True"
    by (simp_all add: ErrBlobNotFound_text_def ErrHeightFromFuture_text_def)
  have r: "Code (Retrieve head_rpc k ns) = (if k < 5 then StatusSuccess else StatusHeightFromFuture)" for k ns
    by (simp add: Retrieve_def head_rpc_def demo_rpc_def emptyResult_def with_data_def c Let_def del: contains.simps)
  show "head_at demo_seq 5 head_ctx" by (simp add: head_at_def from_future_def head_ctx_def r not_le)
  show "filter_progress (exec head_ctx)" by (auto simp: filter_progress_def head_ctx_def one_tx_def split: list.splits)
  have "rpc_honest head_rpc ns two_blobs" for ns
    by (simp add: rpc_honest_def head_rpc_def demo_rpc_def demo_chain_def comp_def c del: contains.simps)
  then show "ctx_ok demo_seq two_blobs head_ctx"
    by (simp add: ctx_ok_def head_ctx_def usable_def from_future_def r)
qed

theorem catch_up_ends_witness:
  "\<exists>n c'. seq_calls demo_seq (\<lambda>_. head_ctx) demo_req n demo_start = Some c' \<and> catchUpState c' = catchUpDone"
proof -
  have "saves_ok demo_seq" by (simp add: saves_ok_def cp_Save_def cp_codec_def mem_datastore_def)
  moreover have "NewSequencer demo_seq demo_ctx [] [] (reqId demo_req) 0 = Inr demo_start" using demo_new by simp
  moreover have "mem_view [] (checkpointKey (cpenv demo_seq)) = None" by (simp add: mem_view_def)
  moreover have "cp_fits demo_seq 5" by (simp add: epoch_fits_def epoch_last_def epoch_first_def)
  ultimately show ?thesis using head_ctx_ok by (intro catch_up_ends [OF demo_seq_ok]) simp_all
qed

end
