(* ===== verification/Loops.thy ===== *)
theory Loops
  imports Prelude
begin

text \<open>
  Loops over heights that may leave early, as the replayer, the pending queues, the pruner and the
  submitter of \<^verbatim>\<open>src/block/internal\<close> have them. The theory gives the loop, its reading as a walk over the
  list of heights, the invariant rule and the bound under which it ends.
\<close>

section \<open>Walking a list\<close>

text \<open>The body answers whether the loop goes on.\<close>

fun each_until :: "('a \<Rightarrow> 's \<Rightarrow> bool \<times> 's) \<Rightarrow> 'a list \<Rightarrow> 's \<Rightarrow> bool \<times> 's" where
  "each_until body [] s = (True, s)"
| "each_until body (x # xs) s =
     (case body x s of (goon, s') \<Rightarrow> if goon then each_until body xs s' else (False, s'))"

lemma each_until_append:
  "each_until body (xs @ ys) s =
     (case each_until body xs s of (goon, s') \<Rightarrow> if goon then each_until body ys s' else (False, s'))"
  by (induction xs arbitrary: s) (auto split: prod.splits)

lemma each_until_inv:
  assumes "\<And>x s goon s'. x \<in> set xs \<Longrightarrow> P s \<Longrightarrow> body x s = (goon, s') \<Longrightarrow> P s'" and "P s"
    and "each_until body xs s = (goon, s')"
  shows "P s'"
  using assms
proof (induction xs arbitrary: s)
  case (Cons a xs)
  obtain g t where t: "body a s = (g, t)" by fastforce
  have "P t" using Cons.prems(1) [OF _ Cons.prems(2) t] by simp
  moreover have "P v'" if "x \<in> set xs" "P v" "body x v = (w, v')" for x v w v'
    using that by (intro Cons.prems(1) [of x v w v']) simp_all
  ultimately show ?case using Cons.IH [of t] Cons.prems(3) t by (cases g) auto
qed simp

section \<open>Walking a range of heights\<close>

text \<open>\<^verbatim>\<open>for h := lo; h <= hi; h++ { ... }\<close> with a body that may leave the loop; with \<open>hi\<close> the greatest
  \<^verbatim>\<open>uint64\<close> and a body that never leaves it does not end.\<close>

partial_function (option) for_u64 :: "(u64 \<Rightarrow> 's \<Rightarrow> bool \<times> 's) \<Rightarrow> u64 \<Rightarrow> u64 \<Rightarrow> 's \<Rightarrow> (bool \<times> 's) option" where
  "for_u64 body h hi s =
     (if h \<le> hi
      then (case body h s of (goon, s') \<Rightarrow> if goon then for_u64 body (h + 1) hi s' else Some (False, s'))
      else Some (True, s))"

declare for_u64.simps [code]

lemma u64_upto_empty: "hi < lo \<Longrightarrow> u64_upto lo hi = []"
  by (simp add: u64_upto_def word_less_nat_alt)

lemma u64_upto_Cons:
  assumes "lo \<le> hi" and "hi < - 1"
  shows "u64_upto lo hi = lo # u64_upto (lo + 1) hi"
proof -
  have "unat (lo + 1) = unat lo + 1" using assms by (intro unat_u64_Suc [of lo "- 1"]) simp
  moreover have "[unat lo ..< Suc (unat hi)] = unat lo # [Suc (unat lo) ..< Suc (unat hi)]"
    using assms(1) by (subst upt_conv_Cons) (simp_all add: word_le_nat_alt)
  ultimately show ?thesis by (simp add: u64_upto_def del: upt_Suc)
qed

lemma u64_upto_snoc:
  assumes "0 < lo" and "lo \<le> h"
  shows "u64_upto lo h = u64_upto lo (h - 1) @ [h]"
proof -
  have h: "unat (h - 1) = unat h - 1" "0 < unat h" "unat lo \<le> unat h"
    using assms unat_u64_pred [of 0 h] by (auto simp: word_le_nat_alt word_less_nat_alt)
  then have "[unat lo ..< Suc (unat h)] = [unat lo ..< Suc (unat (h - 1))] @ [unat h]" by simp
  then show ?thesis by (simp add: u64_upto_def del: upt_Suc)
qed

lemma u64_ivl_Suc: "(lo :: u64) \<le> h \<Longrightarrow> h < - 1 \<Longrightarrow> {lo..<h + 1} = insert h {lo..<h}"
  using unat_u64_Suc [of h "- 1"] by (auto simp: word_le_nat_alt word_less_nat_alt word_unat_eq_iff)

lemma for_u64_done: "hi < lo \<Longrightarrow> for_u64 body lo hi s = Some (True, s)"
  by (subst for_u64.simps) (auto simp: not_le [symmetric])

lemma for_u64_eq:
  assumes "hi < - 1"
  shows "for_u64 body lo hi s = Some (each_until body (u64_upto lo hi) s)"
proof (induction "unat hi + 1 - unat lo" arbitrary: lo s)
  case 0
  then have "hi < lo" by (simp add: word_less_nat_alt)
  then show ?case by (simp add: for_u64_done u64_upto_empty)
next
  case (Suc n)
  then have le: "lo \<le> hi" by (simp add: word_le_nat_alt)
  have "unat (lo + 1) = unat lo + 1" using le assms by (intro unat_u64_Suc [of lo "- 1"]) simp
  then have "for_u64 body (lo + 1) hi s' = Some (each_until body (u64_upto (lo + 1) hi) s')" for s'
    using Suc by (intro Suc.hyps) simp
  then show ?case using le assms by (subst for_u64.simps) (simp add: u64_upto_Cons split: prod.split)
qed

lemma for_u64_rule:
  assumes hi: "hi < - 1" and le: "lo \<le> hi + 1" and inv: "I lo s"
    and step: "\<And>h s s'. lo \<le> h \<Longrightarrow> h \<le> hi \<Longrightarrow> I h s \<Longrightarrow> body h s = (True, s') \<Longrightarrow> I (h + 1) s'"
    and ends: "for_u64 body lo hi s = Some (True, s')"
  shows "I (hi + 1) s'"
  using le inv step ends
proof (induction "unat hi + 1 - unat lo" arbitrary: lo s)
  case 0
  have "unat (hi + 1) = unat hi + 1" using hi by (rule unat_u64_Suc)
  then have "lo = hi + 1" "hi < lo" using 0 by (auto simp: word_le_nat_alt word_less_nat_alt word_unat_eq_iff)
  then have "s' = s" using 0(5) for_u64_done [of hi lo body s] by simp
  then show ?case using 0(3) \<open>lo = hi + 1\<close> by simp
next
  case (Suc n)
  have s: "unat (hi + 1) = unat hi + 1" using hi by (rule unat_u64_Suc)
  from Suc have lo: "lo \<le> hi" by (simp add: word_le_nat_alt)
  then have s': "unat (lo + 1) = unat lo + 1" using hi by (intro unat_u64_Suc [of lo "- 1"]) simp
  obtain s1 where s1: "body lo s = (True, s1)" "for_u64 body (lo + 1) hi s1 = Some (True, s')"
    using Suc.prems(4) lo by (subst (asm) for_u64.simps) (auto split: prod.splits if_splits)
  show ?case
  proof (rule Suc.hyps(1) [OF _ _ _ _ s1(2)])
    show "n = unat hi + 1 - unat (lo + 1)" "lo + 1 \<le> hi + 1"
      using Suc.hyps(2) s s' lo by (simp_all add: word_le_nat_alt)
    show "I (lo + 1) s1" using Suc.prems(3) [OF order_refl lo Suc.prems(2) s1(1)] .
    show "I (h + 1) t'" if "lo + 1 \<le> h" "h \<le> hi" "I h t" "body h t = (True, t')" for h t t'
      using that s' by (intro Suc.prems(3) [of h t t']) (simp_all add: word_le_nat_alt)
  qed
qed

end
