(* ===== verification/Replayer.thy ===== *)
theory Replayer
  imports Single_Sequencer Store_Spec Loops
begin

text \<open>
  The execution layer as the node sees it, \<^verbatim>\<open>src/core/execution/execution.go\<close>, and the replayer of
  \<^verbatim>\<open>src/block/internal/common/replay.go\<close> that brings it to the height of the store after a crash. The
  execution layer is a parameter: a state and its calls. The theory proves that a replay executes exactly
  the blocks the layer lacks, in order, each on the result of the one before, and what it does to the
  states in the store.
\<close>

section \<open>The execution layer\<close>

text \<open>\<^verbatim>\<open>Executor\<close> with the optional interfaces \<^verbatim>\<open>HeightProvider\<close>, \<^verbatim>\<open>Rollbackable\<close> and
  \<^verbatim>\<open>ExecPruner\<close>, which the code tests for by type assertions.\<close>

record 'x exec_ops =
  x_InitChain :: "'x \<Rightarrow> gotime \<Rightarrow> u64 \<Rightarrow> string \<Rightarrow> bytes result \<times> 'x"
  x_GetTxs :: "'x \<Rightarrow> bytes list result \<times> 'x"
  x_ExecuteTxs :: "'x \<Rightarrow> bytes list \<Rightarrow> u64 \<Rightarrow> gotime \<Rightarrow> bytes \<Rightarrow> bytes result \<times> 'x"
  x_SetFinal :: "'x \<Rightarrow> u64 \<Rightarrow> goerr option \<times> 'x"
  x_GetLatestHeight :: "('x \<Rightarrow> u64 result) option"
  x_Rollback :: "('x \<Rightarrow> u64 \<Rightarrow> goerr option \<times> 'x) option"
  x_PruneExec :: "('x \<Rightarrow> u64 \<Rightarrow> goerr option \<times> 'x) option"

section \<open>Replay\<close>

text \<open>The state before the first block: its app hash is taken from the header.\<close>

definition replay_genesis :: "Genesis \<Rightarrow> bytes \<Rightarrow> State" where
  "replay_genesis g appHash =
     \<lparr>sVersion = \<lparr>vBlock = 0, vApp = 0\<rparr>, sChainID = gChainID g, InitialHeight = gInitialHeight g,
      LastBlockHeight = gInitialHeight g - 1, LastBlockTime = StartTime g, sLastHeaderHash = [],
      sDAHeight = 0, sAppHash = appHash\<rparr>"

definition replay_prev ::
  "('db, 'pk) store_env \<Rightarrow> Genesis \<Rightarrow> 'db \<Rightarrow> u64 \<Rightarrow> Header \<Rightarrow> State result" where
  "replay_prev env g db height h =
     (if height = gInitialHeight g then Inr (replay_genesis g (AppHash h))
      else (case GetStateAtHeight env db (height - 1) of
              Inl e \<Rightarrow> Inl (Wrap ''failed to get previous state'' e)
            | Inr s \<Rightarrow> Inr s))"

definition persist_state :: "('db, 'pk) store_env \<Rightarrow> 'db \<Rightarrow> State \<Rightarrow> goerr option \<times> 'db" where
  "persist_state env db newState =
     (case NewBatch env db of
        Inl e \<Rightarrow> (Some (Wrap ''create batch'' e), db)
      | Inr b \<Rightarrow>
          (case UpdateState env db b newState of
             Inl e \<Rightarrow> (Some (Wrap ''update state in batch'' e), db)
           | Inr b' \<Rightarrow>
               (case Commit env db b' of
                  (Some e, db') \<Rightarrow> (Some (Wrap ''commit batch with new state'' e), db')
                | (None, db') \<Rightarrow> (None, db'))))"

definition replayBlock ::
  "('db, 'pk) store_env \<Rightarrow> 'x exec_ops \<Rightarrow> Genesis \<Rightarrow> u64 \<Rightarrow> 'x \<times> 'db \<Rightarrow> goerr option \<times> 'x \<times> 'db" where
  "replayBlock env ops g height = (\<lambda>(x, db).
     (case GetBlockData env db height of
        Inl e \<Rightarrow> (Some (Wrap ''failed to get block data from store'' e), x, db)
      | Inr (header, data) \<Rightarrow>
          (case replay_prev env g db height (shHeader header) of
             Inl e \<Rightarrow> (Some e, x, db)
           | Inr prevState \<Rightarrow>
               (case x_ExecuteTxs ops x (Txs data) height (Header_Time (shHeader header)) (sAppHash prevState) of
                  (Inl e, x') \<Rightarrow> (Some (Wrap ''failed to execute transactions'' e), x', db)
                | (Inr newAppHash, x') \<Rightarrow>
                    if (case GetStateAtHeight env db height of
                          Inl _ \<Rightarrow> False
                        | Inr expectedState \<Rightarrow> newAppHash \<noteq> sAppHash expectedState)
                    then (Some (Msg ''app hash mismatch''), x', db)
                    else (case persist_state env db (NextState (tenv env) prevState (shHeader header) newAppHash) of
                            (r, db') \<Rightarrow> (r, x', db'))))))"

definition replay_body ::
  "('db, 'pk) store_env \<Rightarrow> 'x exec_ops \<Rightarrow> Genesis \<Rightarrow> u64 \<Rightarrow> goerr option \<times> 'x \<times> 'db \<Rightarrow> bool \<times> goerr option \<times> 'x \<times> 'db" where
  "replay_body env ops g height = (\<lambda>(_, xd).
     (case replayBlock env ops g height xd of
        (Some e, xd') \<Rightarrow> (False, Some (Wrap ''failed to replay block to execution layer'' e), xd')
      | (None, xd') \<Rightarrow> (True, None, xd')))"

definition SyncToHeight ::
  "('db, 'pk) store_env \<Rightarrow> 'x exec_ops \<Rightarrow> Genesis \<Rightarrow> 'x \<Rightarrow> 'db \<Rightarrow> u64 \<Rightarrow> (goerr option \<times> 'x \<times> 'db) option" where
  "SyncToHeight env ops g x db targetHeight =
     (case x_GetLatestHeight ops of
        None \<Rightarrow> Some (None, x, db)
      | Some latest \<Rightarrow>
          if targetHeight < gInitialHeight g then Some (None, x, db)
          else (case latest x of
                  Inl e \<Rightarrow> Some (Some (Wrap ''failed to get execution layer height'' e), x, db)
                | Inr execHeight \<Rightarrow>
                    if execHeight > targetHeight
                    then Some (case x_Rollback ops of
                           Some rollback \<Rightarrow>
                             (case rollback x targetHeight of
                                (Some e, x') \<Rightarrow> (Some (Wrap ''failed to rollback execution layer'' e), x', db)
                              | (None, x') \<Rightarrow> (None, x', db))
                         | None \<Rightarrow> (Some (Msg ''execution layer height ahead of target height''), x, db))
                    else if execHeight < targetHeight
                    then (case GetBlockData env db targetHeight of
                            Inl e \<Rightarrow> Some (Some (Wrap ''cannot sync to height: block not found in store'' e), x, db)
                          | Inr _ \<Rightarrow> map_option snd
                              (for_u64 (replay_body env ops g) (execHeight + 1) targetHeight (None, x, db)))
                    else Some (None, x, db)))"

section \<open>What a replay does\<close>

text \<open>A run of the execution layer over blocks, each on the root the one before returned.\<close>

fun run_blocks :: "'x exec_ops \<Rightarrow> (u64 \<times> bytes list \<times> gotime) list \<Rightarrow> bytes \<Rightarrow> 'x \<Rightarrow> bytes result \<times> 'x" where
  "run_blocks ops [] root x = (Inr root, x)"
| "run_blocks ops ((h, txs, t) # bs) root x =
     (case x_ExecuteTxs ops x txs h t root of
        (Inl e, x') \<Rightarrow> (Inl e, x')
      | (Inr r, x') \<Rightarrow> run_blocks ops bs r x')"

lemma run_blocks_append:
  "run_blocks ops (bs @ cs) root x =
     (case run_blocks ops bs root x of (Inl e, x') \<Rightarrow> (Inl e, x') | (Inr r, x') \<Rightarrow> run_blocks ops cs r x')"
  by (induction bs arbitrary: root x) (auto split: prod.splits sum.splits)


lemma persist_state_entries:
  assumes ok: "store_ok env vw" and p: "persist_state env db st = (None, db')"
  shows "\<exists>sb. enc (c_state (cds (tenv env))) (State_ToProto st) = Inr sb \<and>
    (\<forall>e. entry_wf e \<longrightarrow> entry_of env vw db' e = (if e = EState (LastBlockHeight st) then Some sb else entry_of env vw db e))"
proof -
  obtain b b' where b: "NewBatch env db = Inr b" "UpdateState env db b st = Inr b'" "Commit env db b' = (None, db')"
    using p by (auto simp: persist_state_def split: sum.splits prod.splits option.splits)
  have "b = []" using b(1) by (simp add: NewBatch_def split: option.splits)
  with UpdateState_Inr [OF b(2)] obtain sb where sb: "enc (c_state (cds (tenv env))) (State_ToProto st) = Inr sb"
    "b' = [DsPut (entry_key env (EState (LastBlockHeight st))) sb]" by auto
  have "entry_of env vw db' e = (if e = EState (LastBlockHeight st) then Some sb else entry_of env vw db e)"
    if "entry_wf e" for e
    using Commit_entry(1) [OF store_okD(1) [OF ok] b(3), of e] that
    by (simp add: sb(2) entry_key_inject [OF store_okD(2) [OF ok]] entry_of_def)
  then show ?thesis using sb(1) by blast
qed

lemma persist_state_error:
  assumes "store_ok env vw" and "persist_state env db st = (Some e, db')"
  shows "vw db' = vw db"
  using assms Commit_entry(2) [OF store_okD(1) [OF assms(1)]]
  by (auto simp: persist_state_def split: sum.splits prod.splits option.splits)

lemma persist_state_reads:
  assumes ok: "store_ok env vw" and codecs: "codecs_ok (tenv env)" and t: "state_time_ok st"
    and p: "persist_state env db st = (None, db')"
  shows "GetStateAtHeight env db' (LastBlockHeight st) = Inr st"
    and "k \<noteq> LastBlockHeight st \<Longrightarrow> GetStateAtHeight env db' k = Inr s \<longleftrightarrow> GetStateAtHeight env db k = Inr s"
    and "GetBlockData env db' k = Inr b \<longleftrightarrow> GetBlockData env db k = Inr b"
proof -
  obtain sb where sb: "enc (c_state (cds (tenv env))) (State_ToProto st) = Inr sb"
    and e: "\<And>e. entry_wf e \<Longrightarrow> entry_of env vw db' e = (if e = EState (LastBlockHeight st) then Some sb else entry_of env vw db e)"
    using persist_state_entries [OF ok p] by blast
  have "decode_state env sb = Inr st"
    using codec_okD [OF codecs_okD(10) [OF codecs] _ sb] State_FromProto_ToProto [OF t] by (simp add: decode_state_def)
  then show "GetStateAtHeight env db' (LastBlockHeight st) = Inr st"
    and "k \<noteq> LastBlockHeight st \<Longrightarrow> GetStateAtHeight env db' k = Inr s \<longleftrightarrow> GetStateAtHeight env db k = Inr s"
    by (simp_all add: GetStateAtHeight_iff [OF ok] e)
  show "GetBlockData env db' k = Inr b \<longleftrightarrow> GetBlockData env db k = Inr b"
    by (rule same_height_reads(1) [OF ok]) (simp add: same_height_def e)
qed

lemma NextState_time_ok: "state_time_ok (NextState env s h r)"
proof -
  have "- (2 ^ 63) \<le> Header_Time h" "Header_Time h < 2 ^ 63"
    using sint_range_size [of "bhTime (base h)"] by (simp_all add: Header_Time_def time_of_u64_def word_size)
  then show ?thesis by (auto simp: state_time_ok_def NextState_def)
qed

lemma NextState_sel [simp]:
  "LastBlockHeight (NextState env s h r) = Header_Height h" "sAppHash (NextState env s h r) = r"
  "sDAHeight (NextState env s h r) = sDAHeight s" "sLastHeaderHash (NextState env s h r) = Header_Hash env h"
  "sChainID (NextState env s h r) = sChainID s" "LastBlockTime (NextState env s h r) = Header_Time h"
  "InitialHeight (NextState env s h r) = InitialHeight s"
  by (simp_all add: NextState_def)


text \<open>Blocks are stored under their heights.\<close>

definition under_height :: "('db, 'pk) store_env \<Rightarrow> 'db \<Rightarrow> bool" where
  "under_height env db \<longleftrightarrow> (\<forall>k sh d. GetBlockData env db k = Inr (sh, d) \<longrightarrow> Header_Height (shHeader sh) = k)"

lemma replayBlock_ok:
  assumes ok: "store_ok env vw" and codecs: "codecs_ok (tenv env)"
    and r: "replayBlock env ops g h (x, db) = (None, x', db')"
    and at: "\<And>sh d. GetBlockData env db h = Inr (sh, d) \<Longrightarrow> Header_Height (shHeader sh) = h"
  shows "\<exists>sh d prev root. GetBlockData env db h = Inr (sh, d) \<and> replay_prev env g db h (shHeader sh) = Inr prev \<and>
    x_ExecuteTxs ops x (Txs d) h (Header_Time (shHeader sh)) (sAppHash prev) = (Inr root, x') \<and>
    (\<forall>s. GetStateAtHeight env db h = Inr s \<longrightarrow> sAppHash s = root) \<and>
    GetStateAtHeight env db' h = Inr (NextState (tenv env) prev (shHeader sh) root) \<and>
    (\<forall>k s. k \<noteq> h \<longrightarrow> (GetStateAtHeight env db' k = Inr s \<longleftrightarrow> GetStateAtHeight env db k = Inr s)) \<and>
    (\<forall>k b. GetBlockData env db' k = Inr b \<longleftrightarrow> GetBlockData env db k = Inr b)"
proof -
  obtain sh d where b: "GetBlockData env db h = Inr (sh, d)"
    using r by (auto simp: replayBlock_def split: sum.splits)
  obtain prev where p: "replay_prev env g db h (shHeader sh) = Inr prev"
    using r by (auto simp: replayBlock_def b split: sum.splits)
  obtain root where x: "x_ExecuteTxs ops x (Txs d) h (Header_Time (shHeader sh)) (sAppHash prev) = (Inr root, x')"
    and s: "\<forall>s. GetStateAtHeight env db h = Inr s \<longrightarrow> sAppHash s = root"
    and st: "persist_state env db (NextState (tenv env) prev (shHeader sh) root) = (None, db')"
    using r by (auto simp: replayBlock_def b p split: sum.splits prod.splits if_splits)
  note reads = persist_state_reads [OF ok codecs NextState_time_ok st, unfolded NextState_sel at [OF b]]
  show ?thesis using b p x s reads by blast
qed

text \<open>The call that replays the block stored at a height.\<close>

definition stored_call :: "('db, 'pk) store_env \<Rightarrow> 'db \<Rightarrow> u64 \<Rightarrow> u64 \<times> bytes list \<times> gotime" where
  "stored_call env db h =
     (case GetBlockData env db h of
        Inr (sh, d) \<Rightarrow> (h, Txs d, Header_Time (shHeader sh))
      | Inl _ \<Rightarrow> (h, [], 0))"

text \<open>Where a replay stands before the block at \<open>h\<close>: started on the state \<open>prev\<close>, it has run the stored
  blocks below \<open>h\<close>, and the state before \<open>h\<close> has the root they returned and the DA height of \<open>prev\<close>.\<close>

definition replayed ::
  "('db, 'pk) store_env \<Rightarrow> 'x exec_ops \<Rightarrow> Genesis \<Rightarrow> u64 \<Rightarrow> State \<Rightarrow> 'x \<Rightarrow> 'db \<Rightarrow> u64 \<Rightarrow> goerr option \<times> 'x \<times> 'db \<Rightarrow> bool" where
  "replayed env ops g lo prev x db h = (\<lambda>(r, x', db'). r = None \<and> (\<exists>root cur.
     run_blocks ops (map (stored_call env db) (u64_upto lo (h - 1))) (sAppHash prev) x = (Inr root, x') \<and>
     (\<forall>sh d. GetBlockData env db h = Inr (sh, d) \<longrightarrow> replay_prev env g db' h (shHeader sh) = Inr cur) \<and>
     (h \<noteq> lo \<longrightarrow> GetStateAtHeight env db' (h - 1) = Inr cur) \<and> sAppHash cur = root \<and> sDAHeight cur = sDAHeight prev \<and>
     (\<forall>k \<in> {lo..<h}. \<forall>s. GetStateAtHeight env db k = Inr s \<longrightarrow> sAppHash s =
        (case fst (run_blocks ops (map (stored_call env db) (u64_upto lo k)) (sAppHash prev) x) of Inr q \<Rightarrow> q | Inl _ \<Rightarrow> [])) \<and>
     (\<forall>k s. k \<notin> {lo..<h} \<longrightarrow> (GetStateAtHeight env db' k = Inr s \<longleftrightarrow> GetStateAtHeight env db k = Inr s)) \<and>
     (\<forall>k b. GetBlockData env db' k = Inr b \<longleftrightarrow> GetBlockData env db k = Inr b)))"


lemma replayed_step:
  assumes ok: "store_ok env vw" and codecs: "codecs_ok (tenv env)" and g: "gInitialHeight g \<le> lo"
    and h: "0 < lo" "lo \<le> h" "h < - 1"
    and at: "under_height env db"
    and inv: "replayed env ops g lo prev x db h s" and r: "replay_body env ops g h s = (True, s')"
  shows "replayed env ops g lo prev x db (h + 1) s'"
proof -
  obtain x1 db1 where s1: "s = (None, x1, db1)" using inv by (cases s) (simp add: replayed_def)
  obtain e x2 db2 where rb0: "replayBlock env ops g h (x1, db1) = (e, x2, db2)" by (metis prod_cases3)
  then have rb: "replayBlock env ops g h (x1, db1) = (None, x2, db2)" and s: "s = (None, x1, db1)" "s' = (None, x2, db2)"
    using r s1 by (auto simp: replay_body_def split: option.splits)
  obtain cur where run: "run_blocks ops (map (stored_call env db) (u64_upto lo (h - 1))) (sAppHash prev) x = (Inr (sAppHash cur), x1)"
    and cur: "\<And>sh d. GetBlockData env db h = Inr (sh, d) \<Longrightarrow> replay_prev env g db1 h (shHeader sh) = Inr cur"
    and da: "sDAHeight cur = sDAHeight prev"
    and exp: "\<forall>k \<in> {lo..<h}. \<forall>s. GetStateAtHeight env db k = Inr s \<longrightarrow> sAppHash s =
        (case fst (run_blocks ops (map (stored_call env db) (u64_upto lo k)) (sAppHash prev) x) of Inr q \<Rightarrow> q | Inl _ \<Rightarrow> [])"
    and sts: "\<And>k s. k \<notin> {lo..<h} \<Longrightarrow> GetStateAtHeight env db1 k = Inr s \<longleftrightarrow> GetStateAtHeight env db k = Inr s"
    and bls: "\<And>k b. GetBlockData env db1 k = Inr b \<longleftrightarrow> GetBlockData env db k = Inr b"
    using inv unfolding replayed_def s prod.case by blast
  obtain sh d prev' root where b: "GetBlockData env db h = Inr (sh, d)" "replay_prev env g db1 h (shHeader sh) = Inr prev'"
    and ex: "x_ExecuteTxs ops x1 (Txs d) h (Header_Time (shHeader sh)) (sAppHash prev') = (Inr root, x2)"
    and chk: "\<And>s. GetStateAtHeight env db1 h = Inr s \<Longrightarrow> sAppHash s = root"
    and st: "GetStateAtHeight env db2 h = Inr (NextState (tenv env) prev' (shHeader sh) root)"
    and sts': "\<And>k s. k \<noteq> h \<Longrightarrow> GetStateAtHeight env db2 k = Inr s \<longleftrightarrow> GetStateAtHeight env db1 k = Inr s"
    and bls': "\<And>k b. GetBlockData env db2 k = Inr b \<longleftrightarrow> GetBlockData env db1 k = Inr b"
    using replayBlock_ok [OF ok codecs rb] at bls unfolding under_height_def by blast
  have prev': "prev' = cur" using cur [OF b(1)] b(2) by simp
  have run': "run_blocks ops (map (stored_call env db) (u64_upto lo h)) (sAppHash prev) x = (Inr root, x2)"
    using run ex by (simp add: u64_upto_snoc [OF h(1,2)] run_blocks_append stored_call_def b(1) prev')
  have "h + 1 \<noteq> gInitialHeight g" "h + 1 \<noteq> lo"
    using g h unat_u64_Suc [OF h(3)] by (auto simp: word_le_nat_alt word_unat_eq_iff)
  then have "replay_prev env g db2 (h + 1) hd = Inr (NextState (tenv env) prev' (shHeader sh) root)" for hd
    using st by (simp add: replay_prev_def)
  moreover have "\<forall>k \<in> {lo..<h + 1}. \<forall>s. GetStateAtHeight env db k = Inr s \<longrightarrow> sAppHash s =
        (case fst (run_blocks ops (map (stored_call env db) (u64_upto lo k)) (sAppHash prev) x) of Inr q \<Rightarrow> q | Inl _ \<Rightarrow> [])"
    using exp chk sts [of h] run' by (simp add: u64_ivl_Suc [OF h(2,3)])
  moreover have "GetStateAtHeight env db2 k = Inr s \<longleftrightarrow> GetStateAtHeight env db k = Inr s" if "k \<notin> {lo..<h + 1}" for k s
    using that sts [of k s] sts' [of k s] by (simp add: u64_ivl_Suc [OF h(2,3)])
  ultimately show ?thesis
    unfolding replayed_def s using run' st da prev' bls bls' by auto
qed


lemma replay_starts:
  assumes "gInitialHeight g \<le> lo" and "0 < lo" and "GetBlockData env db lo = Inr (sh, d)"
    and "replay_prev env g db lo (shHeader sh) = Inr prev"
  shows "replayed env ops g lo prev x db lo (None, x, db)"
proof -
  have "lo - 1 < lo" using assms(2) by (rule u64_pred_less)
  then show ?thesis using assms(3,4) by (simp add: replayed_def u64_upto_empty)
qed

lemma SyncToHeight_result:
  assumes ok: "store_ok env vw" and codecs: "codecs_ok (tenv env)"
    and at: "under_height env db"
    and lat: "x_GetLatestHeight ops = Some latest" "latest x = Inr e0"
    and g: "gInitialHeight g \<le> e0 + 1" and e0: "e0 < target" and t: "target < - 1"
    and r: "SyncToHeight env ops g x db target = Some (None, x', db')"
  shows "\<exists>sh d prev. GetBlockData env db (e0 + 1) = Inr (sh, d) \<and> replay_prev env g db (e0 + 1) (shHeader sh) = Inr prev \<and>
    replayed env ops g (e0 + 1) prev x db (target + 1) (None, x', db')"
proof -
  have s: "unat (e0 + 1) = unat e0 + 1" "unat (target + 1) = unat target + 1"
    using unat_u64_Suc [OF e0] unat_u64_Suc [OF t] .
  have le: "e0 + 1 \<le> target" "e0 + 1 \<le> target + 1" "0 < e0 + 1" "gInitialHeight g \<le> target" "\<not> target < e0"
    using e0 g s by (auto simp: word_le_nat_alt word_less_nat_alt)
  then obtain goon where loop: "for_u64 (replay_body env ops g) (e0 + 1) target (None, x, db) = Some (goon, None, x', db')"
    using r lat e0 by (auto simp: SyncToHeight_def not_le split: sum.splits if_splits)
  have none: "False" if "each_until (replay_body env ops g) hs q = (False, None, y)" for hs q y
    using that by (induction hs arbitrary: q) (auto simp: replay_body_def split: prod.splits option.splits if_splits)
  have loop: "for_u64 (replay_body env ops g) (e0 + 1) target (None, x, db) = Some (True, None, x', db')"
    using loop none unfolding for_u64_eq [OF t] by (cases goon) auto
  obtain q where "replay_body env ops g (e0 + 1) (None, x, db) = (True, q)"
    using loop le(1) by (subst (asm) for_u64.simps) (auto split: prod.splits if_splits)
  then obtain y where "replayBlock env ops g (e0 + 1) (x, db) = (None, y)"
    by (auto simp: replay_body_def split: prod.splits option.splits)
  then obtain sh d prev where b: "GetBlockData env db (e0 + 1) = Inr (sh, d)" "replay_prev env g db (e0 + 1) (shHeader sh) = Inr prev"
    by (cases y) (auto simp: replayBlock_def split: sum.splits)
  have "replayed env ops g (e0 + 1) prev x db (target + 1) (None, x', db')"
  proof (rule for_u64_rule [where I = "replayed env ops g (e0 + 1) prev x db", OF t le(2) _ _ loop])
    show "replayed env ops g (e0 + 1) prev x db (e0 + 1) (None, x, db)"
      using replay_starts [OF g le(3) b] .
    show "replayed env ops g (e0 + 1) prev x db (h + 1) v'"
      if "e0 + 1 \<le> h" "h \<le> target" "replayed env ops g (e0 + 1) prev x db h v" "replay_body env ops g h v = (True, v')" for h v v'
      using replayed_step [OF ok codecs g le(3) that(1) _ at that(3,4)] that(2) t by simp
  qed
  then show ?thesis using b by blast
qed


section \<open>Properties\<close>


text \<open>
  C25: A replay resets the DA height of the states it rewrites. Whatever DA height the block producer
  stored with the state at the target, after a replay it is the DA height of the state the replay started
  from, and 0 where it started at the first block.
\<close>

theorem replay_resets_da_height:
  assumes "store_ok env vw" and "codecs_ok (tenv env)"
    and "under_height env db"
    and "x_GetLatestHeight ops = Some latest" and "latest x = Inr e0"
    and "gInitialHeight g \<le> e0 + 1" and "e0 < target" and "target < - 1"
    and "SyncToHeight env ops g x db target = Some (None, x', db')"
  shows "\<exists>s. GetStateAtHeight env db' target = Inr s \<and>
    (if e0 + 1 = gInitialHeight g then sDAHeight s = 0
     else \<exists>s0. GetStateAtHeight env db e0 = Inr s0 \<and> sDAHeight s = sDAHeight s0)"
proof -
  obtain sh d prev where b: "GetBlockData env db (e0 + 1) = Inr (sh, d)" "replay_prev env g db (e0 + 1) (shHeader sh) = Inr prev"
    and R: "replayed env ops g (e0 + 1) prev x db (target + 1) (None, x', db')"
    using SyncToHeight_result [OF assms] by blast
  have "target + 1 \<noteq> e0 + 1" using assms(7) by auto
  then obtain cur where "GetStateAtHeight env db' target = Inr cur" "sDAHeight cur = sDAHeight prev"
    using R unfolding replayed_def by auto
  then show ?thesis using b by (auto simp: replay_prev_def replay_genesis_def split: if_splits sum.splits)
qed


subsection \<open>Witnesses\<close>

text \<open>An execution layer that counts its blocks: its state is its height, and the root of a block is its
  height, too. A chain that starts at height 3 with the demonstration block, stored with a state of DA
  height 9.\<close>

definition counting_ops :: "u64 exec_ops" where
  "counting_ops = \<lparr>x_InitChain = (\<lambda>x t h c. (Inr [4], x)), x_GetTxs = (\<lambda>x. (Inr [], x)),
     x_ExecuteTxs = (\<lambda>x txs h t root. (Inr (put_be64 h), h)), x_SetFinal = (\<lambda>x h. (None, x)),
     x_GetLatestHeight = Some Inr, x_Rollback = Some (\<lambda>x h. (None, h)), x_PruneExec = None\<rparr>"

definition genesis_at_3 :: Genesis where
  "genesis_at_3 = (NewGenesis ''evolve'' 3 0 (Some [7, 7]))"

definition state_at_3 :: State where
  "state_at_3 = next_state\<lparr>sAppHash := put_be64 3\<rparr>"

lemma counting_sel [simp]: "x_GetLatestHeight counting_ops = Some Inr" "gInitialHeight genesis_at_3 = 3"
  by (simp_all add: counting_ops_def genesis_at_3_def NewGenesis_def)

lemma state_at_3 [simp]: "LastBlockHeight state_at_3 = 3" "state_time_ok state_at_3" "sDAHeight state_at_3 = 9"
  "sAppHash state_at_3 = put_be64 3"
  by (simp_all add: state_at_3_def next_state_def state_time_ok_def demo_state_def)

lemma demo_sendable [simp]: "sendable demo_env demo_signed_header"
  by (simp add: sendable_def demo_signed_header_def signer_ok_def demo_env_def)

lemma demo_replay:
  obtains db db' where "GetBlockData demo_store db 3 = Inr (demo_signed_header, demo_data)"
    and "GetStateAtHeight demo_store db 3 = Inr state_at_3" and "under_height demo_store db"
    and "SyncToHeight demo_store counting_ops genesis_at_3 2 db 3 = Some (None, 3, db')"
proof -
  obtain hb where hb: "fst (SignedHeader_MarshalBinary demo_env demo_signed_header) = Inr hb" using demo_commits by blast
  obtain bl where bl: "Data_MarshalBinary demo_env demo_data = Inr bl"
    by (simp add: Data_MarshalBinary_def demo_env_def field_codecs_def)
  have sb: "\<exists>sb. enc (c_state (cds demo_env)) (State_ToProto st) = Inr sb" for st
    by (simp add: demo_env_def field_codecs_def)
  obtain db where c: "commits demo_store demo_db demo_signed_header demo_data [5] state_at_3 db"
    using sb [of state_at_3]
    by (auto simp: commits_def SaveBlockData_def SaveBlockDataFromBytes_def SetHeight_def UpdateState_def Let_def hb bl)
  have p: "demo_signed_header\<lparr>aggregatorSignatureProvider := None, syncNodeSignatureBytesProvider := None\<rparr> = demo_signed_header"
    by (simp add: demo_signed_header_def)
  have l: "LastBlockHeight state_at_3 = Header_Height (shHeader demo_signed_header)" by simp
  note w = commits_reads [OF demo_store_ok(1) _ _ _ state_at_3(2) l c demo_header_height(1) [symmetric],
      unfolded demo_store_sel, OF demo_env_ok demo_sendable, unfolded p]
  have b: "GetBlockData demo_store db 3 = Inr (demo_signed_header, demo_data)"
    and s: "GetStateAtHeight demo_store db 3 = Inr state_at_3" using w by simp_all
  have "GetBlockData demo_store demo_db k \<noteq> Inr y" for k y
    by (cases y) (simp add: GetBlockData_iff [OF demo_store_ok(1)] demo_entry)
  then have at: "under_height demo_store db"
    unfolding under_height_def using w b by (metis Inr_inject demo_header_height(1) prod.inject)
  have "\<exists>r. replay_body demo_store counting_ops genesis_at_3 3 (None, 2, db) = (True, None, 3, r)"
    using sb [of "NextState demo_env (replay_genesis genesis_at_3 (AppHash (shHeader demo_signed_header))) (shHeader demo_signed_header) (put_be64 3)"]
    by (auto simp: replay_body_def replayBlock_def b s counting_ops_def replay_prev_def genesis_at_3_def NewGenesis_def
        persist_state_def UpdateState_def)
  then obtain db' where "replay_body demo_store counting_ops genesis_at_3 3 (None, 2, db) = (True, None, 3, db')" ..
  then have "SyncToHeight demo_store counting_ops genesis_at_3 2 db 3 = Some (None, 3, db')"
    by (simp add: SyncToHeight_def b for_u64.simps [of _ 3] for_u64_done)
  then show thesis using that b s at by blast
qed


lemma max_u64_above [simp]: "(3 :: u64) < - 1" "(2 :: u64) < 3"
  by (simp_all add: word_less_nat_alt unsigned_minus_1_eq_mask mask_eq_exp_minus_1)


theorem replay_resets_da_height_witness:
  "\<exists>db db' s s'. GetStateAtHeight demo_store db 3 = Inr s \<and> sDAHeight s = 9 \<and>
     SyncToHeight demo_store counting_ops genesis_at_3 2 db 3 = Some (None, 3, db') \<and>
     GetStateAtHeight demo_store db' 3 = Inr s' \<and> sDAHeight s' = 0"
proof -
  obtain db db' where s: "GetStateAtHeight demo_store db 3 = Inr state_at_3" and at: "under_height demo_store db"
    and r: "SyncToHeight demo_store counting_ops genesis_at_3 2 db 3 = Some (None, 3, db')"
    by (rule demo_replay)
  have "\<exists>s'. GetStateAtHeight demo_store db' 3 = Inr s' \<and> sDAHeight s' = 0"
    using replay_resets_da_height [OF demo_store_ok(1) _ at counting_sel(1) refl _ _ _ r] by simp
  then show ?thesis using s r by fastforce
qed

end
