(* ===== verification/Executor.thy ===== *)
theory Executor
  imports Replayer
begin

text \<open>
  The block producer, \<^verbatim>\<open>src/block/internal/executing/executor.go\<close> and \<^verbatim>\<open>pending.go\<close>. It takes a batch
  from the sequencer, makes a block of it, saves it as pending, has the execution layer run it, signs the
  header and commits block, height and state in one batch of the store. The sequencer, the execution layer,
  the cache of blocks that wait for DA submission and the raft node are interfaces in the code and
  parameters here: a state and its calls. Logging and metrics are left out.
\<close>

section \<open>The interfaces\<close>

text \<open>\<^verbatim>\<open>GetNextBatch\<close> may not return, may fail, and may return nil or a nil batch.\<close>

record 's sequencer_ops =
  q_GetNextBatch :: "'s \<Rightarrow> GetNextBatchRequest \<Rightarrow> (GetNextBatchResponse option result \<times> 's) option"
  q_SetDAHeight :: "'s \<Rightarrow> u64 \<Rightarrow> 's"
  q_GetDAHeight :: "'s \<Rightarrow> u64"

record 'pk signer_ops =
  Sign :: "bytes \<Rightarrow> bytes result"
  GetPublic :: "'pk result"
  GetAddress :: "bytes result"

record 'pk BlockOptions =
  AggregatorNodeSignatureBytesProvider :: "Header \<Rightarrow> bytes result"
  SyncNodeSignatureBytesProvider :: "Header \<Rightarrow> Data \<Rightarrow> bytes result"
  ValidatorHasherProvider :: "bytes \<Rightarrow> 'pk option \<Rightarrow> bytes result"

text \<open>The part of \<^verbatim>\<open>cache.Manager\<close> the producer calls. \<^verbatim>\<open>NumPendingData\<close> moves past empty blocks and
  writes to the store, and may not return.\<close>

record ('c, 'db) cache_ops =
  c_NumPendingHeaders :: "'c \<Rightarrow> 'db \<Rightarrow> u64"
  c_NumPendingData :: "'c \<Rightarrow> 'db \<Rightarrow> (u64 \<times> 'c \<times> 'db) option"
  c_GetLastSubmittedHeaderHeight :: "'c \<Rightarrow> u64"
  c_GetLastSubmittedDataHeight :: "'c \<Rightarrow> u64"

record RaftBlockState =
  rHeight :: u64
  rLastSubmittedDaHeaderHeight :: u64
  rLastSubmittedDaDataHeight :: u64
  rHash :: bytes
  rTimestamp :: u64
  rHeader :: bytes
  rData :: bytes

record 'r raft_ops =
  HasQuorum :: "'r \<Rightarrow> bool \<times> 'r"
  raft_GetState :: "'r \<Rightarrow> RaftBlockState \<times> 'r"
  raft_Broadcast :: "'r \<Rightarrow> RaftBlockState \<Rightarrow> goerr option \<times> 'r"

record node_config =
  BasedSequencer :: bool
  MaxPendingHeadersAndData :: u64
  LazyMode :: bool
  BlockTime :: int
  LazyBlockInterval :: int

text \<open>What the producer hands out: blocks to raft, headers and data to the P2P network. The errors of
  the broadcasters are only logged.\<close>

datatype 'pk message = ToRaft RaftBlockState | HeaderBroadcast "'pk P2PSignedHeader" | DataBroadcast P2PData

record ('db, 'pk, 'x, 's, 'c, 'r) exec_env =
  xstore :: "('db, 'pk) store_env"
  xexec :: "'x exec_ops"
  xseq :: "'s sequencer_ops"
  xsigner :: "'pk signer_ops option"
  xcache :: "('c, 'db) cache_ops"
  xraft :: "'r raft_ops option"
  xconfig :: node_config
  xgenesis :: Genesis
  xoptions :: "'pk BlockOptions"
  errorCh_cap :: "nat option"

text \<open>The context of a call: whether it is cancelled at the start, and whether the executor is stopped
  while it waits after a failed attempt.\<close>

record call_ctx =
  ctx_Err :: "goerr option"
  stopped :: "nat \<Rightarrow> goerr option"

section \<open>State\<close>

record lastBlockInfo =
  lbHeaderHash :: bytes
  lbDataHash :: bytes
  lbSignature :: bytes

record ('db, 'pk, 'x, 's, 'c, 'r) Executor =
  edb :: 'db
  elayer :: 'x
  eseq :: 's
  ecache :: 'c
  eraft :: 'r
  lastState :: "State option"
  hasPendingBlock :: bool
  lastInfo :: "lastBlockInfo option"
  pendingCheckCounter :: u64
  txNotifyCh :: bool
  errorCh :: "goerr list"
  etracking :: hash_tracking
  messages :: "'pk message list"

definition proposer :: "Genesis \<Rightarrow> bytes" where
  "proposer g = (case gProposerAddress g of None \<Rightarrow> [] | Some a \<Rightarrow> a)"

text \<open>\<^verbatim>\<open>NewExecutor\<close>: the checks, and the state of a new executor.\<close>

definition NewExecutor_check :: "('db, 'pk, 'x, 's, 'c, 'r) exec_env \<Rightarrow> goerr option" where
  "NewExecutor_check env =
     (if BasedSequencer (xconfig env) then None
      else (case xsigner env of
              None \<Rightarrow> Some (Msg ''signer cannot be nil'')
            | Some sg \<Rightarrow>
                (case GetAddress sg of
                   Inl e \<Rightarrow> Some (Wrap ''failed to get address'' e)
                 | Inr addr \<Rightarrow> if addr \<noteq> proposer (xgenesis env) then Some (Sentinel ErrNotProposer) else None)))"

definition NewExecutor ::
  "('db, 'pk, 'x, 's, 'c, 'r) exec_env \<Rightarrow> hash_tracking \<Rightarrow> 'db \<Rightarrow> 'x \<Rightarrow> 's \<Rightarrow> 'c \<Rightarrow> 'r \<Rightarrow>
     ('db, 'pk, 'x, 's, 'c, 'r) Executor result" where
  "NewExecutor env tr db x s c r =
     (case NewExecutor_check env of
        Some e \<Rightarrow> Inl e
      | None \<Rightarrow> Inr \<lparr>edb = db, elayer = x, eseq = s, ecache = c, eraft = r, lastState = None,
          hasPendingBlock = False, lastInfo = None, pendingCheckCounter = 0, txNotifyCh = False,
          errorCh = [], etracking = tr, messages = []\<rparr>)"

definition emptyState :: State where
  "emptyState = \<lparr>sVersion = \<lparr>vBlock = 0, vApp = 0\<rparr>, sChainID = [], InitialHeight = 0, LastBlockHeight = 0,
     LastBlockTime = zero_time, sLastHeaderHash = [], sDAHeight = 0, sAppHash = []\<rparr>"

definition getLastState :: "('db, 'pk, 'x, 's, 'c, 'r) Executor \<Rightarrow> State" where
  "getLastState e = (case lastState e of None \<Rightarrow> emptyState | Some s \<Rightarrow> s)"

definition setLastState :: "State \<Rightarrow> ('db, 'pk, 'x, 's, 'c, 'r) Executor \<Rightarrow> ('db, 'pk, 'x, 's, 'c, 'r) Executor" where
  "setLastState s e = e\<lparr>lastState := Some s\<rparr>"

text \<open>A send on the channel of capacity 1, or of the critical errors, that does not block.\<close>

definition NotifyNewTransactions :: "('db, 'pk, 'x, 's, 'c, 'r) Executor \<Rightarrow> ('db, 'pk, 'x, 's, 'c, 'r) Executor" where
  "NotifyNewTransactions e = e\<lparr>txNotifyCh := True\<rparr>"

definition sendCriticalError ::
  "('db, 'pk, 'x, 's, 'c, 'r) exec_env \<Rightarrow> goerr \<Rightarrow> ('db, 'pk, 'x, 's, 'c, 'r) Executor \<Rightarrow> ('db, 'pk, 'x, 's, 'c, 'r) Executor" where
  "sendCriticalError env err e =
     (case errorCh_cap env of
        None \<Rightarrow> e
      | Some n \<Rightarrow> if length (errorCh e) < n then e\<lparr>errorCh := errorCh e @ [err]\<rparr> else e)"


section \<open>Pending blocks\<close>

definition headerKey :: string where
  "headerKey = ''pending_header''"

definition dataKey :: string where
  "dataKey = ''pending_data''"

definition getPendingBlock :: "('db, 'pk) store_env \<Rightarrow> 'db \<Rightarrow> ('pk SignedHeader \<times> Data) option result" where
  "getPendingBlock env db =
     (case GetMetadata env db headerKey of
        Inl e \<Rightarrow> if errors_is e ErrNotFound then Inr None else Inl e
      | Inr headerBytes \<Rightarrow>
          (case GetMetadata env db dataKey of
             Inl e \<Rightarrow> if errors_is e ErrNotFound
                      then Inl (Msg ''pending header exists but data is missing: corrupt state'') else Inl e
           | Inr dataBytes \<Rightarrow>
               (case SignedHeader_UnmarshalBinary (tenv env) newSignedHeader headerBytes of
                  Inl e \<Rightarrow> Inl (Wrap ''unmarshal pending header'' e)
                | Inr header \<Rightarrow>
                    (case Data_UnmarshalBinary (tenv env) dataBytes of
                       Inl e \<Rightarrow> Inl (Wrap ''unmarshal pending data'' e)
                     | Inr data \<Rightarrow> Inr (Some (header, data))))))"

text \<open>Marshalling caches the marshalled key in the header it is called on, so the header is returned,
  too.\<close>

definition put_pending :: "('db, 'pk) store_env \<Rightarrow> 'db \<Rightarrow> bytes \<Rightarrow> bytes \<Rightarrow> goerr option \<times> 'db" where
  "put_pending env db headerBytes dataBytes =
     (case NewBatch env db of
        Inl e \<Rightarrow> (Some (Wrap ''create batch for early save'' e), db)
      | Inr b \<Rightarrow>
          (case batch_ops env db
                  [(''save pending header'', DsPut (ds_new_key (sds env) (GetMetaKey headerKey)) headerBytes),
                   (''save pending data'', DsPut (ds_new_key (sds env) (GetMetaKey dataKey)) dataBytes)] b of
             Inl e \<Rightarrow> (Some e, db)
           | Inr b' \<Rightarrow>
               (case Commit env db b' of
                  (Some e, db') \<Rightarrow> (Some (Wrap ''commit pending block'' e), db')
                | (None, db') \<Rightarrow> (None, db'))))"

definition savePendingBlock ::
  "('db, 'pk) store_env \<Rightarrow> 'db \<Rightarrow> 'pk SignedHeader \<Rightarrow> Data \<Rightarrow> (goerr option \<times> 'pk SignedHeader) \<times> 'db" where
  "savePendingBlock env db header data =
     (case SignedHeader_MarshalBinary (tenv env) header of
        (Inl e, header') \<Rightarrow> ((Some (Wrap ''marshal header'' e), header'), db)
      | (Inr headerBytes, header') \<Rightarrow>
          (case Data_MarshalBinary (tenv env) data of
             Inl e \<Rightarrow> ((Some (Wrap ''marshal data'' e), header'), db)
           | Inr dataBytes \<Rightarrow>
               (case put_pending env db headerBytes dataBytes of (r, db') \<Rightarrow> ((r, header'), db'))))"

definition deletePendingBlock :: "('db, 'pk) store_env \<Rightarrow> 'db \<Rightarrow> goerr option \<times> 'db" where
  "deletePendingBlock env db =
     (case DeleteMetadata env db headerKey of
        (Some e, db1) \<Rightarrow> (Some (Wrap ''delete pending header'' e), db1)
      | (None, db1) \<Rightarrow>
          (case DeleteMetadata env db1 dataKey of
             (Some e, db2) \<Rightarrow> (Some (Wrap ''delete pending data'' e), db2)
           | (None, db2) \<Rightarrow> (None, db2)))"

text \<open>Pending blocks of an older format: stored as the next block, without a signature.\<close>

definition cleanup_legacy ::
  "('db, 'pk) store_env \<Rightarrow> 'db \<Rightarrow> u64 \<Rightarrow> 'pk SignedHeader \<Rightarrow> goerr option \<times> 'db" where
  "cleanup_legacy env db candidateHeight pendingHeader =
     (case NewBatch env db of
        Inl e \<Rightarrow> (Some (Wrap ''create cleanup batch'' e), db)
      | Inr b \<Rightarrow>
          (case fst (SignedHeader_MarshalBinary (tenv env) pendingHeader) of
             Inl e \<Rightarrow> (Some (Wrap ''marshal header for hash'' e), db)
           | Inr headerBytes \<Rightarrow>
               (case batch_dels env db
                       [(''delete legacy key'', getHeaderKey candidateHeight),
                        (''delete legacy key'', getDataKey candidateHeight),
                        (''delete legacy key'', getSignatureKey candidateHeight),
                        (''delete legacy key'', getIndexKey env (sha256 headerBytes))] b of
                  Inl e \<Rightarrow> (Some e, db)
                | Inr b' \<Rightarrow>
                    (case Commit env db b' of
                       (Some e, db') \<Rightarrow> (Some (Wrap ''commit cleanup batch'' e), db')
                     | (None, db') \<Rightarrow> (None, db')))))"

definition migrateLegacyPendingBlock ::
  "('db, 'pk) store_env \<Rightarrow> 'db \<Rightarrow> State \<Rightarrow> goerr option \<times> 'db" where
  "migrateLegacyPendingBlock env db state =
     (let candidateHeight = LastBlockHeight state + 1 in
      case GetBlockData env db candidateHeight of
        Inl e \<Rightarrow> if \<not> errors_is e ErrNotFound then (Some (Wrap ''get block data'' e), db) else (None, db)
      | Inr (pendingHeader, pendingData) \<Rightarrow>
          if length (shSignature pendingHeader) \<noteq> 0 then (Some (Msg ''pending block with signatures found''), db)
          else (case savePendingBlock env db pendingHeader pendingData of
                  ((Some e, _), db') \<Rightarrow> (Some (Wrap ''save migrated pending block'' e), db')
                | ((None, pendingHeader'), db') \<Rightarrow> cleanup_legacy env db' candidateHeight pendingHeader'))"


section \<open>Making a block\<close>

definition MaxRetriesBeforeHalt :: nat where
  "MaxRetriesBeforeHalt = 5"

definition DataHashForEmptyTxs :: bytes where
  "DataHashForEmptyTxs = [110, 52, 11, 156, 255, 179, 122, 152, 156, 165, 68, 230, 187, 120, 10, 44, 120, 144,
     29, 63, 179, 55, 56, 118, 133, 17, 163, 6, 23, 175, 160, 29]"

text \<open>The batch and the error, which may both be there.\<close>

definition RetrieveBatch ::
  "('db, 'pk, 'x, 's, 'c, 'r) exec_env \<Rightarrow> ('db, 'pk, 'x, 's, 'c, 'r) Executor \<Rightarrow>
     ((GetNextBatchResponse option \<times> goerr option) \<times> ('db, 'pk, 'x, 's, 'c, 'r) Executor) option" where
  "RetrieveBatch env e =
     (case q_GetNextBatch (xseq env) (eseq e)
             \<lparr>reqId = bytes_of_string (gChainID (xgenesis env)), LastBatchData = [], MaxBytes = of_nat DefaultMaxBlobSize\<rparr> of
        None \<Rightarrow> None
      | Some (Inl err, s) \<Rightarrow> Some ((None, Some err), e\<lparr>eseq := s\<rparr>)
      | Some (Inr None, s) \<Rightarrow> Some ((None, Some (Sentinel ErrNoBatch)), e\<lparr>eseq := s\<rparr>)
      | Some (Inr (Some res), s) \<Rightarrow>
          Some ((Some res, if respBatch res = [] then Some (Sentinel ErrNoTransactionsInBatch) else None),
                e\<lparr>eseq := s\<rparr>))"

text \<open>The hashes and the signature of the last block: from memory, or read from the store.\<close>

definition last_block_info ::
  "('db, 'pk, 'x, 's, 'c, 'r) exec_env \<Rightarrow> ('db, 'pk, 'x, 's, 'c, 'r) Executor \<Rightarrow> u64 \<Rightarrow> lastBlockInfo result" where
  "last_block_info env e height =
     (if height > gInitialHeight (xgenesis env)
      then (case lastInfo e of
              Some info \<Rightarrow> Inr info
            | None \<Rightarrow>
                (case GetBlockData (xstore env) (edb e) (height - 1) of
                   Inl err \<Rightarrow> Inl (Wrap ''failed to get last block'' err)
                 | Inr (lastHeader, lastData) \<Rightarrow>
                     (case GetSignature (xstore env) (edb e) (height - 1) of
                        Inl err \<Rightarrow> Inl (Wrap ''failed to get last signature'' err)
                      | Inr sig \<Rightarrow>
                          Inr \<lparr>lbHeaderHash = Header_Hash (tenv (xstore env)) (shHeader lastHeader),
                               lbDataHash = Data_Hash (tenv (xstore env)) lastData, lbSignature = sig\<rparr>)))
      else Inr \<lparr>lbHeaderHash = [], lbDataHash = [], lbSignature = []\<rparr>)"

definition signer_info ::
  "('db, 'pk, 'x, 's, 'c, 'r) exec_env \<Rightarrow> ('pk option \<times> bytes) result" where
  "signer_info env =
     (let hasher = ValidatorHasherProvider (xoptions env) (proposer (xgenesis env)) in
      case (case xsigner env of
              None \<Rightarrow> Inr None
            | Some sg \<Rightarrow> (case GetPublic sg of Inl e \<Rightarrow> Inl (Wrap ''failed to get public key'' e) | Inr pk \<Rightarrow> Inr (Some pk))) of
        Inl e \<Rightarrow> Inl e
      | Inr pubKey \<Rightarrow>
          (case hasher pubKey of
             Inl e \<Rightarrow> Inl (Wrap ''failed to get validator hash'' e)
           | Inr validatorHash \<Rightarrow> Inr (pubKey, validatorHash)))"

definition CreateBlock ::
  "('db, 'pk, 'x, 's, 'c, 'r) exec_env \<Rightarrow> ('db, 'pk, 'x, 's, 'c, 'r) Executor \<Rightarrow> u64 \<Rightarrow> GetNextBatchResponse \<Rightarrow>
     ('pk SignedHeader \<times> Data) result" where
  "CreateBlock env e height batchData =
     (let g = xgenesis env; currentState = getLastState e;
          headerTime = word_of_int (if height > gInitialHeight g then respTimestamp batchData else StartTime g) in
      case last_block_info env e height of
        Inl err \<Rightarrow> Inl err
      | Inr info \<Rightarrow>
          (case signer_info env of
             Inl err \<Rightarrow> Inl err
           | Inr (pubKey, validatorHash) \<Rightarrow>
               let data = \<lparr>dMetadata = Some \<lparr>mChainID = gChainID g, mHeight = height, mTime = headerTime,
                             LastDataHash = lbDataHash info\<rparr>, Txs = respBatch batchData\<rparr>;
                   header = \<lparr>base = \<lparr>bhHeight = height, bhTime = headerTime, bhChainID = gChainID g\<rparr>,
                     hVersion = sVersion currentState, LastHeaderHash = lbHeaderHash info,
                     DataHash = (if length (Txs data) = 0 then DataHashForEmptyTxs
                                 else DACommitment (tenv (xstore env)) data),
                     AppHash = sAppHash currentState, ValidatorHash = validatorHash,
                     ProposerAddress = proposer g, Legacy = None\<rparr> in
               Inr (\<lparr>shHeader = header, shSignature = lbSignature info,
                     shSigner = \<lparr>PubKey = pubKey, Address = proposer g, marshalledPubKey = []\<rparr>,
                     aggregatorSignatureProvider = None, syncNodeSignatureBytesProvider = None\<rparr>, data)))"

text \<open>The attempts to execute a block, with the number of the next one.\<close>

fun execute_attempts ::
  "'x exec_ops \<Rightarrow> call_ctx \<Rightarrow> bytes list \<Rightarrow> Header \<Rightarrow> bytes \<Rightarrow> nat \<Rightarrow> nat \<Rightarrow> 'x \<Rightarrow> bytes result \<times> 'x" where
  "execute_attempts ops ctx rawTxs header prev 0 attempt x = (Inr [], x)"
| "execute_attempts ops ctx rawTxs header prev (Suc left) attempt x =
     (case x_ExecuteTxs ops x rawTxs (Header_Height header) (Header_Time header) prev of
        (Inr newAppHash, x') \<Rightarrow> (Inr newAppHash, x')
      | (Inl err, x') \<Rightarrow>
          if attempt = MaxRetriesBeforeHalt then (Inl (Wrap ''failed to execute transactions'' err), x')
          else (case stopped ctx attempt of
                  Some c \<Rightarrow> (Inl (Wrap ''context cancelled during retry'' c), x')
                | None \<Rightarrow> execute_attempts ops ctx rawTxs header prev left (attempt + 1) x'))"

definition executeTxsWithRetry ::
  "'x exec_ops \<Rightarrow> call_ctx \<Rightarrow> 'x \<Rightarrow> bytes list \<Rightarrow> Header \<Rightarrow> State \<Rightarrow> bytes result \<times> 'x" where
  "executeTxsWithRetry ops ctx x rawTxs header currentState =
     execute_attempts ops ctx rawTxs header (sAppHash currentState) MaxRetriesBeforeHalt 1 x"

definition ApplyBlock ::
  "('db, 'pk, 'x, 's, 'c, 'r) exec_env \<Rightarrow> call_ctx \<Rightarrow> Header \<Rightarrow> Data \<Rightarrow> ('db, 'pk, 'x, 's, 'c, 'r) Executor \<Rightarrow>
     State result \<times> ('db, 'pk, 'x, 's, 'c, 'r) Executor" where
  "ApplyBlock env ctx header data e =
     (let currentState = getLastState e in
      case executeTxsWithRetry (xexec env) ctx (elayer e) (Txs data) header currentState of
        (Inl err, x) \<Rightarrow>
          (Inl (Wrap ''failed to execute transactions'' err),
           sendCriticalError env (Wrap ''failed to execute transactions'' err) (e\<lparr>elayer := x\<rparr>))
      | (Inr newAppHash, x) \<Rightarrow>
          (Inr (NextState (tenv (xstore env)) currentState header newAppHash), e\<lparr>elayer := x\<rparr>))"

definition signHeader :: "('db, 'pk, 'x, 's, 'c, 'r) exec_env \<Rightarrow> Header \<Rightarrow> bytes result" where
  "signHeader env header =
     (case xsigner env of
        None \<Rightarrow> Inr []
      | Some sg \<Rightarrow>
          (case AggregatorNodeSignatureBytesProvider (xoptions env) header of
             Inl e \<Rightarrow> Inl (Wrap ''failed to get signature payload'' e)
           | Inr bz \<Rightarrow> Sign sg bz))"


section \<open>Producing a block\<close>

definition has_quorum ::
  "('db, 'pk, 'x, 's, 'c, 'r) exec_env \<Rightarrow> ('db, 'pk, 'x, 's, 'c, 'r) Executor \<Rightarrow> bool \<times> ('db, 'pk, 'x, 's, 'c, 'r) Executor" where
  "has_quorum env e =
     (case xraft env of
        None \<Rightarrow> (True, e)
      | Some raft \<Rightarrow> (case HasQuorum raft (eraft e) of (q, r) \<Rightarrow> (q, e\<lparr>eraft := r\<rparr>)))"

definition pendingCheckInterval :: u64 where
  "pendingCheckInterval = 64"

definition pending_limit_reached ::
  "('db, 'pk, 'x, 's, 'c, 'r) exec_env \<Rightarrow> ('db, 'pk, 'x, 's, 'c, 'r) Executor \<Rightarrow>
     (bool \<times> ('db, 'pk, 'x, 's, 'c, 'r) Executor) option" where
  "pending_limit_reached env e =
     (let limit = MaxPendingHeadersAndData (xconfig env) in
      if limit > 0
      then let e1 = e\<lparr>pendingCheckCounter := pendingCheckCounter e + 1\<rparr> in
        if limit \<le> pendingCheckInterval \<or> pendingCheckCounter e1 mod pendingCheckInterval = 0
        then let pendingHeaders = c_NumPendingHeaders (xcache env) (ecache e1) (edb e1) in
          (case c_NumPendingData (xcache env) (ecache e1) (edb e1) of
             None \<Rightarrow> None
           | Some (pendingData, c, db) \<Rightarrow>
               Some (pendingHeaders \<ge> limit \<or> pendingData \<ge> limit, e1\<lparr>ecache := c, edb := db\<rparr>))
        else Some (False, e1)
      else Some (False, e))"

text \<open>A new block from the next batch, saved as pending; nothing where there is no batch.\<close>

definition new_block ::
  "('db, 'pk, 'x, 's, 'c, 'r) exec_env \<Rightarrow> u64 \<Rightarrow> ('db, 'pk, 'x, 's, 'c, 'r) Executor \<Rightarrow>
     (('pk SignedHeader \<times> Data) option result \<times> ('db, 'pk, 'x, 's, 'c, 'r) Executor) option" where
  "new_block env newHeight e =
     (case RetrieveBatch env e of
        None \<Rightarrow> None
      | Some ((batchData, err), e1) \<Rightarrow>
          Some (if (case err of None \<Rightarrow> False | Some er \<Rightarrow> errors_is er ErrNoBatch) then (Inr None, e1)
            else if (case err of None \<Rightarrow> False | Some er \<Rightarrow> \<not> errors_is er ErrNoTransactionsInBatch)
            then (Inl (Wrap ''failed to retrieve batch'' (the err)), e1)
            else (case batchData of
                    None \<Rightarrow> (Inl nil_key_panic, e1)
                  | Some b \<Rightarrow>
                      (case CreateBlock env e1 newHeight b of
                         Inl er \<Rightarrow> (Inl (Wrap ''failed to create block'' er), e1)
                       | Inr (header, data) \<Rightarrow>
                           (case savePendingBlock (xstore env) (edb e1) header data of
                              ((Some er, _), db) \<Rightarrow> (Inl (Wrap ''failed to save block data'' er), e1\<lparr>edb := db\<rparr>)
                            | ((None, header'), db) \<Rightarrow> (Inr (Some (header', data)), e1\<lparr>edb := db\<rparr>))))))"

text \<open>The pending block where the flag is set and it is the next one, else a new block.\<close>

definition pending_or_new ::
  "('db, 'pk, 'x, 's, 'c, 'r) exec_env \<Rightarrow> u64 \<Rightarrow> ('db, 'pk, 'x, 's, 'c, 'r) Executor \<Rightarrow>
     (('pk SignedHeader \<times> Data) option result \<times> ('db, 'pk, 'x, 's, 'c, 'r) Executor) option" where
  "pending_or_new env newHeight e =
     (case (if hasPendingBlock e then getPendingBlock (xstore env) (edb e) else Inr None) of
        Inl err \<Rightarrow> if errors_is err ErrNotFound then new_block env newHeight e
                   else Some (Inl (Wrap ''failed to get block data'' err), e)
      | Inr None \<Rightarrow> new_block env newHeight e
      | Inr (Some (pendingHeader, pendingData)) \<Rightarrow>
          if Header_Height (shHeader pendingHeader) = newHeight
          then Some (Inr (Some (pendingHeader, pendingData)), e)
          else new_block env newHeight e)"

text \<open>The writes of the block, the height and the state, collected in one batch.\<close>

definition stage_block ::
  "('db, 'pk) store_env \<Rightarrow> 'db \<Rightarrow> 'pk SignedHeader \<Rightarrow> Data \<Rightarrow> bytes \<Rightarrow> u64 \<Rightarrow> State \<Rightarrow> ds_op list result" where
  "stage_block env db header data signature newHeight newState =
     (case NewBatch env db of
        Inl e \<Rightarrow> Inl (Wrap ''failed to create batch'' e)
      | Inr b \<Rightarrow>
          (case SaveBlockData env db b header data signature of
             Inl e \<Rightarrow> Inl (Wrap ''failed to save block'' e)
           | Inr b1 \<Rightarrow>
               (case SetHeight env db b1 newHeight of
                  Inl e \<Rightarrow> Inl (Wrap ''failed to update store height'' e)
                | Inr b2 \<Rightarrow>
                    (case UpdateState env db b2 newState of
                       Inl e \<Rightarrow> Inl (Wrap ''failed to update state'' e)
                     | Inr b3 \<Rightarrow> Inr b3))))"

definition propose_raft ::
  "('db, 'pk, 'x, 's, 'c, 'r) exec_env \<Rightarrow> 'pk SignedHeader \<Rightarrow> Data \<Rightarrow> u64 \<Rightarrow> ('db, 'pk, 'x, 's, 'c, 'r) Executor \<Rightarrow>
     goerr option \<times> ('db, 'pk, 'x, 's, 'c, 'r) Executor" where
  "propose_raft env header data newHeight e =
     (case xraft env of
        None \<Rightarrow> (None, e)
      | Some raft \<Rightarrow>
          (case fst (SignedHeader_MarshalBinary (tenv (xstore env)) header) of
             Inl err \<Rightarrow> (Some (Wrap ''failed to marshal header'' err), e)
           | Inr headerBytes \<Rightarrow>
               (case Data_MarshalBinary (tenv (xstore env)) data of
                  Inl err \<Rightarrow> (Some (Wrap ''failed to marshal data'' err), e)
                | Inr dataBytes \<Rightarrow>
                    let raftState = \<lparr>rHeight = newHeight,
                          rLastSubmittedDaHeaderHeight = c_GetLastSubmittedHeaderHeight (xcache env) (ecache e),
                          rLastSubmittedDaDataHeight = c_GetLastSubmittedDataHeight (xcache env) (ecache e),
                          rHash = Header_Hash (tenv (xstore env)) (shHeader header),
                          rTimestamp = bhTime (base (shHeader header)), rHeader = headerBytes, rData = dataBytes\<rparr> in
                    (case raft_Broadcast raft (eraft e) raftState of
                       (Some err, r) \<Rightarrow> (Some (Wrap ''failed to propose block to raft'' err), e\<lparr>eraft := r\<rparr>)
                     | (None, r) \<Rightarrow> (None, e\<lparr>eraft := r, messages := messages e @ [ToRaft raftState]\<rparr>)))))"

text \<open>After the commit: the state in memory, the broadcasts, and the final height of a based sequencer.\<close>

definition after_commit ::
  "('db, 'pk, 'x, 's, 'c, 'r) exec_env \<Rightarrow> 'pk SignedHeader \<Rightarrow> Data \<Rightarrow> bytes \<Rightarrow> u64 \<Rightarrow> State \<Rightarrow>
     ('db, 'pk, 'x, 's, 'c, 'r) Executor \<Rightarrow> goerr option \<times> ('db, 'pk, 'x, 's, 'c, 'r) Executor" where
  "after_commit env header data signature newHeight newState e =
     (let e1 = setLastState newState (e\<lparr>hasPendingBlock := False\<rparr>);
          e2 = e1\<lparr>lastInfo := Some \<lparr>lbHeaderHash = sLastHeaderHash newState,
                   lbDataHash = Data_Hash (tenv (xstore env)) data, lbSignature = signature\<rparr>,
                 messages := messages e1 @ [HeaderBroadcast \<lparr>p2pSignedHeader = header, hDAHeightHint = 0\<rparr>,
                   DataBroadcast \<lparr>p2pData = data, dDAHeightHint = 0\<rparr>]\<rparr> in
      if BasedSequencer (xconfig env)
      then (case x_SetFinal (xexec env) (elayer e2) newHeight of
              (Some err, x) \<Rightarrow>
                (Some (Wrap ''failed to set final height in based sequencer mode'' err),
                 sendCriticalError env (Wrap ''failed to set final height in based sequencer mode'' err) (e2\<lparr>elayer := x\<rparr>))
            | (None, x) \<Rightarrow> (None, e2\<lparr>elayer := x\<rparr>))
      else (None, e2))"


text \<open>The block, height and state are staged, proposed to raft and committed.\<close>

definition commit_block ::
  "('db, 'pk, 'x, 's, 'c, 'r) exec_env \<Rightarrow> 'pk SignedHeader \<Rightarrow> Data \<Rightarrow> bytes \<Rightarrow> u64 \<Rightarrow> State \<Rightarrow>
     ('db, 'pk, 'x, 's, 'c, 'r) Executor \<Rightarrow> goerr option \<times> ('db, 'pk, 'x, 's, 'c, 'r) Executor" where
  "commit_block env header data signature newHeight newState e =
     (case stage_block (xstore env) (edb e) header data signature newHeight newState of
        Inl err \<Rightarrow> (Some err, e)
      | Inr b \<Rightarrow>
          let header' = snd (SignedHeader_MarshalBinary (tenv (xstore env)) header) in
          (case propose_raft env header' data newHeight e of
             (Some err, e1) \<Rightarrow> (Some err, e1)
           | (None, e1) \<Rightarrow>
               (case Commit (xstore env) (edb e1) b of
                  (Some err, db) \<Rightarrow> (Some (Wrap ''failed to commit batch'' err), e1\<lparr>edb := db\<rparr>)
                | (None, db) \<Rightarrow> after_commit env header' data signature newHeight newState (e1\<lparr>edb := db\<rparr>))))"

definition finish_block ::
  "('db, 'pk, 'x, 's, 'c, 'r) exec_env \<Rightarrow> call_ctx \<Rightarrow> State \<Rightarrow> u64 \<Rightarrow> 'pk SignedHeader \<Rightarrow> Data \<Rightarrow>
     ('db, 'pk, 'x, 's, 'c, 'r) Executor \<Rightarrow> goerr option \<times> ('db, 'pk, 'x, 's, 'c, 'r) Executor" where
  "finish_block env ctx currentState newHeight header data e =
     (case has_quorum env e of
        (False, e1) \<Rightarrow> (Some (Msg ''raft cluster does not have quorum''), e1)
      | (True, e1) \<Rightarrow>
          (case ApplyBlock env ctx (shHeader header) data e1 of
             (Inl err, e2) \<Rightarrow> (Some (Wrap ''failed to apply block'' err), e2)
           | (Inr applied, e2) \<Rightarrow>
               let newState = applied\<lparr>sDAHeight := q_GetDAHeight (xseq env) (eseq e2)\<rparr> in
               (case signHeader env (shHeader header) of
                  Inl err \<Rightarrow> (Some (Wrap ''failed to sign header'' err), e2)
                | Inr signature \<Rightarrow>
                    let header1 = header\<lparr>shSignature := signature\<rparr> in
                    (case AssertValidSequence (etracking e2) currentState header1 of
                       (Some err, tr) \<Rightarrow>
                         (Some (Wrap ''failed to validate block'' err),
                          sendCriticalError env (Wrap ''failed to validate block'' err) (e2\<lparr>etracking := tr\<rparr>))
                     | (None, tr) \<Rightarrow>
                         commit_block env header1 data signature newHeight newState (e2\<lparr>etracking := tr\<rparr>)))))"

definition ProduceBlock ::
  "('db, 'pk, 'x, 's, 'c, 'r) exec_env \<Rightarrow> call_ctx \<Rightarrow> ('db, 'pk, 'x, 's, 'c, 'r) Executor \<Rightarrow>
     (goerr option \<times> ('db, 'pk, 'x, 's, 'c, 'r) Executor) option" where
  "ProduceBlock env ctx e =
     (case ctx_Err ctx of
        Some err \<Rightarrow> Some (Some err, e)
      | None \<Rightarrow>
          (case has_quorum env e of
             (False, e1) \<Rightarrow> Some (Some (Msg ''raft cluster does not have quorum''), e1)
           | (True, e1) \<Rightarrow>
               let currentState = getLastState e1; newHeight = LastBlockHeight currentState + 1 in
               (case pending_limit_reached env e1 of
                  None \<Rightarrow> None
                | Some (True, e2) \<Rightarrow> Some (None, e2)
                | Some (False, e2) \<Rightarrow>
                    (case pending_or_new env newHeight e2 of
                       None \<Rightarrow> None
                     | Some (Inl err, e3) \<Rightarrow> Some (Some err, e3)
                     | Some (Inr None, e3) \<Rightarrow> Some (None, e3)
                     | Some (Inr (Some (header, data)), e3) \<Rightarrow>
                         Some (finish_block env ctx currentState newHeight header data e3)))))"

definition Stop ::
  "('db, 'pk, 'x, 's, 'c, 'r) exec_env \<Rightarrow> ('db, 'pk, 'x, 's, 'c, 'r) Executor \<Rightarrow> ('db, 'pk, 'x, 's, 'c, 'r) Executor" where
  "Stop env e =
     (if \<not> hasPendingBlock e then e\<lparr>edb := snd (deletePendingBlock (xstore env) (edb e))\<rparr> else e)"

section \<open>Starting\<close>

definition initial_state :: "Genesis \<Rightarrow> bytes \<Rightarrow> State" where
  "initial_state g stateRoot =
     \<lparr>sVersion = \<lparr>vBlock = 0, vApp = 0\<rparr>, sChainID = gChainID g, InitialHeight = gInitialHeight g,
      LastBlockHeight = gInitialHeight g - 1, LastBlockTime = StartTime g, sLastHeaderHash = [],
      sDAHeight = DAStartHeight g, sAppHash = stateRoot\<rparr>"

text \<open>The stored state, or the state of a new chain.\<close>

definition load_state ::
  "('db, 'pk, 'x, 's, 'c, 'r) exec_env \<Rightarrow> ('db, 'pk, 'x, 's, 'c, 'r) Executor \<Rightarrow>
     State result \<times> ('db, 'pk, 'x, 's, 'c, 'r) Executor" where
  "load_state env e =
     (case GetState (xstore env) (edb e) of
        Inr state \<Rightarrow> (Inr state, e)
      | Inl _ \<Rightarrow>
          let g = xgenesis env in
          (case x_InitChain (xexec env) (elayer e) (StartTime g) (gInitialHeight g) (gChainID g) of
             (Inl err, x) \<Rightarrow>
               (Inl (Wrap ''failed to initialize chain'' err),
                sendCriticalError env (Wrap ''failed to initialize chain'' err) (e\<lparr>elayer := x\<rparr>))
           | (Inr stateRoot, x) \<Rightarrow> (Inr (initial_state g stateRoot), e\<lparr>elayer := x\<rparr>)))"

text \<open>A node is never ahead of raft, and at the same height has the same block.\<close>

definition header_matches :: "('db, 'pk) store_env \<Rightarrow> 'db \<Rightarrow> u64 \<Rightarrow> bytes \<Rightarrow> string \<Rightarrow> string \<Rightarrow> goerr option" where
  "header_matches env db height hash getMsg mismatchMsg =
     (case GetHeader env db height of
        Inl err \<Rightarrow> Some (Wrap getMsg err)
      | Inr header \<Rightarrow> if Header_Hash (tenv env) (shHeader header) \<noteq> hash then Some (Msg mismatchMsg) else None)"

definition check_raft ::
  "('db, 'pk, 'x, 's, 'c, 'r) exec_env \<Rightarrow> State \<Rightarrow> ('db, 'pk, 'x, 's, 'c, 'r) Executor \<Rightarrow>
     goerr option \<times> ('db, 'pk, 'x, 's, 'c, 'r) Executor" where
  "check_raft env state e =
     (case xraft env of
        None \<Rightarrow> (None, e)
      | Some raft \<Rightarrow>
          (case raft_GetState raft (eraft e) of (raftState, r) \<Rightarrow>
             (if rHeight raftState \<noteq> 0
              then if LastBlockHeight state > rHeight raftState
                   then Some (Msg ''invalid state: local height ahead of raft'')
                   else if LastBlockHeight state > 0 \<and> LastBlockHeight state = rHeight raftState
                   then header_matches (xstore env) (edb e) (LastBlockHeight state) (rHash raftState)
                          ''failed to get header for sync check'' ''invalid state: block hash mismatch''
                   else None
              else None, e\<lparr>eraft := r\<rparr>)))"


definition store_initial :: "('db, 'pk) store_env \<Rightarrow> 'db \<Rightarrow> State \<Rightarrow> goerr option \<times> 'db" where
  "store_initial env db state =
     (case NewBatch env db of
        Inl e \<Rightarrow> (Some (Wrap ''failed to create batch'' e), db)
      | Inr b \<Rightarrow>
          (case SetHeight env db b (LastBlockHeight state) of
             Inl e \<Rightarrow> (Some (Wrap ''failed to set store height'' e), db)
           | Inr b1 \<Rightarrow>
               (case UpdateState env db b1 state of
                  Inl e \<Rightarrow> (Some (Wrap ''failed to update state'' e), db)
                | Inr b2 \<Rightarrow>
                    (case Commit env db b2 of
                       (Some e, db') \<Rightarrow> (Some (Wrap ''failed to commit batch'' e), db')
                     | (None, db') \<Rightarrow> (None, db')))))"

text \<open>The flag and the last-block cache, from what the store holds.\<close>

definition mark_pending ::
  "('db, 'pk, 'x, 's, 'c, 'r) exec_env \<Rightarrow> ('db, 'pk, 'x, 's, 'c, 'r) Executor \<Rightarrow> ('db, 'pk, 'x, 's, 'c, 'r) Executor" where
  "mark_pending env e =
     (case GetMetadata (xstore env) (edb e) headerKey of Inl _ \<Rightarrow> e | Inr _ \<Rightarrow> e\<lparr>hasPendingBlock := True\<rparr>)"

definition warm_cache ::
  "('db, 'pk, 'x, 's, 'c, 'r) exec_env \<Rightarrow> State \<Rightarrow> ('db, 'pk, 'x, 's, 'c, 'r) Executor \<Rightarrow> ('db, 'pk, 'x, 's, 'c, 'r) Executor" where
  "warm_cache env state e =
     (if LastBlockHeight state > 0
      then (case GetBlockData (xstore env) (edb e) (LastBlockHeight state) of
              Inl _ \<Rightarrow> e
            | Inr (h, d) \<Rightarrow>
                e\<lparr>lastInfo := Some \<lparr>lbHeaderHash = Header_Hash (tenv (xstore env)) (shHeader h),
                    lbDataHash = Data_Hash (tenv (xstore env)) d,
                    lbSignature = (case GetSignature (xstore env) (edb e) (LastBlockHeight state) of
                                     Inl _ \<Rightarrow> [] | Inr sig \<Rightarrow> sig)\<rparr>\<rparr>)
      else e)"

definition sync_target ::
  "('db, 'pk, 'x, 's, 'c, 'r) exec_env \<Rightarrow> State \<Rightarrow> ('db, 'pk, 'x, 's, 'c, 'r) Executor \<Rightarrow>
     u64 \<times> ('db, 'pk, 'x, 's, 'c, 'r) Executor" where
  "sync_target env state e =
     (case xraft env of
        None \<Rightarrow> (LastBlockHeight state, e)
      | Some raft \<Rightarrow>
          (case raft_GetState raft (eraft e) of (raftState, r) \<Rightarrow>
             (if rHeight raftState > LastBlockHeight state then rHeight raftState else LastBlockHeight state,
              e\<lparr>eraft := r\<rparr>)))"

definition set_final_at_start ::
  "('db, 'pk, 'x, 's, 'c, 'r) exec_env \<Rightarrow> u64 \<Rightarrow> ('db, 'pk, 'x, 's, 'c, 'r) Executor \<Rightarrow>
     goerr option \<times> ('db, 'pk, 'x, 's, 'c, 'r) Executor" where
  "set_final_at_start env target e =
     (if BasedSequencer (xconfig env) \<and> target > 0
      then (case x_SetFinal (xexec env) (elayer e) target of
              (Some err, x) \<Rightarrow>
                (Some (Wrap ''failed to set final height in based sequencer mode'' err),
                 sendCriticalError env (Wrap ''failed to set final height in based sequencer mode'' err) (e\<lparr>elayer := x\<rparr>))
            | (None, x) \<Rightarrow> (None, e\<lparr>elayer := x\<rparr>))
      else (None, e))"

definition check_after_replay ::
  "('db, 'pk, 'x, 's, 'c, 'r) exec_env \<Rightarrow> ('db, 'pk, 'x, 's, 'c, 'r) Executor \<Rightarrow>
     goerr option \<times> ('db, 'pk, 'x, 's, 'c, 'r) Executor" where
  "check_after_replay env e =
     (case xraft env of
        None \<Rightarrow> (None, e)
      | Some raft \<Rightarrow>
          (case raft_GetState raft (eraft e) of (raftState, r) \<Rightarrow>
             (case GetState (xstore env) (edb e) of
                Inl err \<Rightarrow> Some (Wrap ''get state after sync'' err)
              | Inr newState \<Rightarrow>
                  if LastBlockHeight newState > 0 \<and> LastBlockHeight newState = rHeight raftState
                  then header_matches (xstore env) (edb e) (LastBlockHeight newState) (rHash raftState)
                         ''get header'' ''content mismatch after replay''
                  else None, e\<lparr>eraft := r\<rparr>)))"

definition replay_layer ::
  "('db, 'pk, 'x, 's, 'c, 'r) exec_env \<Rightarrow> u64 \<Rightarrow> ('db, 'pk, 'x, 's, 'c, 'r) Executor \<Rightarrow>
     (goerr option \<times> ('db, 'pk, 'x, 's, 'c, 'r) Executor) option" where
  "replay_layer env target e =
     (case SyncToHeight (xstore env) (xexec env) (xgenesis env) (elayer e) (edb e) target of
        None \<Rightarrow> None
      | Some (Some err, x, db) \<Rightarrow>
          Some (Some (Wrap ''failed to sync execution layer'' err),
                sendCriticalError env (Wrap ''failed to sync execution layer'' err) (e\<lparr>elayer := x, edb := db\<rparr>))
      | Some (None, x, db) \<Rightarrow>
          (case set_final_at_start env target (e\<lparr>elayer := x, edb := db\<rparr>) of
             (Some err, e1) \<Rightarrow> Some (Some err, e1)
           | (None, e1) \<Rightarrow> Some (check_after_replay env e1)))"

definition initializeState ::
  "('db, 'pk, 'x, 's, 'c, 'r) exec_env \<Rightarrow> ('db, 'pk, 'x, 's, 'c, 'r) Executor \<Rightarrow>
     (goerr option \<times> ('db, 'pk, 'x, 's, 'c, 'r) Executor) option" where
  "initializeState env e =
     (case load_state env e of
        (Inl err, e1) \<Rightarrow> Some (Some err, e1)
      | (Inr state, e1) \<Rightarrow>
          (case check_raft env state e1 of
             (Some err, e2) \<Rightarrow> Some (Some err, e2)
           | (None, e2) \<Rightarrow>
               let e3 = setLastState state (e2\<lparr>eseq := q_SetDAHeight (xseq env) (eseq e2) (sDAHeight state)\<rparr>) in
               (case store_initial (xstore env) (edb e3) state of
                  (Some err, db) \<Rightarrow> Some (Some err, e3\<lparr>edb := db\<rparr>)
                | (None, db) \<Rightarrow>
                    (case migrateLegacyPendingBlock (xstore env) db state of
                       (Some err, db1) \<Rightarrow>
                         Some (Some (Wrap ''failed to migrate legacy pending block'' err), e3\<lparr>edb := db1\<rparr>)
                     | (None, db1) \<Rightarrow>
                         (case sync_target env state (warm_cache env state (mark_pending env (e3\<lparr>edb := db1\<rparr>))) of
                            (target, e4) \<Rightarrow> replay_layer env target e4)))))"

definition Executor_Start ::
  "('db, 'pk, 'x, 's, 'c, 'r) exec_env \<Rightarrow> ('db, 'pk, 'x, 's, 'c, 'r) Executor \<Rightarrow>
     (goerr option \<times> ('db, 'pk, 'x, 's, 'c, 'r) Executor) option" where
  "Executor_Start env e =
     (case initializeState env e of
        None \<Rightarrow> None
      | Some (Some err, e1) \<Rightarrow> Some (Some (Wrap ''failed to initialize state'' err), e1)
      | Some (None, e1) \<Rightarrow> Some (None, e1))"


text \<open>How far the node is from a raft state, as a signed difference of heights; at the same height the
  hashes must agree.\<close>

definition IsSyncedWithRaft ::
  "('db, 'pk, 'x, 's, 'c, 'r) exec_env \<Rightarrow> ('db, 'pk, 'x, 's, 'c, 'r) Executor \<Rightarrow> RaftBlockState \<Rightarrow> int result" where
  "IsSyncedWithRaft env e raftState =
     (case GetState (xstore env) (edb e) of
        Inl err \<Rightarrow> Inl err
      | Inr state \<Rightarrow>
          let diff = sint (LastBlockHeight state - rHeight raftState) in
          if diff \<noteq> 0 then Inr diff
          else if rHeight raftState = 0 then Inr 0
          else (case header_matches (xstore env) (edb e) (rHeight raftState) (rHash raftState)
                       ''get header for sync check'' ''block hash mismatch'' of
                  Some err \<Rightarrow> Inl err
                | None \<Rightarrow> Inr 0))"

section \<open>The execution loop\<close>

text \<open>The loop reacts to its two timers and to notifications of transactions; of the timers the model keeps
  the durations they are set to. Errors of \<^verbatim>\<open>ProduceBlock\<close> are only logged.\<close>

record exec_loop =
  txsAvailable :: bool
  blockTimer :: int
  lazyTimer :: "int option"

datatype loop_event = BlockTick call_ctx int | LazyTick call_ctx | TxNotified

definition start_loop ::
  "('db, 'pk, 'x, 's, 'c, 'r) exec_env \<Rightarrow> gotime \<Rightarrow> ('db, 'pk, 'x, 's, 'c, 'r) Executor \<Rightarrow> exec_loop" where
  "start_loop env present e =
     (let currentState = getLastState e;
          firstBlockDelay = (if LastBlockHeight currentState < gInitialHeight (xgenesis env) then 0
                             else LastBlockTime currentState + BlockTime (xconfig env) - present) in
      \<lparr>txsAvailable = False, blockTimer = max firstBlockDelay 0,
       lazyTimer = (if LazyMode (xconfig env) then Some (LazyBlockInterval (xconfig env)) else None)\<rparr>)"

fun loop_step ::
  "('db, 'pk, 'x, 's, 'c, 'r) exec_env \<Rightarrow> loop_event \<Rightarrow> exec_loop \<times> ('db, 'pk, 'x, 's, 'c, 'r) Executor \<Rightarrow>
     (exec_loop \<times> ('db, 'pk, 'x, 's, 'c, 'r) Executor) option" where
  "loop_step env (BlockTick ctx elapsed) (l, e) =
     (if LazyMode (xconfig env) \<and> \<not> txsAvailable l then Some (l\<lparr>blockTimer := BlockTime (xconfig env)\<rparr>, e)
      else (case ProduceBlock env ctx e of
              None \<Rightarrow> None
            | Some (_, e') \<Rightarrow>
                Some (l\<lparr>txsAvailable := False, blockTimer := max (BlockTime (xconfig env) - elapsed) 0\<rparr>, e')))"
| "loop_step env (LazyTick ctx) (l, e) =
     (if lazyTimer l = None then Some (l, e)
      else (case ProduceBlock env ctx e of
              None \<Rightarrow> None
            | Some (_, e') \<Rightarrow> Some (l\<lparr>lazyTimer := Some (LazyBlockInterval (xconfig env))\<rparr>, e')))"
| "loop_step env TxNotified (l, e) =
     (if txNotifyCh e then Some (l\<lparr>txsAvailable := True\<rparr>, e\<lparr>txNotifyCh := False\<rparr>) else Some (l, e))"

end
