(* ===== verification/Lru.thy ===== *)
theory Lru
  imports Prelude
begin

text \<open>
  The LRU cache of \<^verbatim>\<open>github.com/hashicorp/golang-lru/v2\<close> as the caches of
  \<^verbatim>\<open>src/block/internal/cache\<close> use it: a state and its calls, with what its documentation says of them. Which
  entries are evicted is left open. A cache that keeps its keys in the order of use is an instance.
\<close>

record ('l, 'k, 'v) lru_ops =
  lru_New :: "nat \<Rightarrow> 'l"
  lru_Get :: "'l \<Rightarrow> 'k \<Rightarrow> 'v option \<times> 'l"
  lru_Peek :: "'l \<Rightarrow> 'k \<Rightarrow> 'v option"
  lru_Add :: "'l \<Rightarrow> 'k \<Rightarrow> 'v \<Rightarrow> 'l"
  lru_Remove :: "'l \<Rightarrow> 'k \<Rightarrow> 'l"
  lru_Keys :: "'l \<Rightarrow> 'k list"
  lru_Len :: "'l \<Rightarrow> nat"

text \<open>A new cache is empty. \<^verbatim>\<open>Get\<close> and \<^verbatim>\<open>Peek\<close> look a key up and evict nothing. \<^verbatim>\<open>Add\<close> stores a value under a
  key and may drop other entries. \<^verbatim>\<open>Remove\<close> drops one key. \<^verbatim>\<open>Keys\<close> lists the keys, each once, and
  \<^verbatim>\<open>Len\<close> counts them.\<close>

definition lru_ok :: "('l, 'k, 'v) lru_ops \<Rightarrow> ('l \<Rightarrow> 'k \<rightharpoonup> 'v) \<Rightarrow> bool" where
  "lru_ok ops vw \<longleftrightarrow>
     (\<forall>n. vw (lru_New ops n) = Map.empty) \<and>
     (\<forall>l k. fst (lru_Get ops l k) = vw l k \<and> vw (snd (lru_Get ops l k)) = vw l) \<and>
     (\<forall>l k. lru_Peek ops l k = vw l k) \<and>
     (\<forall>l k v. vw (lru_Add ops l k v) k = Some v \<and> vw (lru_Add ops l k v) \<subseteq>\<^sub>m (vw l)(k \<mapsto> v)) \<and>
     (\<forall>l k. vw (lru_Remove ops l k) = (vw l)(k := None)) \<and>
     (\<forall>l. distinct (lru_Keys ops l) \<and> set (lru_Keys ops l) = dom (vw l) \<and> lru_Len ops l = length (lru_Keys ops l))"

lemma lru_okD:
  assumes "lru_ok ops vw"
  shows "vw (lru_New ops n) = Map.empty" "fst (lru_Get ops l k) = vw l k" "vw (snd (lru_Get ops l k)) = vw l"
    "lru_Peek ops l k = vw l k" "vw (lru_Add ops l k v) k = Some v"
    "vw (lru_Add ops l k v) \<subseteq>\<^sub>m (vw l)(k \<mapsto> v)" "vw (lru_Remove ops l k) = (vw l)(k := None)"
    "distinct (lru_Keys ops l)" "set (lru_Keys ops l) = dom (vw l)" "lru_Len ops l = length (lru_Keys ops l)"
  using assms by (simp_all add: lru_ok_def)

lemma lru_Add_Some:
  assumes "lru_ok ops vw" and "vw (lru_Add ops l k v) j = Some w"
  shows "j = k \<and> w = v \<or> j \<noteq> k \<and> vw l j = Some w"
proof -
  have "((vw l)(k \<mapsto> v)) j = Some w"
    using lru_okD(6) [OF assms(1), of l k v] assms(2) unfolding map_le_def by (metis domI)
  then show ?thesis by (simp split: if_splits)
qed

section \<open>An instance\<close>

text \<open>Capacity and entries, the least recently used first.\<close>

type_synonym ('k, 'v) lru_list = "nat \<times> ('k \<times> 'v) list"

definition drop_key :: "'k \<Rightarrow> ('k \<times> 'v) list \<Rightarrow> ('k \<times> 'v) list" where
  "drop_key k xs = filter (\<lambda>p. fst p \<noteq> k) xs"

definition evict :: "('k \<times> 'v) list \<Rightarrow> ('k \<times> 'v) list" where
  "evict xs = (case xs of [] \<Rightarrow> [] | p # _ \<Rightarrow> drop_key (fst p) xs)"

definition list_lru :: "(('k, 'v) lru_list, 'k, 'v) lru_ops" where
  "list_lru = \<lparr>lru_New = (\<lambda>n. (n, [])),
     lru_Get = (\<lambda>(n, xs) k. (map_of xs k, case map_of xs k of None \<Rightarrow> (n, xs) | Some v \<Rightarrow> (n, drop_key k xs @ [(k, v)]))),
     lru_Peek = (\<lambda>(n, xs) k. map_of xs k),
     lru_Add = (\<lambda>(n, xs) k v. let ys = drop_key k xs in (n, (if length ys < n then ys else evict ys) @ [(k, v)])),
     lru_Remove = (\<lambda>(n, xs) k. (n, drop_key k xs)),
     lru_Keys = (\<lambda>(n, xs). remdups (map fst xs)), lru_Len = (\<lambda>(n, xs). length (remdups (map fst xs)))\<rparr>"

lemma map_of_drop_key: "map_of (drop_key k xs) = (map_of xs)(k := None)"
  by (induction xs) (auto simp: drop_key_def)

lemma map_of_snoc: "map_of (xs @ [(k, v)]) j = (case map_of xs j of Some w \<Rightarrow> Some w | None \<Rightarrow> if j = k then Some v else None)"
  by (auto simp: map_add_def split: option.splits)

lemma map_of_evict: "map_of (evict xs) j = Some w \<Longrightarrow> map_of xs j = Some w"
  by (cases xs) (auto simp: evict_def map_of_drop_key split: if_splits)

definition list_view :: "('k, 'v) lru_list \<Rightarrow> 'k \<rightharpoonup> 'v" where
  "list_view l = map_of (snd l)"

lemma list_lru_Add:
  fixes xs :: "('k \<times> 'v) list"
  assumes "zs = drop_key k xs \<or> zs = evict (drop_key k xs)"
  shows "map_of (zs @ [(k, v)]) k = Some v" and "map_of (zs @ [(k, v)]) \<subseteq>\<^sub>m (map_of xs)(k \<mapsto> v)"
proof -
  have z: "map_of zs j = Some w \<Longrightarrow> j \<noteq> k \<and> map_of xs j = Some w" for j w
    using assms map_of_evict [of "drop_key k xs" j w] by (auto simp: map_of_drop_key split: if_splits)
  have "map_of zs k = None" using z [of k] by (cases "map_of zs k") auto
  then show "map_of (zs @ [(k, v)]) k = Some v" by (simp add: map_of_snoc del: map_of_append)
  show "map_of (zs @ [(k, v)]) \<subseteq>\<^sub>m (map_of xs)(k \<mapsto> v)"
    unfolding map_le_def
  proof
    fix j
    assume "j \<in> dom (map_of (zs @ [(k, v)]))"
    then show "map_of (zs @ [(k, v)]) j = ((map_of xs)(k \<mapsto> v)) j"
      using z [of j] by (cases "map_of zs j") (simp_all add: map_of_snoc dom_def del: map_of_append split: if_splits)
  qed
qed

lemma list_lru_Get:
  assumes "map_of xs k = Some v"
  shows "map_of (drop_key k xs @ [(k, v)]) = map_of xs"
proof
  fix j
  show "map_of (drop_key k xs @ [(k, v)]) j = map_of xs j"
    using assms by (cases "map_of xs j") (auto simp: map_of_snoc map_of_drop_key simp del: map_of_append)
qed

lemma list_lru_ok: "lru_ok list_lru list_view"
  unfolding lru_ok_def
proof (intro conjI allI)
  fix n k v and l :: "('a, 'b) lru_list"
  obtain m xs where l: "l = (m, xs)" by fastforce
  show "list_view (lru_New list_lru n) = Map.empty" by (simp add: list_lru_def list_view_def)
  show "fst (lru_Get list_lru l k) = list_view l k" "lru_Peek list_lru l k = list_view l k"
    by (simp_all add: list_lru_def list_view_def l)
  show "list_view (snd (lru_Get list_lru l k)) = list_view l"
    by (cases "map_of xs k") (simp_all add: list_lru_def list_view_def l list_lru_Get del: map_of_append)
  show "list_view (lru_Add list_lru l k v) k = Some v" "list_view (lru_Add list_lru l k v) \<subseteq>\<^sub>m (list_view l)(k \<mapsto> v)"
    using list_lru_Add [of _ k xs v] by (simp_all add: list_lru_def list_view_def l Let_def del: map_of_append)
  show "list_view (lru_Remove list_lru l k) = (list_view l)(k := None)"
    by (simp add: list_lru_def list_view_def l map_of_drop_key)
  show "distinct (lru_Keys list_lru l)" "lru_Len list_lru l = length (lru_Keys list_lru l)"
    by (simp_all add: list_lru_def l)
  show "set (lru_Keys list_lru l) = dom (list_view l)"
    by (simp add: list_lru_def list_view_def l dom_map_of_conv_image_fst)
qed

end
