(* ===== verification/Pending.thy ===== *)
theory Pending
  imports Lru Loops Store_Spec
begin

text \<open>
  The blocks that wait for submission to the DA layer, \<^verbatim>\<open>src/block/internal/cache/pending_base.go\<close>,
  \<^verbatim>\<open>pending_headers.go\<close> and \<^verbatim>\<open>pending_data.go\<close>: the height of the last submitted item, kept in memory and in the
  metadata of the store, and an LRU cache of the items above it. The theory proves that the pending items are
  the blocks above the last submitted height, in order and without a gap, whatever the cache has evicted, and
  what the count of pending items is.
\<close>

section \<open>The generic part\<close>

definition DefaultPendingCacheSize :: nat where
  "DefaultPendingCacheSize = 200000"

definition LastSubmittedDataHeightKey :: string where
  "LastSubmittedDataHeightKey = ''last-submitted-data-height''"

record 'l pendingBase =
  metaKey :: string
  lastHeight :: u64
  pendingCache :: 'l

text \<open>\<^verbatim>\<open>init\<close>: the height that was persisted, unless it is 0.\<close>

definition pb_init :: "('db, 'pk) store_env \<Rightarrow> 'db \<Rightarrow> 'l pendingBase \<Rightarrow> goerr option \<times> 'l pendingBase" where
  "pb_init env db pb =
     (case GetMetadata env db (metaKey pb) of
        Inl e \<Rightarrow> if errors_is e ErrNotFound then (None, pb) else (Some e, pb)
      | Inr raw \<Rightarrow>
          if length raw \<noteq> 8 then (Some (Msg ''invalid length of last submitted height''), pb)
          else let lsh = get_le64 raw in
            if lsh = 0 then (None, pb)
            else (None, if lastHeight pb = 0 then pb\<lparr>lastHeight := lsh\<rparr> else pb))"

definition newPendingBase ::
  "('db, 'pk) store_env \<Rightarrow> ('l, u64, 't) lru_ops \<Rightarrow> 'db \<Rightarrow> string \<Rightarrow> 'l pendingBase result" where
  "newPendingBase env lru db key =
     (case pb_init env db \<lparr>metaKey = key, lastHeight = 0, pendingCache = lru_New lru DefaultPendingCacheSize\<rparr> of
        (Some e, _) \<Rightarrow> Inl e
      | (None, pb) \<Rightarrow> Inr pb)"

text \<open>The bodies of the two loops of \<^verbatim>\<open>getPending\<close>: the first fetches what is not cached, the second
  collects the items.\<close>

definition fill_body ::
  "('l, u64, 't) lru_ops \<Rightarrow> (u64 \<Rightarrow> 't result) \<Rightarrow> u64 \<Rightarrow> goerr option \<times> 'l \<Rightarrow> bool \<times> goerr option \<times> 'l" where
  "fill_body lru fetch h = (\<lambda>(_, l).
     (case lru_Peek lru l h of
        Some _ \<Rightarrow> (True, None, l)
      | None \<Rightarrow>
          (case fetch h of
             Inl e \<Rightarrow> (False, Some e, l)
           | Inr item \<Rightarrow> (True, None, lru_Add lru l h item))))"

definition collect_body ::
  "('l, u64, 't) lru_ops \<Rightarrow> (u64 \<Rightarrow> 't result) \<Rightarrow> u64 \<Rightarrow> (goerr option \<times> 't list) \<times> 'l \<Rightarrow>
     bool \<times> (goerr option \<times> 't list) \<times> 'l" where
  "collect_body lru fetch h = (\<lambda>((_, pending), l).
     (case lru_Get lru l h of
        (Some item, l') \<Rightarrow> (True, (None, pending @ [item]), l')
      | (None, l') \<Rightarrow>
          (case fetch h of
             Inl e \<Rightarrow> (False, (Some e, pending), l')
           | Inr item \<Rightarrow> (True, (None, pending @ [item]), lru_Add lru l' h item))))"

definition getPending ::
  "('db, 'pk) store_env \<Rightarrow> ('l, u64, 't) lru_ops \<Rightarrow> ('db \<Rightarrow> u64 \<Rightarrow> 't result) \<Rightarrow> 'db \<Rightarrow> 'l pendingBase \<Rightarrow>
     ((goerr option \<times> 't list) \<times> 'l pendingBase) option" where
  "getPending env lru fetch db pb =
     (let lastSubmitted = lastHeight pb in
      case Height env db of
        Inl e \<Rightarrow> Some ((Some e, []), pb)
      | Inr storeHeight \<Rightarrow>
          if lastSubmitted = storeHeight then Some ((None, []), pb)
          else if lastSubmitted > storeHeight
          then Some ((Some (Msg ''height of last submitted item is greater than height of last item''), []), pb)
          else let endHeight = (if storeHeight - lastSubmitted > of_nat DefaultPendingCacheSize
                                then lastSubmitted + of_nat DefaultPendingCacheSize else storeHeight) in
            (case for_u64 (fill_body lru (fetch db)) (lastSubmitted + 1) endHeight (None, pendingCache pb) of
               None \<Rightarrow> None
             | Some (_, Some e, l) \<Rightarrow> Some ((Some e, []), pb\<lparr>pendingCache := l\<rparr>)
             | Some (_, None, l) \<Rightarrow>
                 (case for_u64 (collect_body lru (fetch db)) (lastSubmitted + 1) endHeight ((None, []), l) of
                    None \<Rightarrow> None
                  | Some (_, res, l') \<Rightarrow> Some (res, pb\<lparr>pendingCache := l'\<rparr>))))"

definition numPending :: "('db, 'pk) store_env \<Rightarrow> 'db \<Rightarrow> 'l pendingBase \<Rightarrow> u64" where
  "numPending env db pb = (case Height env db of Inl e \<Rightarrow> 0 | Inr height \<Rightarrow> height - lastHeight pb)"

definition getLastSubmittedHeight :: "'l pendingBase \<Rightarrow> u64" where
  "getLastSubmittedHeight pb = lastHeight pb"

text \<open>A failed write of the metadata is only logged.\<close>

definition setLastSubmittedHeight ::
  "('db, 'pk) store_env \<Rightarrow> u64 \<Rightarrow> 'l pendingBase \<times> 'db \<Rightarrow> 'l pendingBase \<times> 'db" where
  "setLastSubmittedHeight env newLastSubmittedHeight = (\<lambda>(pb, db).
     if newLastSubmittedHeight > lastHeight pb
     then (pb\<lparr>lastHeight := newLastSubmittedHeight\<rparr>, snd (SetMetadata env db (metaKey pb) (put_le64 newLastSubmittedHeight)))
     else (pb, db))"

section \<open>Headers and data\<close>

definition fetchSignedHeader :: "('db, 'pk) store_env \<Rightarrow> 'db \<Rightarrow> u64 \<Rightarrow> 'pk SignedHeader result" where
  "fetchSignedHeader env db height =
     (case GetHeader env db height of
        Inl e \<Rightarrow> Inl e
      | Inr header \<Rightarrow> if Header_Height (shHeader header) = 0 then Inl (Sentinel ErrInFlightHeader) else Inr header)"

text \<open>\<^verbatim>\<open>data.Height()\<close> reads the metadata, which must be there.\<close>

definition fetchData :: "('db, 'pk) store_env \<Rightarrow> 'db \<Rightarrow> u64 \<Rightarrow> Data result" where
  "fetchData env db height =
     (case GetBlockData env db height of
        Inl e \<Rightarrow> Inl e
      | Inr (_, data) \<Rightarrow>
          (case dMetadata data of
             None \<Rightarrow> Inl nil_key_panic
           | Some m \<Rightarrow> if mHeight m = 0 then Inl (Sentinel ErrInFlightData) else Inr data))"

definition NewPendingHeaders ::
  "('db, 'pk) store_env \<Rightarrow> ('l, u64, 'pk SignedHeader) lru_ops \<Rightarrow> 'db \<Rightarrow> 'l pendingBase result" where
  "NewPendingHeaders env lru db = newPendingBase env lru db LastSubmittedHeaderHeightKey"

definition NewPendingData ::
  "('db, 'pk) store_env \<Rightarrow> ('l, u64, Data) lru_ops \<Rightarrow> 'db \<Rightarrow> 'l pendingBase result" where
  "NewPendingData env lru db = newPendingBase env lru db LastSubmittedDataHeightKey"

text \<open>Marshalling stops at the first item that cannot be marshalled.\<close>

fun marshal_all :: "string \<Rightarrow> ('t \<Rightarrow> bytes result) \<Rightarrow> 't list \<Rightarrow> bytes list result" where
  "marshal_all msg f [] = Inr []"
| "marshal_all msg f (x # xs) =
     (case f x of
        Inl e \<Rightarrow> Inl (Wrap msg e)
      | Inr b \<Rightarrow> (case marshal_all msg f xs of Inl e \<Rightarrow> Inl e | Inr bs \<Rightarrow> Inr (b # bs)))"

definition marshal_pending ::
  "string \<Rightarrow> ('t \<Rightarrow> bytes result) \<Rightarrow> ((goerr option \<times> 't list) \<times> 'l pendingBase) option \<Rightarrow>
     (('t list \<times> bytes list) result \<times> 'l pendingBase) option" where
  "marshal_pending msg f r =
     (case r of
        None \<Rightarrow> None
      | Some ((Some e, _), pb) \<Rightarrow> Some (Inl e, pb)
      | Some ((None, items), pb) \<Rightarrow>
          Some (case marshal_all msg f items of Inl e \<Rightarrow> Inl e | Inr bs \<Rightarrow> Inr (items, bs), pb))"

definition GetPendingHeaders ::
  "('db, 'pk) store_env \<Rightarrow> ('l, u64, 'pk SignedHeader) lru_ops \<Rightarrow> 'db \<Rightarrow> 'l pendingBase \<Rightarrow>
     (('pk SignedHeader list \<times> bytes list) result \<times> 'l pendingBase) option" where
  "GetPendingHeaders env lru db ph =
     marshal_pending ''failed to marshal header'' (\<lambda>h. fst (SignedHeader_MarshalBinary (tenv env) h))
       (getPending env lru (fetchSignedHeader env) db ph)"

definition GetPendingData ::
  "('db, 'pk) store_env \<Rightarrow> ('l, u64, Data) lru_ops \<Rightarrow> 'db \<Rightarrow> 'l pendingBase \<Rightarrow>
     ((Data list \<times> bytes list) result \<times> 'l pendingBase) option" where
  "GetPendingData env lru db pd =
     marshal_pending ''failed to marshal data'' (Data_MarshalBinary (tenv env)) (getPending env lru (fetchData env) db pd)"

definition NumPendingHeaders :: "('db, 'pk) store_env \<Rightarrow> 'db \<Rightarrow> 'l pendingBase \<Rightarrow> u64" where
  "NumPendingHeaders env db ph = numPending env db ph"

text \<open>Empty data is not published, so the last submitted height moves past it.\<close>

definition advance_body ::
  "('db, 'pk) store_env \<Rightarrow> u64 \<Rightarrow> 'l pendingBase \<times> 'db \<Rightarrow> bool \<times> 'l pendingBase \<times> 'db" where
  "advance_body env height = (\<lambda>(pd, db).
     (case fetchData env db height of
        Inl e \<Rightarrow> (False, pd, db)
      | Inr data \<Rightarrow> if length (Txs data) > 0 then (False, pd, db)
                   else (True, setLastSubmittedHeight env height (pd, db))))"

definition advancePastEmptyData ::
  "('db, 'pk) store_env \<Rightarrow> 'l pendingBase \<times> 'db \<Rightarrow> ('l pendingBase \<times> 'db) option" where
  "advancePastEmptyData env = (\<lambda>(pd, db).
     (case Height env db of
        Inl e \<Rightarrow> Some (pd, db)
      | Inr storeHeight \<Rightarrow> map_option snd (for_u64 (advance_body env) (lastHeight pd + 1) storeHeight (pd, db))))"

definition NumPendingData ::
  "('db, 'pk) store_env \<Rightarrow> 'l pendingBase \<times> 'db \<Rightarrow> (u64 \<times> 'l pendingBase \<times> 'db) option" where
  "NumPendingData env s =
     (case advancePastEmptyData env s of None \<Rightarrow> None | Some (pd, db) \<Rightarrow> Some (numPending env db pd, pd, db))"


section \<open>What is pending\<close>

text \<open>The cached items above the last submitted height are the ones the store has.\<close>

definition coherent :: "('l \<Rightarrow> u64 \<rightharpoonup> 't) \<Rightarrow> (u64 \<Rightarrow> 't result) \<Rightarrow> u64 \<Rightarrow> 'l \<Rightarrow> bool" where
  "coherent lv fetch lo l \<longleftrightarrow> (\<forall>h item. lo < h \<longrightarrow> lv l h = Some item \<longrightarrow> fetch h = Inr item)"

lemma coherent_Add:
  "lru_ok lru lv \<Longrightarrow> coherent lv fetch lo l \<Longrightarrow> fetch h = Inr item \<Longrightarrow> coherent lv fetch lo (lru_Add lru l h item)"
  unfolding coherent_def using lru_Add_Some [of lru lv l h item] by blast

lemma coherent_Get: "lru_ok lru lv \<Longrightarrow> coherent lv fetch lo l \<Longrightarrow> coherent lv fetch lo (snd (lru_Get lru l h))"
  by (simp add: coherent_def lru_okD(3))

lemma fill_body_eq:
  "lru_ok lru lv \<Longrightarrow> fill_body lru fetch h (q, l) =
     (case lv l h of Some _ \<Rightarrow> (True, None, l)
      | None \<Rightarrow> (case fetch h of Inl e \<Rightarrow> (False, Some e, l) | Inr item \<Rightarrow> (True, None, lru_Add lru l h item)))"
  by (simp add: fill_body_def lru_okD(4))

lemma fill_each:
  assumes lru: "lru_ok lru lv" and hs: "\<forall>h \<in> set hs. lo < h" and l: "coherent lv fetch lo l"
    and r: "each_until (fill_body lru fetch) hs (q, l) = (goon, e, l')"
  shows "coherent lv fetch lo l' \<and> (hs \<noteq> [] \<longrightarrow> (case e of None \<Rightarrow> goon | Some er \<Rightarrow> \<exists>h \<in> set hs. fetch h = Inl er))"
  using hs l r
proof (induction hs arbitrary: q l)
  case (Cons h hs)
  show ?case
  proof (cases "lv l h")
    case (Some item)
    then have "each_until (fill_body lru fetch) hs (None, l) = (goon, e, l')"
      using Cons.prems by (simp add: fill_body_eq [OF lru])
    then show ?thesis using Cons.IH [of l None] Cons.prems(1,2) by (cases hs) (auto split: option.splits)
  next
    case None
    show ?thesis
    proof (cases "fetch h")
      case (Inl er)
      then show ?thesis using None Cons.prems by (auto simp: fill_body_eq [OF lru])
    next
      case (Inr item)
      then have "each_until (fill_body lru fetch) hs (None, lru_Add lru l h item) = (goon, e, l')"
        using None Cons.prems by (simp add: fill_body_eq [OF lru])
      then show ?thesis
        using Cons.IH [of "lru_Add lru l h item" None] Cons.prems(1) coherent_Add [OF lru Cons.prems(2) Inr]
        by (cases hs) (auto split: option.splits)
    qed
  qed
qed simp

lemma collect_step:
  assumes lru: "lru_ok lru lv" and h: "lo < h" and l: "coherent lv fetch lo l"
  shows "\<exists>l1. coherent lv fetch lo l1 \<and> collect_body lru fetch h ((q, acc), l) =
    (case fetch h of Inl e \<Rightarrow> (False, (Some e, acc), l1) | Inr item \<Rightarrow> (True, (None, acc @ [item]), l1))"
proof -
  obtain o1 l1 where g: "lru_Get lru l h = (o1, l1)" by fastforce
  have o1: "o1 = lv l h" and l1: "coherent lv fetch lo l1"
    using lru_okD(2) [OF lru, of l h] coherent_Get [OF lru l, of h] g by simp_all
  show ?thesis
  proof (cases o1)
    case (Some item)
    then have "fetch h = Inr item" using l h o1 by (simp add: coherent_def)
    then show ?thesis using l1 g Some by (auto simp: collect_body_def)
  next
    case None
    then show ?thesis using l1 g coherent_Add [OF lru l1, of h]
      by (cases "fetch h") (auto simp: collect_body_def)
  qed
qed

lemma collect_each:
  assumes lru: "lru_ok lru lv" and hs: "\<forall>h \<in> set hs. lo < h" and l: "coherent lv fetch lo l"
    and r: "each_until (collect_body lru fetch) hs ((None, acc), l) = (goon, (e, items), l')"
  shows "coherent lv fetch lo l' \<and> (case e of None \<Rightarrow> goon \<and> map Inr items = map Inr acc @ map fetch hs
    | Some er \<Rightarrow> \<exists>h \<in> set hs. fetch h = Inl er)"
  using hs l r
proof (induction hs arbitrary: acc l)
  case (Cons h hs)
  obtain l1 where l1: "coherent lv fetch lo l1" "collect_body lru fetch h ((None, acc), l) =
    (case fetch h of Inl e \<Rightarrow> (False, (Some e, acc), l1) | Inr item \<Rightarrow> (True, (None, acc @ [item]), l1))"
    using collect_step [OF lru _ Cons.prems(2), of h None acc] Cons.prems(1) by auto
  then show ?case using Cons.IH [OF _ l1(1), of "acc @ [projr (fetch h)]"] Cons.prems(1,3)
    by (cases "fetch h") (auto split: option.splits)
qed simp

definition last_pending :: "u64 \<Rightarrow> u64 \<Rightarrow> u64" where
  "last_pending lastSubmitted storeHeight =
     (if storeHeight - lastSubmitted > of_nat DefaultPendingCacheSize
      then lastSubmitted + of_nat DefaultPendingCacheSize else storeHeight)"

lemma unat_pending_size [simp]: "unat (of_nat DefaultPendingCacheSize :: u64) = 200000"
  by (simp add: DefaultPendingCacheSize_def)

lemma last_pending_bounds:
  assumes "lo < H"
  shows "lo < last_pending lo H" and "last_pending lo H \<le> H"
    and "unat (last_pending lo H) = min (unat H) (unat lo + 200000)"
proof -
  have d: "unat (H - lo) = unat H - unat lo" using assms by (intro unat_u64_diff) simp
  have "unat (last_pending lo H) = min (unat H) (unat lo + 200000)"
  proof (cases "200000 < unat H - unat lo")
    case True
    then have "unat lo + 200000 < 18446744073709551616" using unat_u64_max [of H] by simp
    then have "unat (lo + of_nat DefaultPendingCacheSize) = unat lo + 200000" by (subst unat_u64_add) simp_all
    then show ?thesis using d True by (simp add: last_pending_def word_less_nat_alt)
  next
    case False
    then show ?thesis using d by (simp add: last_pending_def word_less_nat_alt)
  qed
  then show "unat (last_pending lo H) = min (unat H) (unat lo + 200000)"
    and "lo < last_pending lo H" "last_pending lo H \<le> H"
    using assms by (simp_all add: word_less_nat_alt word_le_nat_alt)
qed


lemma getPending_result:
  assumes lru: "lru_ok lru lv" and H: "Height env db = Inr H" and lt: "lastHeight pb < H" and top: "H < - 1"
    and co: "coherent lv (fetch db) (lastHeight pb) (pendingCache pb)"
  shows "\<exists>e items l. getPending env lru fetch db pb = Some ((e, items), pb\<lparr>pendingCache := l\<rparr>) \<and>
    coherent lv (fetch db) (lastHeight pb) l \<and>
    (case e of
       None \<Rightarrow> map Inr items = map (fetch db) (u64_upto (lastHeight pb + 1) (last_pending (lastHeight pb) H))
     | Some er \<Rightarrow> \<exists>h \<in> {lastHeight pb + 1..last_pending (lastHeight pb) H}. fetch db h = Inl er)"
proof -
  define lo E where "lo = lastHeight pb" and "E = last_pending (lastHeight pb) H"
  define hs where "hs = u64_upto (lo + 1) E"
  have E: "lo < E" "E < - 1" using last_pending_bounds(1,2) [OF lt] top by (auto simp: lo_def E_def)
  have s: "unat (lo + 1) = unat lo + 1" using E(1) by (rule unat_u64_Suc)
  have le: "lo + 1 \<le> E" using s E(1) by (simp add: word_le_nat_alt word_less_nat_alt)
  have hs: "\<forall>h \<in> set hs. lo < h" "set hs = {lo + 1..E}" "hs \<noteq> []"
  proof -
    show "\<forall>h \<in> set hs. lo < h" "set hs = {lo + 1..E}"
      using s by (auto simp: hs_def set_u64_upto word_le_nat_alt word_less_nat_alt)
    show "hs \<noteq> []" by (simp add: hs_def u64_upto_Cons [OF le E(2)])
  qed
  obtain g1 e1 l1 where f: "each_until (fill_body lru (fetch db)) hs (None, pendingCache pb) = (g1, e1, l1)" by (metis prod_cases3)
  have fill: "coherent lv (fetch db) lo l1" "case e1 of None \<Rightarrow> g1 | Some er \<Rightarrow> \<exists>h \<in> set hs. fetch db h = Inl er"
    using fill_each [OF lru hs(1) co [folded lo_def] f] hs(3) by blast+
  have for1: "for_u64 (fill_body lru (fetch db)) (lo + 1) E (None, pendingCache pb) = Some (g1, e1, l1)"
    unfolding for_u64_eq [OF E(2)] using f by (simp add: hs_def)
  have not: "lastHeight pb \<noteq> H" "\<not> H < lastHeight pb" using lt by auto
  show ?thesis
  proof (cases e1)
    case (Some er)
    then have "getPending env lru fetch db pb = Some ((Some er, []), pb\<lparr>pendingCache := l1\<rparr>)"
      using for1 H not by (simp add: getPending_def Let_def lo_def E_def last_pending_def)
    then show ?thesis using fill Some hs(2) unfolding lo_def E_def by auto
  next
    case None
    obtain g2 e2 items l2 where c: "each_until (collect_body lru (fetch db)) hs ((None, []), l1) = (g2, (e2, items), l2)"
      by (metis prod.collapse)
    have col: "coherent lv (fetch db) lo l2" "case e2 of None \<Rightarrow> g2 \<and> map Inr items = map (fetch db) hs
        | Some er \<Rightarrow> \<exists>h \<in> set hs. fetch db h = Inl er"
      using collect_each [OF lru hs(1) fill(1) c, unfolded list.map(1) append_Nil] by blast+
    have "for_u64 (collect_body lru (fetch db)) (lo + 1) E ((None, []), l1) = Some (g2, (e2, items), l2)"
      unfolding for_u64_eq [OF E(2)] using c by (simp add: hs_def)
    then have "getPending env lru fetch db pb = Some ((e2, items), pb\<lparr>pendingCache := l2\<rparr>)"
      using for1 H not None by (simp add: getPending_def Let_def lo_def E_def last_pending_def)
    then show ?thesis using col hs(2) unfolding lo_def E_def hs_def by (cases e2) auto
  qed
qed


section \<open>What counting changes\<close>

lemma SetMetadata_entries:
  assumes "store_ok env vw" and "plain_key k" and "SetMetadata env db k v = (r, db')"
  shows "entry_wf e \<Longrightarrow> entry_of env vw db' e =
    (if r = None \<and> e = EMeta k then Some v else entry_of env vw db e)"
proof -
  have k: "ds_new_key (sds env) (GetMetaKey k) = entry_key env (EMeta k)"
    using new_entry_key [OF store_okD(1,2) [OF assms(1)], of "EMeta k"] assms(2) by (simp add: entry_keys(7) [where env = env])
  assume e: "entry_wf e"
  obtain q db1 where p: "ds_put (sds env) db (entry_key env (EMeta k)) v = (q, db1)" by fastforce
  have r: "(r = None \<longleftrightarrow> q = None) \<and> db' = db1"
    using assms(3) p by (auto simp: SetMetadata_def k split: option.splits)
  show ?thesis
  proof (cases q)
    case None
    then have "vw db' = (vw db)(entry_key env (EMeta k) \<mapsto> v)"
      using datastore_putD(1) [OF store_okD(1) [OF assms(1)]] p r by simp
    then show ?thesis using r None e assms(2) entry_key_inject [OF store_okD(2) [OF assms(1)], of e "EMeta k"]
      by (simp add: entry_of_def)
  next
    case (Some er)
    then have "vw db' = vw db" using datastore_putD(2) [OF store_okD(1) [OF assms(1)]] p r by simp
    moreover have "r \<noteq> None" using r Some by simp
    ultimately show ?thesis by (auto simp: entry_of_def)
  qed
qed

text \<open>Two databases that agree but for one metadata entry.\<close>

definition same_but :: "('db, 'pk) store_env \<Rightarrow> ('db \<Rightarrow> view) \<Rightarrow> string \<Rightarrow> 'db \<Rightarrow> 'db \<Rightarrow> bool" where
  "same_but env vw k db db' \<longleftrightarrow> (\<forall>e. entry_wf e \<and> e \<noteq> EMeta k \<longrightarrow> entry_of env vw db' e = entry_of env vw db e)"

lemma same_but_reads:
  assumes "store_ok env vw" and "same_but env vw k db db'"
  shows "Height env db' = Height env db" and "GetBlockData env db' h = Inr b \<longleftrightarrow> GetBlockData env db h = Inr b"
    and "GetStateAtHeight env db' h = Inr s \<longleftrightarrow> GetStateAtHeight env db h = Inr s"
  using assms(2) same_height_reads(1) [OF assms(1), of db db' h b]
  by (simp_all add: same_but_def Height_iff [OF assms(1)] GetStateAtHeight_iff [OF assms(1)] same_height_def)

lemma setLastSubmitted_same:
  assumes "store_ok env vw" and "plain_key (metaKey pb)" and "setLastSubmittedHeight env h (pb, db) = (pb', db')"
  shows "same_but env vw (metaKey pb) db db' \<and> metaKey pb' = metaKey pb \<and> pendingCache pb' = pendingCache pb \<and>
    lastHeight pb' = max (lastHeight pb) h"
proof (cases "lastHeight pb < h")
  case True
  obtain r db1 where s: "SetMetadata env db (metaKey pb) (put_le64 h) = (r, db1)" by fastforce
  then show ?thesis
    using SetMetadata_entries [OF assms(1,2) s] True assms(3)
    by (auto simp: setLastSubmittedHeight_def same_but_def max_def)
next
  case False
  then show ?thesis using assms(3) by (auto simp: setLastSubmittedHeight_def same_but_def max_def)
qed

lemma advance_each:
  assumes ok: "store_ok env vw" and k: "plain_key (metaKey pd)"
    and r: "each_until (advance_body env) hs (pd, db) = (goon, pd', db')"
  shows "same_but env vw (metaKey pd) db db' \<and> metaKey pd' = metaKey pd"
proof -
  let ?P = "\<lambda>(p, d). same_but env vw (metaKey pd) db d \<and> metaKey p = metaKey pd"
  have "?P s'" if "?P s" and b: "advance_body env h s = (g, s')" for h s g s'
  proof -
    obtain p d where s: "s = (p, d)" by fastforce
    obtain p1 d1 where t: "setLastSubmittedHeight env h (p, d) = (p1, d1)" by fastforce
    have "?P (p, d)" using that(1) s by simp
    then have "?P (p1, d1)" using setLastSubmitted_same [OF ok _ t] k by (auto simp: same_but_def)
    then show ?thesis using b \<open>?P (p, d)\<close> t by (auto simp: advance_body_def s split: sum.splits if_splits)
  qed
  moreover have "?P (pd, db)" by (simp add: same_but_def)
  ultimately have "?P (pd', db')" using each_until_inv [of hs ?P "advance_body env", OF _ _ r] by blast
  then show ?thesis by simp
qed

lemma NumPendingData_same:
  assumes ok: "store_ok env vw" and k: "plain_key (metaKey pd)" and r: "NumPendingData env (pd, db) = Some (n, pd', db')"
    and H: "Height env db = Inr H" "H < - 1"
  shows "same_but env vw (metaKey pd) db db' \<and> metaKey pd' = metaKey pd"
proof -
  obtain goon p d where e: "each_until (advance_body env) (u64_upto (lastHeight pd + 1) H) (pd, db) = (goon, p, d)"
    by (metis prod_cases3)
  then have "each_until (advance_body env) (u64_upto (lastHeight pd + 1) H) (pd, db) = (goon, pd', db')"
    using r H(1) by (simp add: NumPendingData_def advancePastEmptyData_def for_u64_eq [OF H(2)])
  then show ?thesis by (rule advance_each [OF ok k])
qed


section \<open>Properties\<close>

text \<open>
  C15: What waits for the DA layer is exact. With a cache that agrees with the store, \<^verbatim>\<open>getPending\<close> returns
  whatever the cache evicts meanwhile. Where every block above the last submitted height can be read, up to
  200000 of them, it gives exactly these blocks, each once and in the order of their heights; otherwise it may
  give the error of one of the reads. The last submitted height is not moved and the cache still agrees.
\<close>

theorem pending_exact:
  assumes "lru_ok lru lv" and "Height env db = Inr H" and "lastHeight pb < H" and "H < - 1"
    and "coherent lv (fetch db) (lastHeight pb) (pendingCache pb)"
    and "E = last_pending (lastHeight pb) H"
  shows "unat E = min (unat H) (unat (lastHeight pb) + 200000) \<and>
    (\<exists>e items pb'. getPending env lru fetch db pb = Some ((e, items), pb') \<and> lastHeight pb' = lastHeight pb \<and>
      coherent lv (fetch db) (lastHeight pb') (pendingCache pb') \<and>
      (e = None \<longrightarrow> map Inr items = map (fetch db) (u64_upto (lastHeight pb + 1) E)) \<and>
      ((\<forall>h \<in> {lastHeight pb + 1..E}. is_ok (fetch db h)) \<longrightarrow> e = None) \<and>
      (\<forall>er. e = Some er \<longrightarrow> (\<exists>h \<in> {lastHeight pb + 1..E}. fetch db h = Inl er)))"
proof -
  obtain e items l where r: "getPending env lru fetch db pb = Some ((e, items), pb\<lparr>pendingCache := l\<rparr>)"
    "coherent lv (fetch db) (lastHeight pb) l"
    and c: "case e of
       None \<Rightarrow> map Inr items = map (fetch db) (u64_upto (lastHeight pb + 1) E)
     | Some er \<Rightarrow> \<exists>h \<in> {lastHeight pb + 1..E}. fetch db h = Inl er"
    using getPending_result [where fetch = fetch, OF assms(1-5)] unfolding assms(6) by blast
  then show ?thesis
    using last_pending_bounds(3) [OF assms(3)] by (cases e) (fastforce simp: assms(6))+
qed

text \<open>
  C36: The count of pending items wraps around. It is the number of heights above the last submitted one
  where there are any, but where the store is below the last submitted height, as after a rollback that keeps
  the submission metadata, it is the difference modulo 2^64, and the items cannot be listed at all.
\<close>

theorem num_pending_wraps:
  assumes "Height env db = Inr H"
  shows "(lastHeight pb \<le> H \<longrightarrow> unat (numPending env db pb) = unat H - unat (lastHeight pb)) \<and>
    (H < lastHeight pb \<longrightarrow> unat (numPending env db pb) = 2 ^ 64 - (unat (lastHeight pb) - unat H) \<and>
       (\<exists>e. getPending env lru fetch db pb = Some ((Some e, []), pb)))"
proof (intro conjI impI)
  assume "lastHeight pb \<le> H"
  then show "unat (numPending env db pb) = unat H - unat (lastHeight pb)"
    using assms by (simp add: numPending_def unat_u64_diff)
next
  assume lt: "H < lastHeight pb"
  have "unat (H - lastHeight pb) = unat H + 2 ^ 64 - unat (lastHeight pb)"
    using lt by (simp add: unat_sub_if' word_less_nat_alt)
  then show "unat (numPending env db pb) = 2 ^ 64 - (unat (lastHeight pb) - unat H)"
    using assms lt unat_u64_max [of "lastHeight pb"] by (simp add: numPending_def word_less_nat_alt)
  show "\<exists>e. getPending env lru fetch db pb = Some ((Some e, []), pb)"
    using assms lt by (auto simp: getPending_def Let_def)
qed

text \<open>
  C37: A chain that starts above height 1 submits nothing. The submission starts from height 0 whatever the
  initial height is, so where there is no block at height 1 the pending headers cannot be listed, and their
  count includes the heights below the initial one.
\<close>

theorem late_genesis_not_submitted:
  assumes ok: "store_ok env vw" and lru: "lru_ok lru lv"
    and meta: "entry_of env vw db (EMeta LastSubmittedHeaderHeightKey) = None"
    and H: "Height env db = Inr H" "0 < H" "H < - 1" and h1: "entry_of env vw db (EHeader 1) = None"
  shows "\<exists>ph e ph'. NewPendingHeaders env lru db = Inr ph \<and> NumPendingHeaders env db ph = H \<and>
    GetPendingHeaders env lru db ph = Some (Inl e, ph') \<and> errors_is e ErrNotFound"
proof -
  define ph where "ph = \<lparr>metaKey = LastSubmittedHeaderHeightKey, lastHeight = 0,
      pendingCache = lru_New lru DefaultPendingCacheSize\<rparr>"
  have "\<exists>x. GetMetadata env db LastSubmittedHeaderHeightKey = Inl x \<and> errors_is x ErrNotFound"
    using kget_store_None [OF ok _ meta] by (auto simp: GetMetadata_def entry_keys(7) [where env = env])
  then have new: "NewPendingHeaders env lru db = Inr ph"
    by (auto simp: NewPendingHeaders_def newPendingBase_def pb_init_def ph_def)
  obtain x where x: "fetchSignedHeader env db 1 = Inl x" "errors_is x ErrNotFound"
    using kget_store_None [OF ok _ h1] by (auto simp: fetchSignedHeader_def GetHeader_def entry_keys(1) [where env = env])
  have "1 \<le> last_pending 0 H"
    using last_pending_bounds(1) [OF H(2)] unat_u64_Suc [of 0 "last_pending 0 H"]
    by (simp add: word_le_nat_alt word_less_nat_alt)
  then have "for_u64 (fill_body lru (fetchSignedHeader env db)) 1 (last_pending 0 H) (None, pendingCache ph) =
      Some (False, Some x, pendingCache ph)"
    by (subst for_u64.simps) (simp add: fill_body_eq [OF lru] x(1) ph_def lru_okD(1) [OF lru])
  then have "getPending env lru (fetchSignedHeader env) db ph = Some ((Some x, []), ph)"
    using H by (auto simp: getPending_def Let_def last_pending_def ph_def)
  then have "GetPendingHeaders env lru db ph = Some (Inl x, ph)"
    by (simp add: GetPendingHeaders_def marshal_pending_def)
  moreover have "NumPendingHeaders env db ph = H" using H(1) by (simp add: NumPendingHeaders_def numPending_def ph_def)
  ultimately show ?thesis using new x(2) by blast
qed


subsection \<open>Witnesses\<close>

text \<open>The demonstration block at height 3, of which the blocks up to 2 are submitted.\<close>

definition two_submitted :: "((u64, bytes SignedHeader) lru_list) pendingBase" where
  "two_submitted = \<lparr>metaKey = LastSubmittedHeaderHeightKey, lastHeight = 2, pendingCache = (200000, [])\<rparr>"

lemma u64_three [simp]: "(2 :: u64) < 3" "(3 :: u64) < - 1" "\<not> (4 :: u64) \<le> 3" "(0 :: u64) < 5" "(5 :: u64) < - 1" "(2 :: u64) < 5"
  by (simp_all add: word_less_nat_alt word_le_nat_alt unsigned_minus_1_eq_mask mask_eq_exp_minus_1)

theorem pending_exact_witness:
  "\<exists>db pb'. Height demo_store db = Inr 3 \<and>
     getPending demo_store list_lru (fetchSignedHeader demo_store) db two_submitted = Some ((None, [demo_signed_header]), pb')"
proof -
  obtain db where c: "commits demo_store demo_db demo_signed_header demo_data [5] next_state db"
    using demo_commits by blast
  have send: "sendable demo_env demo_signed_header"
    by (simp add: sendable_def demo_signed_header_def signer_ok_def demo_env_def)
  have t: "state_time_ok next_state" by (simp add: state_time_ok_def next_state_def demo_state_def)
  have p: "demo_signed_header\<lparr>aggregatorSignatureProvider := None, syncNodeSignatureBytesProvider := None\<rparr> = demo_signed_header"
    by (simp add: demo_signed_header_def)
  have l: "LastBlockHeight next_state = Header_Height (shHeader demo_signed_header)" by simp
  note w = commits_reads [OF demo_store_ok(1) _ _ _ t l c demo_header_height(1) [symmetric],
      unfolded demo_store_sel p, OF demo_env_ok send]
  have H: "Height demo_store db = Inr 3" using w demo_db_height by (auto simp: max_def)
  have g: "GetHeader demo_store db 3 = Inr demo_signed_header"
    using w by (simp add: GetBlockData_iff [OF demo_store_ok(1)])
  then have f: "fetchSignedHeader demo_store db 3 = Inr demo_signed_header" by (simp add: fetchSignedHeader_def)
  have E: "3 = last_pending (lastHeight two_submitted) 3"
    using last_pending_bounds(3) [of 2 3] by (simp add: word_unat_eq_iff two_submitted_def)
  have u: "u64_upto 3 3 = [3]" by (simp add: u64_upto_def)
  have i: "{3..3} = {3 :: u64}" by simp
  show ?thesis
    using pending_exact [where fetch = "fetchSignedHeader demo_store", OF list_lru_ok H _ _ _ E] H f
    by (auto simp: two_submitted_def coherent_def list_view_def u i is_ok_def)
qed

theorem num_pending_wraps_witness:
  "numPending demo_store demo_db (two_submitted\<lparr>lastHeight := 5\<rparr>) = - 3 \<and>
   (\<exists>e. getPending demo_store list_lru (fetchSignedHeader demo_store) demo_db (two_submitted\<lparr>lastHeight := 5\<rparr>) =
      Some ((Some e, []), two_submitted\<lparr>lastHeight := 5\<rparr>))"
proof -
  have "unat (numPending demo_store demo_db (two_submitted\<lparr>lastHeight := 5\<rparr>)) = 2 ^ 64 - 3 \<and>
      (\<exists>e. getPending demo_store list_lru (fetchSignedHeader demo_store) demo_db (two_submitted\<lparr>lastHeight := 5\<rparr>) =
        Some ((Some e, []), two_submitted\<lparr>lastHeight := 5\<rparr>))"
    using num_pending_wraps [OF demo_db_height, of "two_submitted\<lparr>lastHeight := 5\<rparr>" list_lru "fetchSignedHeader demo_store"]
    by simp
  moreover have "unat (- 3 :: u64) = 2 ^ 64 - 3" by (simp add: unat_word_ariths)
  ultimately show ?thesis by (simp add: word_unat_eq_iff)
qed

text \<open>A store at height 5 with no block at height 1.\<close>

definition late_db :: mem_db where
  "late_db = [DsPut (entry_key demo_store EHeight) (put_le64 5)]"

lemma late_entry: "entry_wf e \<Longrightarrow> entry_of demo_store mem_view late_db e = (if e = EHeight then Some (put_le64 5) else None)"
  using entry_key_inject [OF store_okD(2) [OF demo_store_ok(1)]] by (simp add: entry_of_def late_db_def mem_view_def)

theorem late_genesis_not_submitted_witness:
  "\<exists>ph e ph'. NewPendingHeaders demo_store list_lru late_db = Inr ph \<and> NumPendingHeaders demo_store late_db ph = 5 \<and>
     GetPendingHeaders demo_store list_lru late_db ph = Some (Inl e, ph')"
proof -
  have H: "Height demo_store late_db = Inr 5"
    by (simp add: Height_iff [OF demo_store_ok(1)] late_entry decodeHeight_def heightLength_def)
  show ?thesis
    using late_genesis_not_submitted [OF demo_store_ok(1) list_lru_ok _ H] by (auto simp: late_entry)
qed

end
