(* ===== verification/Executor_Spec.thy ===== *)
theory Executor_Spec
  imports Executor Pending
begin

text \<open>
  What the block producer of \<^verbatim>\<open>src/block/internal/executing\<close> does to the chain in the store. Its specification
  is a chain that is only ever extended, by one block that fits the last state: \<open>fits\<close> and \<open>follows\<close> say
  what that means, \<open>exec_inv\<close> is the invariant of the producer. The theory shows that every call of
  \<^verbatim>\<open>ProduceBlock\<close>, whatever the sequencer, the execution layer and raft answer and wherever it fails, keeps
  the invariant and extends the chain by at most one block, and that a restart keeps it, too.
\<close>

section \<open>Signed headers in the store\<close>

text \<open>A signer whose cached key, if there is one, is that of its public key.\<close>

definition signer_wf :: "'pk types_env \<Rightarrow> 'pk Signer \<Rightarrow> bool" where
  "signer_wf env s = (case PubKey s of None \<Rightarrow> True
     | Some pk \<Rightarrow> marshalledPubKey s = [] \<or> pk_marshal env pk = Inr (marshalledPubKey s))"

definition same_signer :: "'pk Signer \<Rightarrow> 'pk Signer \<Rightarrow> bool" where
  "same_signer s s' \<longleftrightarrow> PubKey s' = PubKey s \<and> (PubKey s \<noteq> None \<longrightarrow> Address s' = Address s)"

lemma signer_proto_wf:
  assumes "keys_roundtrip env" and "signer_wf env s" and "signer_proto env s = (Inr p, s')"
  shows "signer_wf env s' \<and> same_signer s s' \<and>
    (\<exists>t. signer_of_proto env (Some p) = Inr t \<and> signer_wf env t \<and> same_signer s t)"
proof (cases "PubKey s")
  case None
  then show ?thesis using assms(3)
    by (auto simp: signer_proto_def signer_of_proto_def signer_wf_def same_signer_def emptySigner_def)
next
  case (Some pk)
  define bz where "bz = pb_pub_key p"
  have m: "pk_marshal env pk = Inr bz" "p = \<lparr>pb_address = Address s, pb_pub_key = bz\<rparr>"
    "s' = s\<lparr>marshalledPubKey := bz\<rparr>"
    using assms(2,3) Some
    by (auto simp: signer_proto_def MarshalledPubKey_def signer_wf_def bz_def split: if_splits sum.splits)
  then have "bz \<noteq> []" "pk_unmarshal env bz = Inr pk" using assms(1) by (auto simp: keys_roundtrip_def)
  then show ?thesis using m Some
    by (simp add: signer_of_proto_def signer_wf_def same_signer_def)
qed

lemma SignedHeader_kept:
  assumes "codecs_ok env" and "keys_roundtrip env" and "signer_wf env (shSigner sh)"
    and h: "legacy_small (Legacy (shHeader sh))" "norm_header (shHeader sh) = shHeader sh"
    and m: "SignedHeader_MarshalBinary env sh = (Inr b, sh1)"
  shows "(\<exists>s1. sh1 = sh\<lparr>shSigner := s1\<rparr> \<and> signer_wf env s1 \<and> same_signer (shSigner sh) s1) \<and>
    (\<exists>t. SignedHeader_UnmarshalBinary env old b =
       Inr (old\<lparr>shHeader := shHeader sh, shSignature := shSignature sh, shSigner := t\<rparr>) \<and>
       signer_wf env t \<and> same_signer (shSigner sh) t)"
proof -
  obtain q s1 where q: "signer_proto env (shSigner sh) = (q, s1)" by fastforce
  obtain sg where sg: "q = Inr sg" using m q
    by (cases q) (auto simp: SignedHeader_MarshalBinary_def SignedHeader_ToProto_def)
  let ?p = "\<lparr>pbs_header = Some (Header_ToProto env (shHeader sh)), pbs_signature = shSignature sh, pbs_signer = Some sg\<rparr>"
  have e: "enc (c_signed_header (cds env)) ?p = Inr b" "sh1 = sh\<lparr>shSigner := s1\<rparr>"
    using m by (simp_all add: SignedHeader_MarshalBinary_def SignedHeader_ToProto_def q sg)
  have "dec (c_signed_header (cds env)) b = Inr ?p"
    by (intro codec_okD [OF codecs_okD(3) [OF assms(1)] _ e(1)]) simp
  moreover have "Header_FromProto env (Some (Header_ToProto env (shHeader sh))) = Inr (shHeader sh)"
    using Header_FromProto_ToProto [OF codecs_okD(1) [OF assms(1)] h(1)] h(2) by simp
  ultimately show ?thesis
    using signer_proto_wf [OF assms(2,3) q [unfolded sg]] e(2)
    by (auto simp: SignedHeader_UnmarshalBinary_def SignedHeader_FromProto_def)
qed

section \<open>The specification\<close>

definition data_hash_of :: "'pk types_env \<Rightarrow> Data \<Rightarrow> bytes" where
  "data_hash_of env d = (if Txs d = [] then DataHashForEmptyTxs else DACommitment env d)"

text \<open>A block that may come next after a state.\<close>

definition fits ::
  "('db, 'pk, 'x, 's, 'c, 'r) exec_env \<Rightarrow> State \<Rightarrow> 'pk SignedHeader \<Rightarrow> Data \<Rightarrow> bool" where
  "fits env st sh d \<longleftrightarrow>
     (let h = shHeader sh; g = xgenesis env; te = tenv (xstore env) in
      Header_Height h = LastBlockHeight st + 1 \<and> Header_ChainID h = gChainID g \<and>
      LastHeaderHash h = sLastHeaderHash st \<and> AppHash h = sAppHash st \<and> DataHash h = data_hash_of te d \<and>
      ProposerAddress h = proposer g \<and>
      (\<exists>l. dMetadata d = Some \<lparr>mChainID = gChainID g, mHeight = Header_Height h, mTime = bhTime (base h), LastDataHash = l\<rparr>) \<and>
      legacy_small (Legacy h) \<and> norm_header h = h \<and>
      signer_wf te (shSigner sh) \<and> (\<exists>v. signer_info env = Inr (PubKey (shSigner sh), v)) \<and>
      (PubKey (shSigner sh) \<noteq> None \<longrightarrow> Address (shSigner sh) = proposer g))"

text \<open>A block that does come next, with the state it leads to: its root is one the execution layer returned
  for the transactions of the block on the root before.\<close>

definition follows ::
  "('db, 'pk, 'x, 's, 'c, 'r) exec_env \<Rightarrow> State \<Rightarrow> 'pk SignedHeader \<Rightarrow> Data \<Rightarrow> State \<Rightarrow> bool" where
  "follows env st sh d st' \<longleftrightarrow>
     (let h = shHeader sh in
      fits env st sh d \<and> signHeader env h = Inr (shSignature sh) \<and>
      sChainID st = gChainID (xgenesis env) \<and> sChainID st' = gChainID (xgenesis env) \<and>
      LastBlockHeight st' = Header_Height h \<and> LastBlockTime st' = Header_Time h \<and>
      sLastHeaderHash st' = Header_Hash (tenv (xstore env)) h \<and>
      (sLastHeaderHash st \<noteq> [] \<longrightarrow> LastBlockTime st \<le> Header_Time h) \<and>
      (\<exists>x x'. x_ExecuteTxs (xexec env) x (Txs d) (Header_Height h) (Header_Time h) (sAppHash st) = (Inr (sAppHash st'), x')))"

text \<open>What of a state the chain depends on.\<close>

definition tip :: "State \<Rightarrow> string \<times> u64 \<times> gotime \<times> bytes \<times> bytes" where
  "tip s = (sChainID s, LastBlockHeight s, LastBlockTime s, sLastHeaderHash s, sAppHash s)"

lemma follows_tip: "tip st = tip s \<Longrightarrow> tip st' = tip s' \<Longrightarrow> follows env st sh d st' = follows env s sh d s'"
  by (simp add: tip_def follows_def fits_def Let_def)

lemma fits_tip: "tip st = tip s \<Longrightarrow> fits env st sh d = fits env s sh d"
  by (simp add: tip_def fits_def Let_def)

text \<open>The chain in the store up to a state: from the initial height on every block follows the state before
  it, and there is no block below or above.\<close>

definition linked :: "('db, 'pk, 'x, 's, 'c, 'r) exec_env \<Rightarrow> 'db \<Rightarrow> u64 \<Rightarrow> bool" where
  "linked env db h \<longleftrightarrow> (\<exists>prev sh d st'. GetStateAtHeight (xstore env) db (h - 1) = Inr prev \<and>
     GetBlockData (xstore env) db h = Inr (sh, d) \<and> GetStateAtHeight (xstore env) db h = Inr st' \<and>
     Header_Height (shHeader sh) = h \<and> follows env prev sh d st')"

definition chain_ok :: "('db, 'pk, 'x, 's, 'c, 'r) exec_env \<Rightarrow> ('db \<Rightarrow> view) \<Rightarrow> 'db \<Rightarrow> State \<Rightarrow> bool" where
  "chain_ok env vw db st \<longleftrightarrow>
     Height (xstore env) db = Inr (LastBlockHeight st) \<and>
     (\<exists>s. GetStateAtHeight (xstore env) db (LastBlockHeight st) = Inr s \<and> tip s = tip st) \<and>
     (\<forall>h. gInitialHeight (xgenesis env) \<le> h \<and> h \<le> LastBlockHeight st \<longrightarrow> linked env db h) \<and>
     (\<forall>h. h < gInitialHeight (xgenesis env) \<or> LastBlockHeight st < h \<longrightarrow> entry_of (xstore env) vw db (EHeader h) = None)"

text \<open>A pending block is not above the next height, and fits if it is for that height.\<close>

definition pending_fits :: "('db, 'pk, 'x, 's, 'c, 'r) exec_env \<Rightarrow> 'db \<Rightarrow> State \<Rightarrow> bool" where
  "pending_fits env db st \<longleftrightarrow> (\<forall>sh d. getPendingBlock (xstore env) db = Inr (Some (sh, d)) \<longrightarrow>
     unat (Header_Height (shHeader sh)) \<le> unat (LastBlockHeight st) + 1 \<and>
     (unat (Header_Height (shHeader sh)) = unat (LastBlockHeight st) + 1 \<longrightarrow> fits env st sh d))"

definition state_ok :: "('db, 'pk, 'x, 's, 'c, 'r) exec_env \<Rightarrow> State \<Rightarrow> bool" where
  "state_ok env st \<longleftrightarrow> sChainID st = gChainID (xgenesis env) \<and> state_time_ok st \<and>
     unat (gInitialHeight (xgenesis env)) \<le> unat (LastBlockHeight st) + 1 \<and>
     (unat (LastBlockHeight st) + 1 = unat (gInitialHeight (xgenesis env)) \<longrightarrow> sLastHeaderHash st = [])"

definition exec_inv ::
  "('db, 'pk, 'x, 's, 'c, 'r) exec_env \<Rightarrow> ('db \<Rightarrow> view) \<Rightarrow> ('c \<Rightarrow> bool) \<Rightarrow> State \<Rightarrow> ('db, 'pk, 'x, 's, 'c, 'r) Executor \<Rightarrow> bool" where
  "exec_inv env vw cok st e \<longleftrightarrow>
     lastState e = Some st \<and> state_ok env st \<and> chain_ok env vw (edb e) st \<and> pending_fits env (edb e) st \<and>
     (gInitialHeight (xgenesis env) \<le> LastBlockHeight st \<longrightarrow>
        (\<forall>i. lastInfo e = Some i \<longrightarrow> lbHeaderHash i = sLastHeaderHash st)) \<and> cok (ecache e)"


section \<open>Writes of metadata\<close>

text \<open>Two databases that agree on all but metadata.\<close>

definition same_chain :: "('db, 'pk) store_env \<Rightarrow> ('db \<Rightarrow> view) \<Rightarrow> 'db \<Rightarrow> 'db \<Rightarrow> bool" where
  "same_chain env vw db db' \<longleftrightarrow> (\<forall>e. entry_wf e \<and> (\<forall>k. e \<noteq> EMeta k) \<longrightarrow> entry_of env vw db' e = entry_of env vw db e)"

lemma same_chain_refl [simp]: "same_chain env vw db db"
  by (simp add: same_chain_def)

lemma same_chain_trans: "same_chain env vw a b \<Longrightarrow> same_chain env vw b c \<Longrightarrow> same_chain env vw a c"
  by (simp add: same_chain_def)

lemma same_chain_view: "vw db' = vw db \<Longrightarrow> same_chain env vw db db'"
  by (simp add: same_chain_def entry_of_def)

lemma same_but_chain: "same_but env vw k db db' \<Longrightarrow> same_chain env vw db db'"
  by (simp add: same_chain_def same_but_def)

lemma same_chain_reads:
  assumes "store_ok env vw" and "same_chain env vw db db'"
  shows "Height env db' = Height env db" and "GetBlockData env db' h = Inr b \<longleftrightarrow> GetBlockData env db h = Inr b"
    and "GetStateAtHeight env db' h = Inr s \<longleftrightarrow> GetStateAtHeight env db h = Inr s"
    and "GetSignature env db' h = Inr sig \<longleftrightarrow> GetSignature env db h = Inr sig"
    and "GetHeader env db' h = Inr sh \<longleftrightarrow> GetHeader env db h = Inr sh"
  using assms(2) same_height_reads(1) [OF assms(1), of db db' h b]
  by (simp_all add: same_chain_def Height_iff [OF assms(1)] GetStateAtHeight_iff [OF assms(1)]
      GetSignature_iff [OF assms(1)] GetHeader_iff [OF assms(1)] same_height_def)

lemma linked_same:
  assumes "store_ok (xstore env) vw" and "same_chain (xstore env) vw db db'"
  shows "linked env db' h = linked env db h"
  by (simp add: linked_def same_chain_reads [OF assms])

lemma chain_ok_same:
  assumes "store_ok (xstore env) vw" and "same_chain (xstore env) vw db db'"
  shows "chain_ok env vw db' st = chain_ok env vw db st"
  using assms(2) by (simp add: chain_ok_def same_chain_reads [OF assms] linked_same [OF assms]) (simp add: same_chain_def)

lemma pending_keys [simp]: "plain_key headerKey" "plain_key dataKey" "headerKey \<noteq> dataKey" "dataKey \<noteq> headerKey"
  by (simp_all add: headerKey_def dataKey_def plain_key_def)

lemma getPendingBlock_iff:
  assumes "store_ok env vw"
  shows "getPendingBlock env db = Inr (Some (sh, d)) \<longleftrightarrow> (\<exists>hb bl. entry_of env vw db (EMeta headerKey) = Some hb \<and>
    entry_of env vw db (EMeta dataKey) = Some bl \<and>
    SignedHeader_UnmarshalBinary (tenv env) newSignedHeader hb = Inr sh \<and> Data_UnmarshalBinary (tenv env) bl = Inr d)"
  by (auto simp: kget_store [OF assms, of "EMeta headerKey", symmetric] kget_store [OF assms, of "EMeta dataKey", symmetric]
      getPendingBlock_def GetMetadata_def entry_keys(7) [where env = env] split: sum.splits if_splits)

definition same_pending :: "('db, 'pk) store_env \<Rightarrow> ('db \<Rightarrow> view) \<Rightarrow> 'db \<Rightarrow> 'db \<Rightarrow> bool" where
  "same_pending env vw db db' \<longleftrightarrow> (\<forall>k \<in> {headerKey, dataKey}. entry_of env vw db' (EMeta k) = entry_of env vw db (EMeta k))"

lemma pending_fits_same:
  assumes "store_ok (xstore env) vw" and "same_pending (xstore env) vw db db'"
  shows "pending_fits env db' st = pending_fits env db st"
  using assms(2) by (simp add: pending_fits_def getPendingBlock_iff [OF assms(1)] same_pending_def)

lemma put_pending_entries:
  assumes ok: "store_ok env vw" and p: "put_pending env db hb bl = (r, db')" and e: "entry_wf e"
  shows "entry_of env vw db' e = (if r = None \<and> e = EMeta headerKey then Some hb
    else if r = None \<and> e = EMeta dataKey then Some bl else entry_of env vw db e)"
proof (cases r)
  case None
  have k: "ds_new_key (sds env) (GetMetaKey k) = entry_key env (EMeta k)" if "plain_key k" for k
    using new_entry_key [OF store_okD(1,2) [OF ok], of "EMeta k"] that by (simp add: entry_keys(7) [where env = env])
  obtain b where b: "Commit env db b = (None, db')"
    "b = [DsPut (entry_key env (EMeta headerKey)) hb, DsPut (entry_key env (EMeta dataKey)) bl]"
    using p None
    by (auto simp: put_pending_def k NewBatch_def simp del: batch_ops.simps split: sum.splits prod.splits option.splits
        dest!: batch_ops_Inr)
  show ?thesis
    using Commit_entry(1) [OF store_okD(1) [OF ok] b(1), of e] None e
    by (auto simp: b(2) entry_key_inject [OF store_okD(2) [OF ok]] entry_of_def)
next
  case (Some er)
  then have "vw db' = vw db"
    using p Commit_entry(2) [OF store_okD(1) [OF ok]]
    by (auto simp: put_pending_def simp del: batch_ops.simps split: sum.splits prod.splits option.splits)
  then show ?thesis using Some by (simp add: entry_of_def)
qed


lemma fits_signer:
  assumes "fits env st sh d" and "shHeader sh' = shHeader sh" and "signer_wf (tenv (xstore env)) (shSigner sh')"
    and "same_signer (shSigner sh) (shSigner sh')"
  shows "fits env st sh' d"
  using assms unfolding fits_def Let_def same_signer_def by (intro conjI) auto

lemma savePendingBlock_result:
  assumes ok: "store_ok (xstore env) vw" and codecs: "codecs_ok (tenv (xstore env))" "keys_roundtrip (tenv (xstore env))"
    and top: "LastBlockHeight st < - 1" and f: "fits env st sh d" and p: "pending_fits env db st"
    and s: "savePendingBlock (xstore env) db sh d = ((r, sh'), db')"
  shows "same_chain (xstore env) vw db db' \<and> pending_fits env db' st \<and>
    (r = None \<longrightarrow> fits env st sh' d \<and> (\<exists>t. getPendingBlock (xstore env) db' =
       Inr (Some (newSignedHeader\<lparr>shHeader := shHeader sh, shSignature := shSignature sh, shSigner := t\<rparr>, d))))"
proof (cases "SignedHeader_MarshalBinary (tenv (xstore env)) sh")
  case (Pair q sh1)
  show ?thesis
  proof (cases q)
    case (Inl er)
    then show ?thesis using s p Pair by (auto simp: savePendingBlock_def)
  next
    case (Inr hb)
    note m = Pair [unfolded Inr]
    have w: "signer_wf (tenv (xstore env)) (shSigner sh)" "legacy_small (Legacy (shHeader sh))"
      "norm_header (shHeader sh) = shHeader sh" using f by (simp_all add: fits_def Let_def)
    obtain s1 where s1: "sh1 = sh\<lparr>shSigner := s1\<rparr>" "signer_wf (tenv (xstore env)) s1" "same_signer (shSigner sh) s1"
      using SignedHeader_kept [OF codecs w m] by blast
    obtain t where t: "SignedHeader_UnmarshalBinary (tenv (xstore env)) newSignedHeader hb =
        Inr (newSignedHeader\<lparr>shHeader := shHeader sh, shSignature := shSignature sh, shSigner := t\<rparr>)"
      "signer_wf (tenv (xstore env)) t" "same_signer (shSigner sh) t"
      using SignedHeader_kept [OF codecs w m] by blast
    have f1: "fits env st sh1 d"
      and f2: "fits env st (newSignedHeader\<lparr>shHeader := shHeader sh, shSignature := shSignature sh, shSigner := t\<rparr>) d"
      using fits_signer [OF f] s1 t by simp_all
    show ?thesis
    proof (cases "Data_MarshalBinary (tenv (xstore env)) d")
      case (Inl er)
      then show ?thesis using s p m by (auto simp: savePendingBlock_def)
    next
      case (Inr bl)
      have pp: "put_pending (xstore env) db hb bl = (r, db')" and sh': "sh' = sh1"
        using s m Inr by (auto simp: savePendingBlock_def split: prod.splits)
      note e = put_pending_entries [OF ok pp]
      have "same_chain (xstore env) vw db db'" by (simp add: same_chain_def e)
      moreover have g: "getPendingBlock (xstore env) db' =
          Inr (Some (newSignedHeader\<lparr>shHeader := shHeader sh, shSignature := shSignature sh, shSigner := t\<rparr>, d))" if "r = None"
        using that t(1) Data_roundtrip [OF codecs(1) Inr] by (simp add: getPendingBlock_iff [OF ok] e)
      moreover have "pending_fits env db' st"
      proof (cases r)
        case None
        have "unat (Header_Height (shHeader sh)) = unat (LastBlockHeight st) + 1"
          using f unat_u64_Suc [OF top] by (simp add: fits_def Let_def)
        then show ?thesis using g [OF None] f2 by (auto simp: pending_fits_def)
      next
        case (Some er)
        then have "same_pending (xstore env) vw db db'" by (simp add: same_pending_def e)
        then show ?thesis using pending_fits_same [OF ok] p by blast
      qed
      ultimately show ?thesis using f1 sh' by blast
    qed
  qed
qed


section \<open>Making a block that fits\<close>

lemma legacy_None [simp]: "legacy_small None" "norm_legacy None = None"
  by (simp_all add: legacy_small_def norm_legacy_def Legacy_IsZero_def)

lemma last_info_hash:
  assumes inv: "exec_inv env vw cok st e" and top: "LastBlockHeight st < - 1"
    and i: "last_block_info env e (LastBlockHeight st + 1) = Inr i"
  shows "lbHeaderHash i = sLastHeaderHash st"
proof (cases "gInitialHeight (xgenesis env) < LastBlockHeight st + 1")
  case True
  then have gI: "gInitialHeight (xgenesis env) \<le> LastBlockHeight st"
    using unat_u64_Suc [OF top] by (simp add: word_less_nat_alt word_le_nat_alt)
  show ?thesis
  proof (cases "lastInfo e")
    case (Some j)
    then show ?thesis using inv gI i True by (simp add: exec_inv_def last_block_info_def)
  next
    case None
    have "linked env (edb e) (LastBlockHeight st)" using inv gI by (simp add: exec_inv_def chain_ok_def)
    then obtain prev sh d st' where l: "GetBlockData (xstore env) (edb e) (LastBlockHeight st) = Inr (sh, d)"
      "GetStateAtHeight (xstore env) (edb e) (LastBlockHeight st) = Inr st'" "follows env prev sh d st'"
      by (auto simp: linked_def)
    have "tip st' = tip st" using inv l(2) by (simp add: exec_inv_def chain_ok_def)
    then have "sLastHeaderHash st = Header_Hash (tenv (xstore env)) (shHeader sh)"
      using l(3) by (simp add: follows_def Let_def tip_def)
    then show ?thesis using i True None l(1) by (auto simp: last_block_info_def split: sum.splits)
  qed
next
  case False
  then have "unat (LastBlockHeight st) + 1 = unat (gInitialHeight (xgenesis env))"
    using inv unat_u64_Suc [OF top] by (auto simp: exec_inv_def state_ok_def word_less_nat_alt)
  then have "sLastHeaderHash st = []" using inv by (simp add: exec_inv_def state_ok_def)
  then show ?thesis using i False by (auto simp: last_block_info_def)
qed

lemma CreateBlock_fits:
  assumes inv: "exec_inv env vw cok st e" and top: "LastBlockHeight st < - 1"
    and c: "CreateBlock env e (LastBlockHeight st + 1) b = Inr (sh, d)"
  shows "fits env st sh d" and "Txs d = respBatch b"
proof -
  obtain i where i: "last_block_info env e (LastBlockHeight st + 1) = Inr i"
    using c by (auto simp: CreateBlock_def Let_def split: sum.splits)
  obtain pk v where s: "signer_info env = Inr (pk, v)"
    using c by (auto simp: CreateBlock_def Let_def i split: sum.splits)
  have st: "getLastState e = st" using inv by (simp add: exec_inv_def getLastState_def)
  have h: "lbHeaderHash i = sLastHeaderHash st" using last_info_hash [OF inv top i] .
  show "Txs d = respBatch b" using c by (auto simp: CreateBlock_def Let_def i s)
  show "fits env st sh d"
    using c by (auto simp: CreateBlock_def Let_def i s st h fits_def Header_Height_def Header_ChainID_def
        data_hash_of_def DACommitment_def norm_header_def signer_wf_def split: option.splits)
qed


section \<open>Committing a block that follows\<close>

lemma stage_commits:
  assumes "stage_block env db sh d sig k st = Inr b" and "Commit env db b = (None, db')" and "k = Header_Height (shHeader sh)"
  shows "commits env db sh d sig st db'"
  using assms by (auto simp: stage_block_def commits_def NewBatch_def split: sum.splits option.splits)

lemma execute_attempts_Inr:
  "0 < left \<Longrightarrow> attempt + left = Suc MaxRetriesBeforeHalt \<Longrightarrow>
     execute_attempts ops ctx txs h prev left attempt x = (Inr root, x') \<Longrightarrow>
     \<exists>y. x_ExecuteTxs ops y txs (Header_Height h) (Header_Time h) prev = (Inr root, x')"
proof (induction left arbitrary: attempt x)
  case (Suc left)
  obtain r y where y: "x_ExecuteTxs ops x txs (Header_Height h) (Header_Time h) prev = (r, y)" by fastforce
  show ?case
  proof (cases r)
    case (Inl er)
    then have n: "attempt \<noteq> MaxRetriesBeforeHalt" "stopped ctx attempt = None"
      "execute_attempts ops ctx txs h prev left (attempt + 1) y = (Inr root, x')"
      using Suc.prems y by (auto split: if_splits option.splits)
    then show ?thesis using Suc.IH [of "attempt + 1" y] Suc.prems(2) by (cases left) simp_all
  next
    case (Inr q)
    then show ?thesis using Suc.prems y by auto
  qed
qed simp

lemma executeTxsWithRetry_Inr:
  "executeTxsWithRetry ops ctx x txs h st = (Inr root, x') \<Longrightarrow>
     \<exists>y. x_ExecuteTxs ops y txs (Header_Height h) (Header_Time h) (sAppHash st) = (Inr root, x')"
  unfolding executeTxsWithRetry_def
  by (erule execute_attempts_Inr [rotated 2]) (simp_all add: MaxRetriesBeforeHalt_def)

text \<open>What the store gives back after the commit of a block that follows: the block, its state and its
  height, and at all other heights what it gave before.\<close>

lemma commit_reads:
  assumes ok: "store_ok (xstore env) vw" and codecs: "codecs_ok (tenv (xstore env))" "keys_roundtrip (tenv (xstore env))"
    and top: "LastBlockHeight st < - 1" and ch: "Height (xstore env) db = Inr (LastBlockHeight st)"
    and f: "follows env st sh d st'" and t: "state_time_ok st'"
    and c: "commits (xstore env) db sh d (shSignature sh) st' db'" and k: "k = LastBlockHeight st'"
  shows "\<exists>sh'. GetBlockData (xstore env) db' k = Inr (sh', d) \<and> shHeader sh' = shHeader sh \<and>
       shSignature sh' = shSignature sh \<and> follows env st sh' d st'"
    and "GetStateAtHeight (xstore env) db' k = Inr st'" and "Height (xstore env) db' = Inr k"
    and "h \<noteq> k \<Longrightarrow> GetBlockData (xstore env) db' h = Inr b \<longleftrightarrow> GetBlockData (xstore env) db h = Inr b"
    and "h \<noteq> k \<Longrightarrow> GetStateAtHeight (xstore env) db' h = Inr s \<longleftrightarrow> GetStateAtHeight (xstore env) db h = Inr s"
    and "h \<noteq> k \<Longrightarrow> entry_of (xstore env) vw db' (EHeader h) = entry_of (xstore env) vw db (EHeader h)"
    and "same_pending (xstore env) vw db db'"
proof -
  have hk: "Header_Height (shHeader sh) = k" "k = LastBlockHeight st + 1"
    using f by (simp_all add: follows_def fits_def Let_def k)
  have lt: "LastBlockHeight st < k" using unat_u64_Suc [OF top] hk(2) by (simp add: word_less_nat_alt)
  have w: "signer_wf (tenv (xstore env)) (shSigner sh)" "legacy_small (Legacy (shHeader sh))"
    "norm_header (shHeader sh) = shHeader sh" using f by (simp_all add: follows_def fits_def Let_def)
  obtain hb bl sb where hb: "fst (SignedHeader_MarshalBinary (tenv (xstore env)) sh) = Inr hb"
    and bl: "Data_MarshalBinary (tenv (xstore env)) d = Inr bl"
    and sb: "enc (c_state (cds (tenv (xstore env)))) (State_ToProto st') = Inr sb"
    and e: "\<And>e. entry_wf e \<Longrightarrow> entry_of (xstore env) vw db' e =
      committed (xstore env) vw db (LastBlockHeight st) k hb bl (shSignature sh) sb e"
    using commits_entries [OF ok c hk(1) k [symmetric]] ch by auto
  obtain sh1 where m: "SignedHeader_MarshalBinary (tenv (xstore env)) sh = (Inr hb, sh1)" using hb by (metis prod.collapse)
  obtain t1 where t1: "SignedHeader_UnmarshalBinary (tenv (xstore env)) newSignedHeader hb =
      Inr (newSignedHeader\<lparr>shHeader := shHeader sh, shSignature := shSignature sh, shSigner := t1\<rparr>)"
    "signer_wf (tenv (xstore env)) t1" "same_signer (shSigner sh) t1"
    using SignedHeader_kept [OF codecs w m] by blast
  define sh' where "sh' = newSignedHeader\<lparr>shHeader := shHeader sh, shSignature := shSignature sh, shSigner := t1\<rparr>"
  have "decode_state (xstore env) sb = Inr st'"
    using codec_okD [OF codecs_okD(10) [OF codecs(1)] _ sb] State_FromProto_ToProto [OF t] by (simp add: decode_state_def)
  then show "GetStateAtHeight (xstore env) db' k = Inr st'" by (simp add: GetStateAtHeight_iff [OF ok] e committed_def)
  have "GetBlockData (xstore env) db' k = Inr (sh', d)"
    using t1(1) Data_roundtrip [OF codecs(1) bl]
    by (simp add: GetBlockData_iff [OF ok] GetHeader_iff [OF ok] e committed_def sh'_def)
  moreover have "follows env st sh' d st'"
    using f fits_signer [of env st sh d sh'] t1(2,3) by (simp add: follows_def Let_def sh'_def)
  ultimately show "\<exists>sh'. GetBlockData (xstore env) db' k = Inr (sh', d) \<and> shHeader sh' = shHeader sh \<and>
       shSignature sh' = shSignature sh \<and> follows env st sh' d st'" by (auto simp: sh'_def)
  show "Height (xstore env) db' = Inr k"
    using e [of EHeight] lt by (simp add: Height_iff [OF ok] committed_def decodeHeight_def heightLength_def)
  show "h \<noteq> k \<Longrightarrow> GetBlockData (xstore env) db' h = Inr b \<longleftrightarrow> GetBlockData (xstore env) db h = Inr b"
    by (intro same_height_reads(1) [OF ok]) (simp add: same_height_def e committed_def)
  show "h \<noteq> k \<Longrightarrow> GetStateAtHeight (xstore env) db' h = Inr s \<longleftrightarrow> GetStateAtHeight (xstore env) db h = Inr s"
    by (simp add: GetStateAtHeight_iff [OF ok] e committed_def)
  show "h \<noteq> k \<Longrightarrow> entry_of (xstore env) vw db' (EHeader h) = entry_of (xstore env) vw db (EHeader h)"
    by (simp add: e committed_def)
  show "same_pending (xstore env) vw db db'" by (simp add: same_pending_def e committed_def)
qed

lemma commit_extends:
  assumes ok: "store_ok (xstore env) vw" and codecs: "codecs_ok (tenv (xstore env))" "keys_roundtrip (tenv (xstore env))"
    and g: "0 < gInitialHeight (xgenesis env)" and top: "LastBlockHeight st < - 1" and sok: "state_ok env st"
    and ch: "chain_ok env vw db st" and p: "pending_fits env db st"
    and f: "follows env st sh d st'" and t: "state_time_ok st'"
    and c: "commits (xstore env) db sh d (shSignature sh) st' db'"
  shows "chain_ok env vw db' st' \<and> pending_fits env db' st' \<and>
    (\<forall>h b. h \<le> LastBlockHeight st \<longrightarrow> (GetBlockData (xstore env) db' h = Inr b \<longleftrightarrow> GetBlockData (xstore env) db h = Inr b)) \<and>
    (\<forall>h s. h \<le> LastBlockHeight st \<longrightarrow> (GetStateAtHeight (xstore env) db' h = Inr s \<longleftrightarrow> GetStateAtHeight (xstore env) db h = Inr s)) \<and>
    (\<exists>sh'. GetBlockData (xstore env) db' (LastBlockHeight st') = Inr (sh', d) \<and> shHeader sh' = shHeader sh \<and>
       shSignature sh' = shSignature sh)"
proof -
  define k where "k = LastBlockHeight st'"
  have k: "k = LastBlockHeight st + 1" using f by (simp add: follows_def fits_def Let_def k_def)
  have u: "unat k = unat (LastBlockHeight st) + 1" using unat_u64_Suc [OF top] k by simp
  have low: "h \<noteq> k" if "h \<le> LastBlockHeight st" for h using that u by (auto simp: word_le_nat_alt)
  note rd = commit_reads [OF ok codecs top _ f t c k_def]
  have H: "Height (xstore env) db = Inr (LastBlockHeight st)" using ch by (simp add: chain_ok_def)
  obtain sh' where B: "GetBlockData (xstore env) db' k = Inr (sh', d)" "shHeader sh' = shHeader sh"
    "shSignature sh' = shSignature sh" "follows env st sh' d st'" using rd(1) [OF H] by blast
  note S = rd(2) [OF H] and B' = rd(4) [OF H] and S' = rd(5) [OF H]
  obtain s where s: "GetStateAtHeight (xstore env) db (LastBlockHeight st) = Inr s" "tip s = tip st"
    using ch by (auto simp: chain_ok_def)
  then have "follows env s sh' d st'" using B(4) follows_tip by metis
  moreover have "Header_Height (shHeader sh') = k" using f B(2) by (simp add: follows_def Let_def k_def)
  ultimately have L: "linked env db' k" using S B(1) S' [OF low] s(1) by (auto simp: linked_def k)
  have L': "linked env db' h" if h: "gInitialHeight (xgenesis env) \<le> h" "h \<le> LastBlockHeight st" for h
  proof -
    have "h \<noteq> k" "h - 1 \<noteq> k"
      using h g u unat_u64_pred [of 0 h] by (auto simp: word_le_nat_alt word_less_nat_alt)
    moreover have "linked env db h" using ch h by (simp add: chain_ok_def)
    ultimately show ?thesis using S' B' by (simp add: linked_def)
  qed
  have le: "h \<le> k \<Longrightarrow> h = k \<or> h \<le> LastBlockHeight st" for h
    using u by (auto simp: word_le_nat_alt word_unat_eq_iff)
  have "entry_of (xstore env) vw db' (EHeader h) = None" if h: "h < gInitialHeight (xgenesis env) \<or> k < h" for h
  proof -
    have "h \<noteq> k" "h < gInitialHeight (xgenesis env) \<or> LastBlockHeight st < h"
      using h u sok by (auto simp: word_less_nat_alt state_ok_def)
    then show ?thesis using ch rd(6) [OF H, of h] by (auto simp: chain_ok_def)
  qed
  then have "chain_ok env vw db' st'"
    using rd(3) [OF H] S L L' le unfolding chain_ok_def k_def [symmetric] by blast
  moreover have "pending_fits env db' st'"
    using p pending_fits_same [OF ok rd(7) [OF H], of st] u unfolding pending_fits_def k_def [symmetric] by fastforce
  ultimately show ?thesis using S' [OF low] B' [OF low] B unfolding k_def [symmetric] by blast
qed


section \<open>One call of the producer\<close>

text \<open>The part of the executor the invariant is about.\<close>

definition core :: "('db, 'pk, 'x, 's, 'c, 'r) Executor \<Rightarrow> 'db \<times> 'c \<times> State option \<times> bool \<times> lastBlockInfo option" where
  "core e = (edb e, ecache e, lastState e, hasPendingBlock e, lastInfo e)"

lemma exec_inv_core: "core e' = core e \<Longrightarrow> exec_inv env vw cok st e' = exec_inv env vw cok st e"
  by (simp add: exec_inv_def core_def)

lemma core_steps:
  "core (sendCriticalError env err e) = core e"
  "has_quorum env e = (q, e') \<Longrightarrow> core e' = core e"
  "ApplyBlock env ctx h d e = (r, e') \<Longrightarrow> core e' = core e"
  "propose_raft env sh d k e = (r', e') \<Longrightarrow> core e' = core e"
  by (auto simp: core_def sendCriticalError_def has_quorum_def ApplyBlock_def propose_raft_def Let_def
      split: option.splits prod.splits sum.splits if_splits)

lemma getLastState_inv: "exec_inv env vw cok st e \<Longrightarrow> getLastState e = st"
  by (simp add: exec_inv_def getLastState_def)

text \<open>The chain has grown by one block that follows the state \<open>st\<close>.\<close>

definition grown ::
  "('db, 'pk, 'x, 's, 'c, 'r) exec_env \<Rightarrow> ('db \<Rightarrow> view) \<Rightarrow> ('c \<Rightarrow> bool) \<Rightarrow> State \<Rightarrow> 'db \<Rightarrow>
     ('db, 'pk, 'x, 's, 'c, 'r) Executor \<Rightarrow> 'pk SignedHeader \<Rightarrow> Data \<Rightarrow> State \<Rightarrow> bool" where
  "grown env vw cok st db e' sh d st' \<longleftrightarrow>
     follows env st sh d st' \<and> exec_inv env vw cok st' e' \<and> \<not> hasPendingBlock e' \<and>
     (\<exists>sh'. GetBlockData (xstore env) (edb e') (LastBlockHeight st') = Inr (sh', d) \<and> shHeader sh' = shHeader sh \<and>
        shSignature sh' = shSignature sh) \<and>
     (\<forall>h b. h \<le> LastBlockHeight st \<longrightarrow> (GetBlockData (xstore env) (edb e') h = Inr b \<longleftrightarrow> GetBlockData (xstore env) db h = Inr b)) \<and>
     (\<forall>h s. h \<le> LastBlockHeight st \<longrightarrow> (GetStateAtHeight (xstore env) (edb e') h = Inr s \<longleftrightarrow> GetStateAtHeight (xstore env) db h = Inr s))"

lemma core_setFinal:
  "after_commit env sh d sig k st e = (r, e') \<Longrightarrow>
     core e' = (edb e, ecache e, Some st, False, Some \<lparr>lbHeaderHash = sLastHeaderHash st,
       lbDataHash = Data_Hash (tenv (xstore env)) d, lbSignature = sig\<rparr>)"
  by (auto simp: after_commit_def Let_def setLastState_def core_def sendCriticalError_def split: if_splits prod.splits option.splits)

lemma state_ok_follows:
  assumes "state_ok env st" and "follows env st sh d st'" and "LastBlockHeight st < - 1" and "state_time_ok st'"
  shows "state_ok env st'"
proof -
  have k: "LastBlockHeight st' = LastBlockHeight st + 1" "sChainID st' = gChainID (xgenesis env)"
    using assms(2) by (simp_all add: follows_def fits_def Let_def)
  have u: "unat (LastBlockHeight st + 1) = unat (LastBlockHeight st) + 1" using unat_u64_Suc [OF assms(3)] .
  then show ?thesis using assms(1,4) k by (simp add: state_ok_def)
qed

lemma AssertValidSequence_time:
  assumes "AssertValidSequence tr st sh = (None, tr')" and "sLastHeaderHash st \<noteq> []"
  shows "LastBlockTime st \<le> Header_Time (shHeader sh)"
  using assms by (auto simp: AssertValidSequence_def Let_def split: if_splits)

lemma commit_block_outcome:
  assumes ok: "store_ok (xstore env) vw" and codecs: "codecs_ok (tenv (xstore env))" "keys_roundtrip (tenv (xstore env))"
    and g: "0 < gInitialHeight (xgenesis env)" and top: "LastBlockHeight st < - 1"
    and inv: "exec_inv env vw cok st e" and f: "follows env st sh d st'" and t: "state_time_ok st'"
    and b: "commit_block env sh d (shSignature sh) (LastBlockHeight st + 1) st' e = (r, e')"
  shows "(\<exists>db. core e' = core (e\<lparr>edb := db\<rparr>) \<and> vw db = vw (edb e)) \<or> grown env vw cok st (edb e) e' sh d st'"
proof (cases "stage_block (xstore env) (edb e) sh d (shSignature sh) (LastBlockHeight st + 1) st'")
  case (Inl er)
  then have "core e' = core (e\<lparr>edb := edb e\<rparr>)" using b by (simp add: commit_block_def)
  then show ?thesis by blast
next
  case (Inr bt)
  define sh1 where "sh1 = snd (SignedHeader_MarshalBinary (tenv (xstore env)) sh)"
  obtain p e1 where p: "propose_raft env sh1 d (LastBlockHeight st + 1) e = (p, e1)" by fastforce
  have c: "core e1 = core e" using core_steps(4) [OF p] .
  obtain er db where cm: "Commit (xstore env) (edb e) bt = (er, db)" by fastforce
  show ?thesis
  proof (cases "p = None \<and> er = None")
    case False
    then have "core e' = core e \<or> core e' = core (e\<lparr>edb := db\<rparr>) \<and> er \<noteq> None"
      using b Inr p c cm by (auto simp: commit_block_def sh1_def core_def Let_def split: option.splits)
    then show ?thesis using Commit_entry(2) [OF store_okD(1) [OF ok]] cm by (auto simp: core_def)
  next
    case True
    then have a: "after_commit env sh1 d (shSignature sh) (LastBlockHeight st + 1) st' (e1\<lparr>edb := db\<rparr>) = (r, e')"
      using b Inr p c cm by (simp add: commit_block_def sh1_def core_def Let_def)
    have k: "LastBlockHeight st + 1 = Header_Height (shHeader sh)" using f by (simp add: follows_def fits_def Let_def)
    note x = commit_extends [OF ok codecs g top _ _ _ f t stage_commits [OF Inr _ k]]
    have x: "chain_ok env vw db st'" "pending_fits env db st'"
      "\<forall>h b. h \<le> LastBlockHeight st \<longrightarrow> (GetBlockData (xstore env) db h = Inr b \<longleftrightarrow> GetBlockData (xstore env) (edb e) h = Inr b)"
      "\<forall>h s. h \<le> LastBlockHeight st \<longrightarrow> (GetStateAtHeight (xstore env) db h = Inr s \<longleftrightarrow> GetStateAtHeight (xstore env) (edb e) h = Inr s)"
      "\<exists>sh'. GetBlockData (xstore env) db (LastBlockHeight st') = Inr (sh', d) \<and> shHeader sh' = shHeader sh \<and>
         shSignature sh' = shSignature sh"
      using x [of db] inv True cm by (simp_all add: exec_inv_def)
    have "state_ok env st'" using state_ok_follows [OF _ f top t] inv by (simp add: exec_inv_def)
    then show ?thesis
      using x f inv c core_setFinal [OF a] by (simp add: grown_def exec_inv_def core_def)
  qed
qed

lemma finish_block_outcome:
  assumes ok: "store_ok (xstore env) vw" and codecs: "codecs_ok (tenv (xstore env))" "keys_roundtrip (tenv (xstore env))"
    and g: "0 < gInitialHeight (xgenesis env)" and top: "LastBlockHeight st < - 1"
    and inv: "exec_inv env vw cok st e" and f: "fits env st sh d"
    and b: "finish_block env ctx st (LastBlockHeight st + 1) sh d e = (r, e')"
  shows "(\<exists>db. core e' = core (e\<lparr>edb := db\<rparr>) \<and> vw db = vw (edb e)) \<or>
    (\<exists>sig st'. grown env vw cok st (edb e) e' (sh\<lparr>shSignature := sig\<rparr>) d st')"
proof (rule ccontr)
  assume n: "\<not> ?thesis"
  have stay: "core e' \<noteq> core e" using n by (auto simp: core_def)
  obtain q e1 where q: "has_quorum env e = (q, e1)" by fastforce
  obtain a e2 where a: "ApplyBlock env ctx (shHeader sh) d e1 = (a, e2)" by fastforce
  have c: "core e1 = core e" "core e2 = core e" using core_steps(2) [OF q] core_steps(3) [OF a] by simp_all
  then have "q" using b q stay by (cases q) (auto simp: finish_block_def)
  then obtain ap where ap: "a = Inr ap" using b q a c stay by (cases a) (auto simp: finish_block_def)
  obtain sig where sig: "signHeader env (shHeader sh) = Inr sig"
    using b q a c stay \<open>q\<close> ap by (cases "signHeader env (shHeader sh)") (auto simp: finish_block_def Let_def)
  define sh1 where "sh1 = sh\<lparr>shSignature := sig\<rparr>"
  define st' where "st' = ap\<lparr>sDAHeight := q_GetDAHeight (xseq env) (eseq e2)\<rparr>"
  obtain v tr where v: "AssertValidSequence (etracking e2) st sh1 = (v, tr)" by fastforce
  have cr: "core (sendCriticalError env er (e2\<lparr>etracking := tr\<rparr>)) = core e" for er
    using c by (simp add: core_steps(1)) (simp add: core_def)
  have "v = None"
    using b q a \<open>q\<close> ap sig v stay cr by (cases v) (auto simp: finish_block_def Let_def sh1_def)
  then have cb: "commit_block env sh1 d (shSignature sh1) (LastBlockHeight st + 1) st' (e2\<lparr>etracking := tr\<rparr>) = (r, e')"
    using b q a \<open>q\<close> ap sig v by (simp add: finish_block_def Let_def sh1_def st'_def)
  have core2: "core (e2\<lparr>etracking := tr\<rparr>) = core e" using c by (simp add: core_def)
  obtain root x where root: "executeTxsWithRetry (xexec env) ctx (elayer e1) (Txs d) (shHeader sh) st = (Inr root, x)"
    "ap = NextState (tenv (xstore env)) st (shHeader sh) root"
    using a ap getLastState_inv [of env vw cok st e1] inv exec_inv_core [OF c(1)]
    by (auto simp: ApplyBlock_def Let_def split: prod.splits sum.splits)
  then obtain y where "x_ExecuteTxs (xexec env) y (Txs d) (Header_Height (shHeader sh)) (Header_Time (shHeader sh)) (sAppHash st) = (Inr root, x)"
    using executeTxsWithRetry_Inr [OF root(1)] by blast
  moreover have "fits env st sh1 d" using f by (auto simp: fits_def Let_def sh1_def)
  ultimately have "follows env st sh1 d st'"
    using sig AssertValidSequence_time [OF v [unfolded \<open>v = None\<close>]] inv
    by (auto simp: follows_def Let_def root(2) st'_def sh1_def exec_inv_def state_ok_def)
  moreover have "state_time_ok st'" using NextState_time_ok by (simp add: state_time_ok_def root(2) st'_def)
  moreover have "exec_inv env vw cok st (e2\<lparr>etracking := tr\<rparr>)" using inv exec_inv_core [OF core2] by blast
  ultimately show False
    using commit_block_outcome [OF ok codecs g top _ _ _ cb] n core2 unfolding sh1_def by (auto simp: core_def)
qed


text \<open>Steps before the block is executed: the invariant is kept and only metadata is written.\<close>

definition prepares ::
  "('db, 'pk, 'x, 's, 'c, 'r) exec_env \<Rightarrow> ('db \<Rightarrow> view) \<Rightarrow> ('c \<Rightarrow> bool) \<Rightarrow> State \<Rightarrow>
     ('db, 'pk, 'x, 's, 'c, 'r) Executor \<Rightarrow> ('db, 'pk, 'x, 's, 'c, 'r) Executor \<Rightarrow> bool" where
  "prepares env vw cok st e e' \<longleftrightarrow> exec_inv env vw cok st e' \<and> same_chain (xstore env) vw (edb e) (edb e') \<and>
     hasPendingBlock e' = hasPendingBlock e"

lemma prepares_core: "exec_inv env vw cok st e \<Longrightarrow> core e' = core e \<Longrightarrow> prepares env vw cok st e e'"
  unfolding prepares_def using exec_inv_core [of e' e env vw cok st] by (simp add: core_def)

lemma prepares_trans: "prepares env vw cok st e e1 \<Longrightarrow> prepares env vw cok st e1 e2 \<Longrightarrow> prepares env vw cok st e e2"
  by (auto simp: prepares_def intro: same_chain_trans)

lemma prepares_view:
  assumes "store_ok (xstore env) vw" and "exec_inv env vw cok st e" and "core e' = core (e\<lparr>edb := db\<rparr>)" and "vw db = vw (edb e)"
  shows "prepares env vw cok st e e'"
proof -
  have s: "same_chain (xstore env) vw (edb e) db" "same_pending (xstore env) vw (edb e) db"
    using assms(4) by (simp_all add: same_chain_def same_pending_def entry_of_def)
  have "exec_inv env vw cok st (e\<lparr>edb := db\<rparr>)"
    using assms(2) chain_ok_same [OF assms(1) s(1)] pending_fits_same [OF assms(1) s(2)] by (simp add: exec_inv_def)
  then show ?thesis using exec_inv_core [OF assms(3)] s(1) assms(3) by (simp add: prepares_def core_def)
qed

lemma core_RetrieveBatch: "RetrieveBatch env e = Some (r, e') \<Longrightarrow> core e' = core e"
  by (auto simp: RetrieveBatch_def core_def split: option.splits prod.splits sum.splits)

text \<open>Where the transactions of a block come from: the batch this call takes from the sequencer, or a pending
  block, but that only where the flag is set.\<close>

definition batch_request :: "('db, 'pk, 'x, 's, 'c, 'r) exec_env \<Rightarrow> GetNextBatchRequest" where
  "batch_request env =
     \<lparr>reqId = bytes_of_string (gChainID (xgenesis env)), LastBatchData = [], MaxBytes = of_nat DefaultMaxBlobSize\<rparr>"

definition from_batch :: "('db, 'pk, 'x, 's, 'c, 'r) exec_env \<Rightarrow> 's \<Rightarrow> Data \<Rightarrow> bool" where
  "from_batch env s d \<longleftrightarrow>
     (\<exists>res s'. q_GetNextBatch (xseq env) s (batch_request env) = Some (Inr (Some res), s') \<and> Txs d = respBatch res)"

definition sourced :: "('db, 'pk, 'x, 's, 'c, 'r) exec_env \<Rightarrow> ('db, 'pk, 'x, 's, 'c, 'r) Executor \<Rightarrow> Data \<Rightarrow> bool" where
  "sourced env e d \<longleftrightarrow> from_batch env (eseq e) d \<or>
     hasPendingBlock e \<and> (\<exists>sh. getPendingBlock (xstore env) (edb e) = Inr (Some (sh, d)))"

lemma RetrieveBatch_from:
  "RetrieveBatch env e = Some ((Some b, err), e') \<Longrightarrow> Txs d = respBatch b \<Longrightarrow> from_batch env (eseq e) d"
  by (auto simp: RetrieveBatch_def from_batch_def batch_request_def split: option.splits sum.splits)

lemma new_block_outcome:
  assumes ok: "store_ok (xstore env) vw" and codecs: "codecs_ok (tenv (xstore env))" "keys_roundtrip (tenv (xstore env))"
    and top: "LastBlockHeight st < - 1" and inv: "exec_inv env vw cok st e"
    and n: "new_block env (LastBlockHeight st + 1) e = Some (r, e')"
  shows "prepares env vw cok st e e' \<and> (\<forall>sh d. r = Inr (Some (sh, d)) \<longrightarrow> fits env st sh d \<and> from_batch env (eseq e) d)"
proof -
  obtain bd err e1 where rb: "RetrieveBatch env e = Some ((bd, err), e1)"
    using n by (auto simp: new_block_def split: option.splits)
  note c = core_RetrieveBatch [OF rb]
  have inv1: "exec_inv env vw cok st e1" and p1: "prepares env vw cok st e e1"
    using exec_inv_core [OF c] inv prepares_core [OF inv c] by blast+
  show ?thesis
  proof (cases "\<exists>b sh d. bd = Some b \<and> CreateBlock env e1 (LastBlockHeight st + 1) b = Inr (sh, d) \<and>
      (case err of None \<Rightarrow> True | Some er \<Rightarrow> errors_is er ErrNoTransactionsInBatch)")
    case True
    then obtain b sh d where cb: "bd = Some b" "CreateBlock env e1 (LastBlockHeight st + 1) b = Inr (sh, d)"
      and er: "case err of None \<Rightarrow> True | Some er \<Rightarrow> errors_is er ErrNoTransactionsInBatch" by blast
    obtain q sh' db where s: "savePendingBlock (xstore env) (edb e1) sh d = ((q, sh'), db)" by (metis prod.collapse)
    note f = CreateBlock_fits(1) [OF inv1 top cb(2)]
    have fb: "from_batch env (eseq e) d"
      using RetrieveBatch_from [OF rb [unfolded cb(1)]] CreateBlock_fits(2) [OF inv1 top cb(2)] .
    have sv: "same_chain (xstore env) vw (edb e1) db" "pending_fits env db st" "q = None \<Longrightarrow> fits env st sh' d"
      using savePendingBlock_result [OF ok codecs top f _ s] inv1 by (simp_all add: exec_inv_def)
    have "prepares env vw cok st e1 (e1\<lparr>edb := db\<rparr>)"
      using inv1 sv(1,2) chain_ok_same [OF ok sv(1)] by (simp add: prepares_def exec_inv_def)
    then have p2: "prepares env vw cok st e (e1\<lparr>edb := db\<rparr>)" using p1 prepares_trans by blast
    have "\<not> (case err of None \<Rightarrow> False | Some er \<Rightarrow> errors_is er ErrNoBatch)"
      using er errors_is_unique by (fastforce split: option.splits)
    then show ?thesis
      using n rb cb er s sv(3) p2 fb by (cases q) (auto simp: new_block_def split: option.splits)
  next
    case False
    then have "e' = e1 \<and> (\<forall>sh d. r \<noteq> Inr (Some (sh, d)))"
      using n rb by (auto simp: new_block_def split: option.splits sum.splits if_splits)
    then show ?thesis using p1 by blast
  qed
qed

lemma pending_or_new_outcome:
  assumes ok: "store_ok (xstore env) vw" and codecs: "codecs_ok (tenv (xstore env))" "keys_roundtrip (tenv (xstore env))"
    and top: "LastBlockHeight st < - 1" and inv: "exec_inv env vw cok st e"
    and n: "pending_or_new env (LastBlockHeight st + 1) e = Some (r, e')"
  shows "prepares env vw cok st e e' \<and> (\<forall>sh d. r = Inr (Some (sh, d)) \<longrightarrow> fits env st sh d \<and> sourced env e d)"
proof (cases "new_block env (LastBlockHeight st + 1) e = Some (r, e')")
  case True
  then show ?thesis using new_block_outcome [OF ok codecs top inv] by (auto simp: sourced_def)
next
  case False
  have self: "prepares env vw cok st e e" using prepares_core [OF inv] by simp
  have u: "unat (LastBlockHeight st + 1) = unat (LastBlockHeight st) + 1" using unat_u64_Suc [OF top] .
  have "fits env st sh d" if "getPendingBlock (xstore env) (edb e) = Inr (Some (sh, d))"
    "Header_Height (shHeader sh) = LastBlockHeight st + 1" for sh d
    using inv that u by (simp add: exec_inv_def pending_fits_def)
  then show ?thesis using n False self
    by (auto simp: pending_or_new_def sourced_def split: if_splits sum.splits option.splits)
qed


section \<open>The cache of blocks that wait for submission\<close>

text \<open>What the producer relies on: counting the pending data writes only metadata of the cache's own.\<close>

locale submission_cache =
  fixes senv :: "('db, 'pk) store_env" and vw :: "'db \<Rightarrow> view" and ops :: "('c, 'db) cache_ops" and cok :: "'c \<Rightarrow> bool"
  assumes counting: "store_ok senv vw \<Longrightarrow> cok c \<Longrightarrow> Height senv db = Inr H \<Longrightarrow> H < - 1 \<Longrightarrow>
    c_NumPendingData ops c db = Some (n, c', db') \<Longrightarrow> cok c' \<and> same_chain senv vw db db' \<and> same_pending senv vw db db'"
begin

lemma limit_prepares:
  assumes env: "xstore env = senv" "xcache env = ops" and ok: "store_ok senv vw" and top: "LastBlockHeight st < - 1"
    and inv: "exec_inv env vw cok st e" and p: "pending_limit_reached env e = Some (b, e')"
  shows "prepares env vw cok st e e' \<and> (\<forall>d. sourced env e' d = sourced env e d)"
proof (cases "\<exists>n c db. c_NumPendingData ops (ecache e) (edb e) = Some (n, c, db) \<and>
    e' = e\<lparr>pendingCheckCounter := pendingCheckCounter e + 1, ecache := c, edb := db\<rparr>")
  case True
  then obtain n c db where n: "c_NumPendingData ops (ecache e) (edb e) = Some (n, c, db)"
    "e' = e\<lparr>pendingCheckCounter := pendingCheckCounter e + 1, ecache := c, edb := db\<rparr>" by blast
  have "cok c \<and> same_chain senv vw (edb e) db \<and> same_pending senv vw (edb e) db"
    using counting [OF ok _ _ top n(1)] inv by (simp add: exec_inv_def chain_ok_def env)
  moreover from this have "getPendingBlock senv db = Inr (Some x) \<longleftrightarrow> getPendingBlock senv (edb e) = Inr (Some x)" for x
    by (cases x) (simp add: getPendingBlock_iff [OF ok] same_pending_def)
  ultimately show ?thesis
    using inv n(2) chain_ok_same [of env vw "edb e" db] pending_fits_same [of env vw "edb e" db] ok
    by (simp add: prepares_def exec_inv_def env sourced_def)
next
  case False
  then have "core e' = core e \<and> eseq e' = eseq e"
    using p by (auto simp: pending_limit_reached_def Let_def core_def env split: if_splits option.splits)
  then show ?thesis using prepares_core [OF inv] by (simp add: sourced_def core_def)
qed

lemma ProduceBlock_outcome:
  assumes env: "xstore env = senv" "xcache env = ops" and ok: "store_ok (xstore env) vw"
    and codecs: "codecs_ok (tenv (xstore env))" "keys_roundtrip (tenv (xstore env))"
    and g: "0 < gInitialHeight (xgenesis env)" and top: "LastBlockHeight st < - 1"
    and inv: "exec_inv env vw cok st e" and p: "ProduceBlock env ctx e = Some (r, e')"
  shows "prepares env vw cok st e e' \<or>
    (\<exists>e1 sh d st'. prepares env vw cok st e e1 \<and> grown env vw cok st (edb e1) e' sh d st' \<and> sourced env e d)"
proof (rule ccontr)
  assume n: "\<not> ?thesis"
  obtain q e1 where q: "has_quorum env e = (q, e1)" by fastforce
  have p1: "prepares env vw cok st e e1" using prepares_core [OF inv core_steps(2) [OF q]] .
  have "ctx_Err ctx = None" using p n prepares_core [OF inv, of e] by (cases "ctx_Err ctx") (auto simp: ProduceBlock_def)
  moreover have q': "q" using p n p1 calculation q by (cases q) (auto simp: ProduceBlock_def)
  moreover have st: "getLastState e1 = st" using p1 getLastState_inv by (auto simp: prepares_def)
  ultimately obtain b e2 where l: "pending_limit_reached env e1 = Some (b, e2)"
    using p q by (cases "pending_limit_reached env e1") (auto simp: ProduceBlock_def)
  have inv1: "exec_inv env vw cok st e1" using p1 by (simp add: prepares_def)
  have "core e1 = core e \<and> eseq e1 = eseq e"
    using core_steps(2) [OF q] q by (auto simp: has_quorum_def split: option.splits prod.splits)
  then have s1: "sourced env e1 d = sourced env e d" for d by (simp add: sourced_def core_def)
  have lp: "prepares env vw cok st e1 e2 \<and> (\<forall>d. sourced env e2 d = sourced env e1 d)"
    using limit_prepares [OF env _ top inv1 l] ok env by simp
  have p2: "prepares env vw cok st e e2" using prepares_trans [OF p1] lp by blast
  have "\<not> b" using p n p2 q q' l \<open>ctx_Err ctx = None\<close> by (cases b) (auto simp: ProduceBlock_def Let_def)
  then obtain s e3 where s: "pending_or_new env (LastBlockHeight st + 1) e2 = Some (s, e3)"
    using p q q' l st \<open>ctx_Err ctx = None\<close>
    by (cases "pending_or_new env (LastBlockHeight st + 1) e2") (auto simp: ProduceBlock_def Let_def)
  have inv2: "exec_inv env vw cok st e2" using p2 by (simp add: prepares_def)
  note o = pending_or_new_outcome [OF ok codecs top inv2 s]
  have p3: "prepares env vw cok st e e3" using prepares_trans [OF p2] o by blast
  obtain sh d where sd: "s = Inr (Some (sh, d))" and f: "finish_block env ctx st (LastBlockHeight st + 1) sh d e3 = (r, e')"
    using p q q' l st s \<open>ctx_Err ctx = None\<close> \<open>\<not> b\<close> n p3
    by (auto simp: ProduceBlock_def Let_def split: sum.splits option.splits)
  have inv3: "exec_inv env vw cok st e3" using p3 by (simp add: prepares_def)
  then show False
    using finish_block_outcome [OF ok codecs g top inv3 _ f] o sd n p3 prepares_view [OF ok inv3] prepares_trans [OF p3]
      lp s1 by blast
qed

end


section \<open>Restarting\<close>

text \<open>A replay, and the start of the producer, may write the states of the chain again: same tips, same
  blocks, same metadata.\<close>

definition retold :: "('db, 'pk) store_env \<Rightarrow> ('db \<Rightarrow> view) \<Rightarrow> 'db \<Rightarrow> 'db \<Rightarrow> bool" where
  "retold env vw db db' \<longleftrightarrow>
     (\<forall>e. entry_wf e \<and> (\<forall>h. e \<noteq> EState h) \<longrightarrow> entry_of env vw db' e = entry_of env vw db e) \<and>
     (\<forall>h s. GetStateAtHeight env db h = Inr s \<longrightarrow> (\<exists>s'. GetStateAtHeight env db' h = Inr s' \<and> tip s' = tip s))"

lemma retold_refl [simp]: "retold env vw db db"
  by (simp add: retold_def)

lemma retold_trans: "retold env vw a b \<Longrightarrow> retold env vw b c \<Longrightarrow> retold env vw a c"
  unfolding retold_def by (metis (full_types))

lemma retold_view: "store_ok env vw \<Longrightarrow> vw db' = vw db \<Longrightarrow> retold env vw db db'"
  unfolding retold_def by (auto simp: entry_of_def GetStateAtHeight_iff)

lemma retold_state:
  "retold env vw db db' \<Longrightarrow> GetStateAtHeight env db h = Inr s \<Longrightarrow> \<exists>s'. GetStateAtHeight env db' h = Inr s' \<and> tip s' = tip s"
  unfolding retold_def by blast

lemma retold_reads:
  assumes "store_ok env vw" and "retold env vw db db'"
  shows "Height env db' = Height env db" and "GetBlockData env db' h = Inr b \<longleftrightarrow> GetBlockData env db h = Inr b"
    and "same_pending env vw db db'"
proof -
  have e: "entry_of env vw db' e = entry_of env vw db e" if "entry_wf e" "\<forall>h. e \<noteq> EState h" for e
    using assms(2) that by (simp add: retold_def)
  show "Height env db' = Height env db" by (simp add: Height_iff [OF assms(1)] e)
  show "GetBlockData env db' h = Inr b \<longleftrightarrow> GetBlockData env db h = Inr b"
    by (cases b) (simp add: GetBlockData_iff [OF assms(1)] GetHeader_iff [OF assms(1)] e)
  show "same_pending env vw db db'" by (simp add: same_pending_def e)
qed

lemma linked_retold:
  assumes ok: "store_ok (xstore env) vw" and r: "retold (xstore env) vw db db'" and l: "linked env db h"
  shows "linked env db' h"
proof -
  obtain prev sh d st' where p: "GetStateAtHeight (xstore env) db (h - 1) = Inr prev"
    "GetBlockData (xstore env) db h = Inr (sh, d)" "GetStateAtHeight (xstore env) db h = Inr st'" "follows env prev sh d st'"
    "Header_Height (shHeader sh) = h" using l by (auto simp: linked_def)
  obtain prev1 where p1: "GetStateAtHeight (xstore env) db' (h - 1) = Inr prev1" "tip prev1 = tip prev"
    using retold_state [OF r p(1)] by blast
  obtain st1 where s1: "GetStateAtHeight (xstore env) db' h = Inr st1" "tip st1 = tip st'"
    using retold_state [OF r p(3)] by blast
  have "follows env prev1 sh d st1" using p(4) follows_tip [OF p1(2) s1(2), of env sh d] by blast
  then show ?thesis using p1(1) s1(1) p(2,5) retold_reads(2) [OF ok r] by (auto simp: linked_def)
qed

lemma chain_ok_retold:
  assumes ok: "store_ok (xstore env) vw" and r: "retold (xstore env) vw db db'" and c: "chain_ok env vw db st"
  shows "chain_ok env vw db' st"
proof -
  obtain s where s: "GetStateAtHeight (xstore env) db (LastBlockHeight st) = Inr s" "tip s = tip st"
    using c by (auto simp: chain_ok_def)
  then obtain s' where "GetStateAtHeight (xstore env) db' (LastBlockHeight st) = Inr s'" "tip s' = tip st"
    using retold_state [OF r] by metis
  moreover have "entry_of (xstore env) vw db' (EHeader h) = entry_of (xstore env) vw db (EHeader h)" for h
    using r by (simp add: retold_def)
  ultimately show ?thesis
    using c linked_retold [OF ok r] retold_reads(1) [OF ok r] by (simp add: chain_ok_def)
qed

lemma chain_ok_tip: "tip s = tip st \<Longrightarrow> chain_ok env vw db s = chain_ok env vw db st"
  by (simp add: chain_ok_def tip_def)

lemma state_ok_tip: "tip s = tip st \<Longrightarrow> state_ok env s = state_ok env st"
  by (simp add: state_ok_def tip_def state_time_ok_def)

lemma pending_fits_tip: "tip s = tip st \<Longrightarrow> pending_fits env db s = pending_fits env db st"
  using fits_tip [of s st env] by (simp add: pending_fits_def tip_def)

text \<open>Writing a state again that has the tip of the stored one.\<close>

lemma persist_retold:
  assumes ok: "store_ok env vw" and codecs: "codecs_ok (tenv env)" and t: "state_time_ok s"
    and s: "GetStateAtHeight env db (LastBlockHeight s) = Inr s0" "tip s = tip s0"
    and p: "persist_state env db s = (r, db')"
  shows "retold env vw db db'"
proof (cases r)
  case None
  note p = p [unfolded None]
  obtain sb where e: "\<And>e. entry_wf e \<Longrightarrow> entry_of env vw db' e =
      (if e = EState (LastBlockHeight s) then Some sb else entry_of env vw db e)"
    using persist_state_entries [OF ok p] by blast
  have "\<exists>s'. GetStateAtHeight env db' h = Inr s' \<and> tip s' = tip q" if "GetStateAtHeight env db h = Inr q" for h q
    using that s persist_state_reads(1,2) [OF ok codecs t p] by (cases "h = LastBlockHeight s") auto
  then show ?thesis by (auto simp: retold_def e)
next
  case (Some er)
  then show ?thesis using persist_state_error [OF ok] p retold_view [OF ok] by blast
qed

lemma chain_range:
  assumes ok: "store_ok (xstore env) vw" and ch: "chain_ok env vw db st" and b: "GetBlockData (xstore env) db h = Inr (sh, d)"
  shows "gInitialHeight (xgenesis env) \<le> h" and "h \<le> LastBlockHeight st"
proof -
  have "entry_of (xstore env) vw db (EHeader h) \<noteq> None"
    using b by (auto simp: GetBlockData_iff [OF ok] GetHeader_iff [OF ok])
  then show "gInitialHeight (xgenesis env) \<le> h" "h \<le> LastBlockHeight st"
    using ch unfolding chain_ok_def by (metis not_le)+
qed

lemma replayBlock_retold:
  assumes ok: "store_ok (xstore env) vw" and codecs: "codecs_ok (tenv (xstore env))"
    and ch: "chain_ok env vw db st"
    and r: "replayBlock (xstore env) ops (xgenesis env) h (x, db) = (q, x', db')"
  shows "retold (xstore env) vw db db'"
proof (cases "\<exists>sh d. GetBlockData (xstore env) db h = Inr (sh, d)")
  case False
  then have "db' = db"
    using r by (cases "GetBlockData (xstore env) db h") (auto simp: replayBlock_def)
  then show ?thesis by simp
next
  case True
  then obtain sh d where b: "GetBlockData (xstore env) db h = Inr (sh, d)" by blast
  then have "linked env db h" using ch chain_range [OF ok ch b] by (simp add: chain_ok_def)
  then obtain prev st' where p: "GetStateAtHeight (xstore env) db (h - 1) = Inr prev"
    "GetStateAtHeight (xstore env) db h = Inr st'" "follows env prev sh d st'" "Header_Height (shHeader sh) = h"
    using b by (auto simp: linked_def)
  show ?thesis
  proof (cases "db' = db")
    case True
    then show ?thesis by simp
  next
    case False
    obtain pv where pv: "replay_prev (xstore env) (xgenesis env) db h (shHeader sh) = Inr pv"
      using r False by (auto simp: replayBlock_def b split: sum.splits)
    then obtain ap where ap: "ap = sAppHash st'"
      "persist_state (xstore env) db (NextState (tenv (xstore env)) pv (shHeader sh) ap) = (q, db')"
      using r False p(2) by (auto simp: replayBlock_def b split: sum.splits prod.splits if_splits)
    have "sChainID pv = gChainID (xgenesis env)"
      using pv p by (auto simp: replay_prev_def replay_genesis_def follows_def Let_def split: if_splits)
    then have tp: "tip (NextState (tenv (xstore env)) pv (shHeader sh) ap) = tip st'"
      using p(3) by (simp add: tip_def follows_def Let_def ap(1))
    show ?thesis
      using persist_retold [OF ok codecs NextState_time_ok _ tp ap(2)] p(2,4) by simp
  qed
qed


lemma SyncToHeight_retold:
  assumes ok: "store_ok (xstore env) vw" and codecs: "codecs_ok (tenv (xstore env))"
    and ch: "chain_ok env vw db st" and top: "LastBlockHeight st < - 1"
    and r: "SyncToHeight (xstore env) ops (xgenesis env) x db target = Some (q, x', db')"
  shows "retold (xstore env) vw db db'"
proof (cases "\<exists>b lo. GetBlockData (xstore env) db target = Inr b \<and>
    map_option snd (for_u64 (replay_body (xstore env) ops (xgenesis env)) lo target (None, x, db)) = Some (q, x', db')")
  case True
  then obtain b lo where b: "GetBlockData (xstore env) db target = Inr b"
    and l: "map_option snd (for_u64 (replay_body (xstore env) ops (xgenesis env)) lo target (None, x, db)) = Some (q, x', db')"
    by blast
  have "target \<le> LastBlockHeight st"
    using chain_range(2) [OF ok ch] b by (cases b) simp
  then have t: "target < - 1" using top by simp
  obtain goon where e: "each_until (replay_body (xstore env) ops (xgenesis env)) (u64_upto lo target) (None, x, db) = (goon, q, x', db')"
    using l by (cases "each_until (replay_body (xstore env) ops (xgenesis env)) (u64_upto lo target) (None, x, db)")
      (auto simp: for_u64_eq [OF t])
  let ?P = "\<lambda>s. retold (xstore env) vw db (snd (snd s))"
  have step: "?P s'" if "?P s" "replay_body (xstore env) ops (xgenesis env) h s = (goon, s')" for h s goon s'
  proof -
    obtain r1 x1 d1 where s: "s = (r1, x1, d1)" by (cases s)
    obtain r2 x2 d2 where rb: "replayBlock (xstore env) ops (xgenesis env) h (x1, d1) = (r2, x2, d2)" by (metis prod_cases3)
    have "retold (xstore env) vw db d1" using that(1) s by simp
    moreover have "retold (xstore env) vw d1 d2"
      using replayBlock_retold [OF ok codecs chain_ok_retold [OF ok calculation ch] rb] .
    moreover have "snd (snd s') = d2" using that(2) unfolding s replay_body_def prod.case rb by (cases r2) auto
    ultimately show ?thesis using retold_trans [of "xstore env" vw db d1 d2] by simp
  qed
  have "?P (q, x', db')" by (rule each_until_inv [where P = ?P, OF step _ e]) simp_all
  then show ?thesis by simp
next
  case False
  have "db' = db"
  proof (rule ccontr)
    assume n: "db' \<noteq> db"
    obtain latest where l: "x_GetLatestHeight ops = Some latest" "\<not> target < gInitialHeight (xgenesis env)"
      using r n by (cases "x_GetLatestHeight ops") (auto simp: SyncToHeight_def split: if_splits)
    obtain eh where eh: "latest x = Inr eh" using r n l by (cases "latest x") (auto simp: SyncToHeight_def)
    have "eh < target"
      using r n l eh by (auto simp: SyncToHeight_def split: if_splits option.splits prod.splits)
    note l = l eh this less_not_sym [OF this]
    then obtain b where "GetBlockData (xstore env) db target = Inr b"
      using r n by (cases "GetBlockData (xstore env) db target") (simp_all add: SyncToHeight_def)
    moreover from this have "map_option snd (for_u64 (replay_body (xstore env) ops (xgenesis env)) (eh + 1) target (None, x, db)) =
        Some (q, x', db')" using r l by (simp add: SyncToHeight_def)
    ultimately show False using False by blast
  qed
  then show ?thesis by simp
qed

lemma store_initial_retold:
  assumes ok: "store_ok env vw" and codecs: "codecs_ok (tenv env)" and t: "state_time_ok s"
    and s: "Height env db = Inr (LastBlockHeight s)" "GetStateAtHeight env db (LastBlockHeight s) = Inr s"
    and p: "store_initial env db s = (r, db')"
  shows "retold env vw db db'"
proof -
  have "\<exists>q. persist_state env db s = (q, db')"
    using p s(1) by (auto simp: store_initial_def persist_state_def SetHeight_def split: sum.splits prod.splits option.splits)
  then show ?thesis using persist_retold [OF ok codecs t s(2) refl] by blast
qed

lemma migrate_none:
  assumes ok: "store_ok (xstore env) vw" and ch: "chain_ok env vw db st" and top: "LastBlockHeight s < - 1"
    and s: "tip s = tip st" and m: "migrateLegacyPendingBlock (xstore env) db s = (r, db')"
  shows "db' = db"
proof -
  have "LastBlockHeight st < LastBlockHeight s + 1"
    using s unat_u64_Suc [OF top] by (simp add: tip_def word_less_nat_alt)
  then have n: "entry_of (xstore env) vw db (EHeader (LastBlockHeight s + 1)) = None" using ch by (simp add: chain_ok_def)
  obtain er where "GetBlockData (xstore env) db (LastBlockHeight s + 1) = Inl er"
    using n by (cases "GetBlockData (xstore env) db (LastBlockHeight s + 1)")
      (auto simp: GetBlockData_iff [OF ok] GetHeader_iff [OF ok])
  then show ?thesis using m by (auto simp: migrateLegacyPendingBlock_def Let_def split: if_splits)
qed


text \<open>A database that holds a chain the producer can go on with.\<close>

definition db_ok :: "('db, 'pk, 'x, 's, 'c, 'r) exec_env \<Rightarrow> ('db \<Rightarrow> view) \<Rightarrow> State \<Rightarrow> 'db \<Rightarrow> bool" where
  "db_ok env vw st db \<longleftrightarrow> state_ok env st \<and> chain_ok env vw db st \<and> pending_fits env db st"

lemma db_ok_tip: "tip s = tip st \<Longrightarrow> db_ok env vw s db = db_ok env vw st db"
  using state_ok_tip [of s st env] chain_ok_tip [of s st env vw db] pending_fits_tip [of s st env db] by (simp add: db_ok_def)

lemma db_ok_retold:
  assumes "store_ok (xstore env) vw" and "db_ok env vw st db" and "retold (xstore env) vw db db'"
  shows "db_ok env vw st db'"
  using assms chain_ok_retold [OF assms(1,3)] pending_fits_same [OF assms(1) retold_reads(3) [OF assms(1,3)]]
  by (simp add: db_ok_def)

lemma exec_inv_db_ok: "exec_inv env vw cok st e \<Longrightarrow> db_ok env vw st (edb e)"
  by (simp add: exec_inv_def db_ok_def)

lemma core_start:
  "check_raft env s e = (r, e') \<Longrightarrow> core e' = core e"
  "sync_target env s e = (t, e') \<Longrightarrow> core e' = core e"
  "set_final_at_start env t e = (r, e') \<Longrightarrow> core e' = core e"
  "check_after_replay env e = (r, e') \<Longrightarrow> core e' = core e"
  by (auto simp: core_def check_raft_def sync_target_def set_final_at_start_def check_after_replay_def sendCriticalError_def
      split: option.splits prod.splits if_splits)

text \<open>The parts of \<open>core\<close> a start goes through: the database and the rest.\<close>

lemma replay_layer_retold:
  assumes ok: "store_ok (xstore env) vw" and codecs: "codecs_ok (tenv (xstore env))"
    and ch: "chain_ok env vw (edb e) st" and top: "LastBlockHeight st < - 1"
    and r: "replay_layer env t e = Some (q, e')"
  shows "\<exists>db. core e' = core (e\<lparr>edb := db\<rparr>) \<and> retold (xstore env) vw (edb e) db"
proof -
  obtain q1 x db where s: "SyncToHeight (xstore env) (xexec env) (xgenesis env) (elayer e) (edb e) t = Some (q1, x, db)"
    using r by (auto simp: replay_layer_def split: option.splits)
  obtain q2 e2 where f: "set_final_at_start env t (e\<lparr>elayer := x, edb := db\<rparr>) = (q2, e2)" by fastforce
  obtain q3 e3 where a: "check_after_replay env e2 = (q3, e3)" by fastforce
  have "core e2 = core (e\<lparr>edb := db\<rparr>)" "core e3 = core e2"
    using core_start(3) [OF f] core_start(4) [OF a] by (simp_all add: core_def)
  moreover have "core (sendCriticalError env er (e\<lparr>elayer := x, edb := db\<rparr>)) = core (e\<lparr>edb := db\<rparr>)" for er
    by (simp add: core_steps(1)) (simp add: core_def)
  ultimately have "core e' = core (e\<lparr>edb := db\<rparr>)"
    using r s f a by (auto simp: replay_layer_def split: option.splits)
  then show ?thesis using SyncToHeight_retold [OF ok codecs ch top s] by blast
qed

lemma warm_cache_hash:
  assumes "chain_ok env vw (edb e) st" and "tip s = tip st" and "gInitialHeight (xgenesis env) \<le> LastBlockHeight st"
    and "lastInfo e = None" and "lastInfo (warm_cache env s e) = Some i"
  shows "lbHeaderHash i = sLastHeaderHash s"
proof -
  have "linked env (edb e) (LastBlockHeight st)" using assms(1,3) by (simp add: chain_ok_def)
  then obtain prev sh d st' where l: "GetBlockData (xstore env) (edb e) (LastBlockHeight st) = Inr (sh, d)"
    "GetStateAtHeight (xstore env) (edb e) (LastBlockHeight st) = Inr st'" "follows env prev sh d st'"
    by (auto simp: linked_def)
  have "tip st' = tip st" using assms(1) l(2) by (simp add: chain_ok_def)
  then have "sLastHeaderHash s = Header_Hash (tenv (xstore env)) (shHeader sh)"
    using l(3) assms(2) by (simp add: follows_def Let_def tip_def)
  then show ?thesis using l(1) assms(2,4,5) by (auto simp: warm_cache_def tip_def split: if_splits)
qed

lemma core_warm:
  "\<exists>p i. core (warm_cache env s (mark_pending env e)) = (edb e, ecache e, lastState e, p, i) \<and>
     lastInfo (mark_pending env e) = lastInfo e \<and> edb (mark_pending env e) = edb e"
  by (auto simp: core_def warm_cache_def mark_pending_def split: sum.splits prod.splits)

text \<open>A start, once the state is loaded: it stores the state, and if all goes well it goes on from there.\<close>

lemma initializeState_loaded:
  assumes ok: "store_ok (xstore env) vw" and codecs: "codecs_ok (tenv (xstore env))" and top: "LastBlockHeight s < - 1"
    and ls: "load_state env e = (Inr s, e1)" "core e1 = core e" and fresh: "lastInfo e = None" "cok (ecache e)"
    and si: "store_initial (xstore env) (edb e) s = (q4, db4)" "q4 = None \<Longrightarrow> db_ok env vw s db4"
    and i: "initializeState env e = Some (r, e')"
  shows "r \<noteq> None \<and> (edb e' = edb e \<or> edb e' = db4) \<or>
    q4 = None \<and> retold (xstore env) vw db4 (edb e') \<and> (r = None \<longrightarrow> exec_inv env vw cok s e')"
proof -
  obtain q2 e2 where cr: "check_raft env s e1 = (q2, e2)" by fastforce
  define e3 where "e3 = setLastState s (e2\<lparr>eseq := q_SetDAHeight (xseq env) (eseq e2) (sDAHeight s)\<rparr>)"
  have c3: "core e3 = (edb e, ecache e, Some s, hasPendingBlock e, None)" and e3: "edb e3 = edb e" "edb e2 = edb e"
    using core_start(1) [OF cr] ls(2) fresh(1) by (simp_all add: core_def e3_def setLastState_def)
  obtain q5 db5 where mg: "migrateLegacyPendingBlock (xstore env) db4 s = (q5, db5)" by fastforce
  define e5 where "e5 = warm_cache env s (mark_pending env (e3\<lparr>edb := db5\<rparr>))"
  obtain tg e6 where st: "sync_target env s e5 = (tg, e6)" by fastforce
  have run: "initializeState env e = (case q2 of Some err \<Rightarrow> Some (Some err, e2) | None \<Rightarrow>
      (case q4 of Some err \<Rightarrow> Some (Some err, e3\<lparr>edb := db4\<rparr>) | None \<Rightarrow>
      (case q5 of Some err \<Rightarrow> Some (Some (Wrap ''failed to migrate legacy pending block'' err), e3\<lparr>edb := db5\<rparr>)
       | None \<Rightarrow> replay_layer env tg e6)))"
    unfolding initializeState_def ls(1) prod.case sum.case cr Let_def e3_def [symmetric] e3(1) si(1) mg e5_def [symmetric] st ..
  show ?thesis
  proof (cases "q2 = None \<and> q4 = None")
    case False
    then have "r \<noteq> None \<and> (edb e' = edb e \<or> edb e' = db4)"
      using i e3(2) unfolding run by (cases q2; cases q4; auto)
    then show ?thesis by blast
  next
    case True
    then have dbs: "db_ok env vw s db4" using si(2) by simp
    then have ch4: "chain_ok env vw db4 s" by (simp add: db_ok_def)
    have m: "db5 = db4" using migrate_none [OF ok ch4 top refl mg] .
    show ?thesis
    proof (cases q5)
      case (Some er)
      then show ?thesis using i True m unfolding run by auto
    next
      case None
      have rl: "replay_layer env tg e6 = Some (r, e')" using i True None unfolding run by simp
      obtain p li where c5: "core e5 = (db4, ecache e, Some s, p, li)" "lastInfo (mark_pending env (e3\<lparr>edb := db4\<rparr>)) = None"
        "edb (mark_pending env (e3\<lparr>edb := db4\<rparr>)) = db4"
        using core_warm [of env s "e3\<lparr>edb := db4\<rparr>"] c3 unfolding e5_def [unfolded m, symmetric] by (auto simp: core_def)
      have hash: "\<forall>i. lastInfo e5 = Some i \<longrightarrow> lbHeaderHash i = sLastHeaderHash s"
        if "gInitialHeight (xgenesis env) \<le> LastBlockHeight s"
        using warm_cache_hash [of env vw "mark_pending env (e3\<lparr>edb := db4\<rparr>)" s s] ch4 that c5(2,3) by (simp add: e5_def m)
      have c6: "core e6 = core e5" using core_start(2) [OF st] .
      obtain db7 where c7: "core e' = core (e6\<lparr>edb := db7\<rparr>)" "retold (xstore env) vw db4 db7"
        using replay_layer_retold [OF ok codecs _ top rl] ch4 c5(1) c6 by (auto simp: core_def)
      have "exec_inv env vw cok s e'"
        using db_ok_retold [OF ok dbs c7(2)] c5(1) c6 c7(1) hash fresh(2) by (simp add: exec_inv_def db_ok_def core_def)
      then show ?thesis using True c7 by (simp add: core_def)
    qed
  qed
qed

text \<open>A start from a chain that is there: the invariant is established on success, and whatever happens the
  database still holds the chain.\<close>

lemma initializeState_restart:
  assumes ok: "store_ok (xstore env) vw" and codecs: "codecs_ok (tenv (xstore env))" and top: "LastBlockHeight st < - 1"
    and db: "db_ok env vw st (edb e)" and fresh: "lastInfo e = None" "cok (ecache e)"
    and i: "initializeState env e = Some (r, e')"
  shows "retold (xstore env) vw (edb e) (edb e') \<and>
    (r = None \<longrightarrow> (\<exists>s. tip s = tip st \<and> exec_inv env vw cok s e'))"
proof -
  have ch: "chain_ok env vw (edb e) st" and sok: "state_ok env st" using db by (simp_all add: db_ok_def)
  obtain s where gs: "GetStateAtHeight (xstore env) (edb e) (LastBlockHeight st) = Inr s" and s: "tip s = tip st"
    using ch by (auto simp: chain_ok_def)
  have H: "Height (xstore env) (edb e) = Inr (LastBlockHeight st)" using ch by (simp add: chain_ok_def)
  have L: "LastBlockHeight s = LastBlockHeight st" "state_time_ok s"
    using s sok state_ok_tip [OF s, of env] by (simp_all add: tip_def state_ok_def)
  have ls: "load_state env e = (Inr s, e)"
    using GetState_iff [OF ok, of "edb e" s] H gs by (simp add: load_state_def)
  obtain q4 db4 where si: "store_initial (xstore env) (edb e) s = (q4, db4)" by fastforce
  have r4: "retold (xstore env) vw (edb e) db4"
    using store_initial_retold [OF ok codecs L(2) _ _ si] H gs L(1) by simp
  have "db_ok env vw s db4" using db_ok_retold [OF ok db r4] db_ok_tip [OF s, of env vw db4] by simp
  then show ?thesis
    using initializeState_loaded [where cok = cok, OF ok codecs _ ls refl fresh si _ i] top L(1) s r4 retold_trans [OF r4] by auto
qed

text \<open>A start from a store with nothing in it.\<close>

definition blank :: "('db, 'pk) store_env \<Rightarrow> ('db \<Rightarrow> view) \<Rightarrow> 'db \<Rightarrow> bool" where
  "blank env vw db \<longleftrightarrow> (\<forall>e. entry_wf e \<longrightarrow> entry_of env vw db e = None)"

lemma store_initial_entries:
  assumes ok: "store_ok env vw" and H: "Height env db = Inr cur" and p: "store_initial env db s = (None, db')"
  shows "\<exists>sb. enc (c_state (cds (tenv env))) (State_ToProto s) = Inr sb \<and>
    (\<forall>e. entry_wf e \<longrightarrow> entry_of env vw db' e = (if e = EState (LastBlockHeight s) then Some sb
       else if e = EHeight \<and> cur < LastBlockHeight s then Some (put_le64 (LastBlockHeight s)) else entry_of env vw db e))"
proof -
  obtain b b1 b2 where b: "NewBatch env db = Inr b" "SetHeight env db b (LastBlockHeight s) = Inr b1"
    "UpdateState env db b1 s = Inr b2" "Commit env db b2 = (None, db')"
    using p by (auto simp: store_initial_def split: sum.splits prod.splits option.splits)
  have "b = []" using b(1) by (simp add: NewBatch_def split: option.splits)
  then have b1: "b1 = (if cur < LastBlockHeight s then [DsPut (entry_key env EHeight) (put_le64 (LastBlockHeight s))] else [])"
    using SetHeight_Inr [OF b(2) H] by simp
  obtain sb where sb: "enc (c_state (cds (tenv env))) (State_ToProto s) = Inr sb"
    "b2 = b1 @ [DsPut (entry_key env (EState (LastBlockHeight s))) sb]" using UpdateState_Inr [OF b(3)] by blast
  have "entry_of env vw db' e = (if e = EState (LastBlockHeight s) then Some sb
       else if e = EHeight \<and> cur < LastBlockHeight s then Some (put_le64 (LastBlockHeight s)) else entry_of env vw db e)"
    if "entry_wf e" for e
    using Commit_entry(1) [OF store_okD(1) [OF ok] b(4), of e] that
    by (simp add: sb(2) b1 entry_key_inject [OF store_okD(2) [OF ok]] entry_of_def)
  then show ?thesis using sb(1) by blast
qed

lemma store_initial_error:
  assumes "store_ok env vw" and "store_initial env db s = (Some e, db')"
  shows "vw db' = vw db"
  using assms Commit_entry(2) [OF store_okD(1) [OF assms(1)]]
  by (auto simp: store_initial_def split: sum.splits prod.splits option.splits)

lemma genesis_db_ok:
  assumes ok: "store_ok (xstore env) vw" and codecs: "codecs_ok (tenv (xstore env))"
    and g: "0 < gInitialHeight (xgenesis env)" and t: "state_time_ok s" and b: "blank (xstore env) vw db"
    and s: "s = initial_state (xgenesis env) root" and i: "store_initial (xstore env) db s = (None, db')"
  shows "db_ok env vw s db'"
proof -
  have H: "Height (xstore env) db = Inr 0" using b by (simp add: Height_iff [OF ok] blank_def)
  obtain sb where sb: "enc (c_state (cds (tenv (xstore env)))) (State_ToProto s) = Inr sb"
    and e: "\<And>e. entry_wf e \<Longrightarrow> entry_of (xstore env) vw db' e = (if e = EState (LastBlockHeight s) then Some sb
       else if e = EHeight \<and> 0 < LastBlockHeight s then Some (put_le64 (LastBlockHeight s)) else None)"
    using store_initial_entries [OF ok H i] b by (auto simp: blank_def)
  have "decode_state (xstore env) sb = Inr s"
    using codec_okD [OF codecs_okD(10) [OF codecs(1)] _ sb] State_FromProto_ToProto [OF t] by (simp add: decode_state_def)
  then have S: "GetStateAtHeight (xstore env) db' (LastBlockHeight s) = Inr s" by (simp add: GetStateAtHeight_iff [OF ok] e)
  have L: "unat (LastBlockHeight s) + 1 = unat (gInitialHeight (xgenesis env))"
    using unat_u64_pred [OF g] g by (simp add: s initial_state_def word_less_nat_alt)
  have "Height (xstore env) db' = Inr (LastBlockHeight s)"
    by (simp add: Height_iff [OF ok] e decodeHeight_def heightLength_def word_gt_0)
  moreover have "\<not> (gInitialHeight (xgenesis env) \<le> h \<and> h \<le> LastBlockHeight s)" for h
    using L by (auto simp: word_le_nat_alt)
  ultimately have "chain_ok env vw db' s" using S by (auto simp: chain_ok_def e)
  moreover have "getPendingBlock (xstore env) db' \<noteq> Inr (Some x)" for x
    by (cases x) (simp add: getPendingBlock_iff [OF ok] e)
  then have "pending_fits env db' s" by (simp add: pending_fits_def)
  moreover have "sChainID s = gChainID (xgenesis env)" "sLastHeaderHash s = []" by (simp_all add: s initial_state_def)
  then have "state_ok env s" using L t by (simp add: state_ok_def)
  ultimately show ?thesis by (simp add: db_ok_def)
qed

lemma initializeState_blank:
  assumes ok: "store_ok (xstore env) vw" and codecs: "codecs_ok (tenv (xstore env))"
    and g: "0 < gInitialHeight (xgenesis env)" and t: "\<And>root. state_time_ok (initial_state (xgenesis env) root)"
    and db: "blank (xstore env) vw (edb e)" and fresh: "lastInfo e = None" "cok (ecache e)"
    and i: "initializeState env e = Some (r, e')"
  shows "r \<noteq> None \<and> blank (xstore env) vw (edb e') \<or>
    (\<exists>root. db_ok env vw (initial_state (xgenesis env) root) (edb e') \<and>
       (r = None \<longrightarrow> exec_inv env vw cok (initial_state (xgenesis env) root) e'))"
proof -
  have H: "Height (xstore env) (edb e) = Inr 0" using db by (simp add: Height_iff [OF ok] blank_def)
  have "GetState (xstore env) (edb e) \<noteq> Inr s" for s
    using db by (simp add: GetState_iff [OF ok] GetStateAtHeight_iff [OF ok] blank_def)
  then obtain er where er: "GetState (xstore env) (edb e) = Inl er" by (cases "GetState (xstore env) (edb e)") auto
  obtain c x where x: "x_InitChain (xexec env) (elayer e) (StartTime (xgenesis env)) (gInitialHeight (xgenesis env))
      (gChainID (xgenesis env)) = (c, x)" by fastforce
  show ?thesis
  proof (cases c)
    case (Inl er2)
    then have "r \<noteq> None \<and> edb e' = edb e"
      using i er x by (auto simp: initializeState_def load_state_def Let_def sendCriticalError_def split: option.splits if_splits)
    then show ?thesis using db by simp
  next
    case (Inr root)
    define s where "s = initial_state (xgenesis env) root"
    have ls: "load_state env e = (Inr s, e\<lparr>elayer := x\<rparr>)" using er x Inr by (simp add: load_state_def s_def)
    have c: "core (e\<lparr>elayer := x\<rparr>) = core e" by (simp add: core_def)
    obtain q4 db4 where si: "store_initial (xstore env) (edb e) s = (q4, db4)" by fastforce
    have d4: "db_ok env vw s db4" if "q4 = None"
      using genesis_db_ok [OF ok codecs g _ db s_def] si that t by (simp add: s_def)
    have "gInitialHeight (xgenesis env) - 1 < gInitialHeight (xgenesis env)"
      using g unat_u64_pred [OF g] by (simp add: word_less_nat_alt)
    then have top: "LastBlockHeight s < - 1"
      using order_less_le_trans [OF _ word_n1_ge] by (simp add: s_def initial_state_def)
    have b4: "blank (xstore env) vw db4" if "q4 \<noteq> None"
      using store_initial_error [OF ok] si that db by (cases q4) (simp_all add: blank_def entry_of_def)
    have o: "r \<noteq> None \<and> (edb e' = edb e \<or> edb e' = db4) \<or>
        q4 = None \<and> retold (xstore env) vw db4 (edb e') \<and> (r = None \<longrightarrow> exec_inv env vw cok s e')"
      by (rule initializeState_loaded [where cok = cok, OF ok codecs top ls c fresh si d4 i])
    show ?thesis
    proof (cases q4)
      case None
      have "db_ok env vw s d" if "retold (xstore env) vw db4 d" for d using db_ok_retold [OF ok d4 [OF None] that] .
      then show ?thesis using o d4 [OF None] db unfolding s_def by metis
    next
      case (Some er)
      then show ?thesis using o db b4 by auto
    qed
  qed
qed

end
