(* ===== verification/Node_Run.thy ===== *)
theory Node_Run
  imports Executor_Spec
begin

text \<open>
  The block-producing node as a state machine: it runs the loop of \<^verbatim>\<open>executionLoop\<close> over
  \<^verbatim>\<open>ProduceBlock\<close>, is told of transactions, is stopped, crashes, and is started again on the database it
  left, with an execution layer, a sequencer and a raft node in any state. The theory proves that along all
  these runs the chain in the store is only ever extended, one block that follows at a time, with the cache of
  blocks that wait for submission from \<^verbatim>\<open>src/block/internal/cache\<close> as the model has it.
\<close>

lemma unat_max_u64: "unat (- 1 :: u64) = 2 ^ 64 - 1"
  by transfer (simp add: take_bit_minus_one_eq_mask mask_eq_exp_minus_1)

lemma below_max_u64: "unat (x :: u64) + 1 < 2 ^ 64 \<Longrightarrow> x < - 1"
  using unat_max_u64 by (simp add: word_less_nat_alt)

section \<open>Stopping\<close>

lemma DeleteMetadata_entries:
  assumes "store_ok env vw" and "plain_key k" and "DeleteMetadata env db k = (r, db')" and e: "entry_wf e"
  shows "entry_of env vw db' e = (if r = None \<and> e = EMeta k then None else entry_of env vw db e)"
proof -
  have k: "ds_new_key (sds env) (GetMetaKey k) = entry_key env (EMeta k)"
    using new_entry_key [OF store_okD(1,2) [OF assms(1)], of "EMeta k"] assms(2) by (simp add: entry_keys(7) [where env = env])
  obtain q db1 where p: "ds_delete (sds env) db (entry_key env (EMeta k)) = (q, db1)" by fastforce
  have r: "(r = None \<longleftrightarrow> q = None) \<and> db' = db1"
    using assms(3) p by (auto simp: DeleteMetadata_def k split: option.splits)
  show ?thesis
  proof (cases q)
    case None
    then show ?thesis
      using r p datastore_deleteD(1) [OF store_okD(1) [OF assms(1)]] e assms(2)
      by (auto simp: entry_of_def entry_key_inject [OF store_okD(2) [OF assms(1)]])
  next
    case (Some er)
    then show ?thesis using r p datastore_deleteD(2) [OF store_okD(1) [OF assms(1)]] by (auto simp: entry_of_def)
  qed
qed

lemma deletePendingBlock_same:
  assumes ok: "store_ok env vw" and d: "deletePendingBlock env db = (r, db')"
  shows "same_chain env vw db db'"
    and "getPendingBlock env db' = Inr (Some x) \<Longrightarrow> getPendingBlock env db = Inr (Some x)"
proof -
  obtain q1 db1 where d1: "DeleteMetadata env db headerKey = (q1, db1)" by fastforce
  obtain q2 db2 where d2: "DeleteMetadata env db1 dataKey = (q2, db2)" by fastforce
  note e1 = DeleteMetadata_entries [OF ok _ d1] and e2 = DeleteMetadata_entries [OF ok _ d2]
  have r: "db' = (if q1 = None then db2 else db1)"
    using d d1 d2 by (auto simp: deletePendingBlock_def split: option.splits)
  show "same_chain env vw db db'" by (simp add: same_chain_def r e1 e2)
  show "getPendingBlock env db' = Inr (Some x) \<Longrightarrow> getPendingBlock env db = Inr (Some x)"
    by (cases x; cases q1) (simp_all add: getPendingBlock_iff [OF ok] r e1 e2)
qed

lemma Stop_db_ok:
  assumes ok: "store_ok (xstore env) vw" and inv: "exec_inv env vw cok st e"
  shows "db_ok env vw st (edb (Stop env e)) \<and> same_chain (xstore env) vw (edb e) (edb (Stop env e))"
proof (cases "hasPendingBlock e")
  case True
  then show ?thesis using exec_inv_db_ok [OF inv] by (simp add: Stop_def)
next
  case False
  obtain r db where d: "deletePendingBlock (xstore env) (edb e) = (r, db)" by fastforce
  have "pending_fits env db st"
    using inv deletePendingBlock_same(2) [OF ok d] by (auto simp: pending_fits_def exec_inv_def)
  then show ?thesis
    using False inv d deletePendingBlock_same(1) [OF ok d] chain_ok_same [OF ok deletePendingBlock_same(1) [OF ok d]]
    by (simp add: Stop_def db_ok_def exec_inv_def)
qed

section \<open>The node\<close>

datatype ('db, 'pk, 'x, 's, 'c, 'r) node =
    Running exec_loop "('db, 'pk, 'x, 's, 'c, 'r) Executor"
  | Down 'db

fun node_db :: "('db, 'pk, 'x, 's, 'c, 'r) node \<Rightarrow> 'db" where
  "node_db (Running l e) = edb e"
| "node_db (Down db) = db"

inductive node_step ::
  "('db, 'pk, 'x, 's, 'c, 'r) exec_env \<Rightarrow> ('c \<Rightarrow> bool) \<Rightarrow> ('db, 'pk, 'x, 's, 'c, 'r) node \<Rightarrow> ('db, 'pk, 'x, 's, 'c, 'r) node \<Rightarrow> bool"
  for env and cok where
  tick: "loop_step env ev (l, e) = Some (l', e') \<Longrightarrow> node_step env cok (Running l e) (Running l' e')"
| notify: "node_step env cok (Running l e) (Running l (NotifyNewTransactions e))"
| stop: "node_step env cok (Running l e) (Down (edb (Stop env e)))"
| crash: "node_step env cok (Running l e) (Down (edb e))"
| start: "NewExecutor env tr db x s c r = Inr e0 \<Longrightarrow> cok c \<Longrightarrow> Executor_Start env e0 = Some (None, e) \<Longrightarrow>
    node_step env cok (Down db) (Running (start_loop env t e) e)"
| start_fails: "NewExecutor env tr db x s c r = Inr e0 \<Longrightarrow> cok c \<Longrightarrow> Executor_Start env e0 = Some (Some err, e) \<Longrightarrow>
    node_step env cok (Down db) (Down (edb e))"

inductive_cases node_stepE: "node_step env cok a b"

fun node_ok ::
  "('db, 'pk, 'x, 's, 'c, 'r) exec_env \<Rightarrow> ('db \<Rightarrow> view) \<Rightarrow> ('c \<Rightarrow> bool) \<Rightarrow> State \<Rightarrow> ('db, 'pk, 'x, 's, 'c, 'r) node \<Rightarrow> bool" where
  "node_ok env vw cok st (Running l e) = exec_inv env vw cok st e"
| "node_ok env vw cok st (Down db) = db_ok env vw st db"

text \<open>The chain of \<open>db\<close>, up to the state \<open>st\<close>, is a prefix of the one of \<open>db'\<close>, which ends at most \<open>n\<close>
  blocks later.\<close>

definition chain_prefix ::
  "('db, 'pk, 'x, 's, 'c, 'r) exec_env \<Rightarrow> nat \<Rightarrow> State \<Rightarrow> 'db \<Rightarrow> State \<Rightarrow> 'db \<Rightarrow> bool" where
  "chain_prefix env n st db st' db' \<longleftrightarrow>
     unat (LastBlockHeight st) \<le> unat (LastBlockHeight st') \<and> unat (LastBlockHeight st') \<le> unat (LastBlockHeight st) + n \<and>
     (\<forall>h b. h \<le> LastBlockHeight st \<longrightarrow>
        (GetBlockData (xstore env) db' h = Inr b \<longleftrightarrow> GetBlockData (xstore env) db h = Inr b)) \<and>
     (\<forall>h s. h \<le> LastBlockHeight st \<longrightarrow> GetStateAtHeight (xstore env) db h = Inr s \<longrightarrow>
        (\<exists>s'. GetStateAtHeight (xstore env) db' h = Inr s' \<and> tip s' = tip s))"

lemma chain_prefix_trans:
  assumes "chain_prefix env n st db st1 db1" and "chain_prefix env m st1 db1 st2 db2"
  shows "chain_prefix env (n + m) st db st2 db2"
proof -
  have "LastBlockHeight st \<le> LastBlockHeight st1" using assms(1) by (simp add: chain_prefix_def word_le_nat_alt)
  then have le: "h \<le> LastBlockHeight st \<Longrightarrow> h \<le> LastBlockHeight st1" for h by (rule order_trans [rotated])
  have "\<exists>s'. GetStateAtHeight (xstore env) db2 h = Inr s' \<and> tip s' = tip s"
    if "h \<le> LastBlockHeight st" "GetStateAtHeight (xstore env) db h = Inr s" for h s
    using assms that le [of h] unfolding chain_prefix_def by metis
  moreover have "GetBlockData (xstore env) db2 h = Inr b \<longleftrightarrow> GetBlockData (xstore env) db h = Inr b"
    if "h \<le> LastBlockHeight st" for h b using assms that le [of h] unfolding chain_prefix_def by blast
  moreover have "unat (LastBlockHeight st) \<le> unat (LastBlockHeight st2)"
    "unat (LastBlockHeight st2) \<le> unat (LastBlockHeight st) + (n + m)" using assms by (simp_all add: chain_prefix_def)
  ultimately show ?thesis unfolding chain_prefix_def by blast
qed

lemma prefix_same:
  "store_ok (xstore env) vw \<Longrightarrow> same_chain (xstore env) vw db db' \<Longrightarrow> chain_prefix env n st db st db'"
  using same_chain_reads [of "xstore env" vw db db'] by (simp add: chain_prefix_def)

lemma prefix_retold:
  "store_ok (xstore env) vw \<Longrightarrow> retold (xstore env) vw db db' \<Longrightarrow> tip s = tip st \<Longrightarrow> chain_prefix env n st db s db'"
  using retold_reads(2) [of "xstore env" vw db db'] retold_state [of "xstore env" vw db db']
  by (simp add: chain_prefix_def tip_def)

lemma prefix_grown:
  assumes "grown env vw cok st db e' sh d st'" and "LastBlockHeight st < - 1"
  shows "chain_prefix env 1 st db st' (edb e')"
proof -
  have "LastBlockHeight st' = LastBlockHeight st + 1"
    using assms(1) by (simp add: grown_def follows_def fits_def Let_def)
  then show ?thesis using assms(1) unat_u64_Suc [OF assms(2)] by (simp add: grown_def chain_prefix_def)
qed

lemma NewExecutor_fields:
  "NewExecutor env tr db x s c r = Inr e \<Longrightarrow> edb e = db \<and> ecache e = c \<and> lastInfo e = None"
  by (auto simp: NewExecutor_def split: option.splits)

lemma Executor_Start_init:
  assumes "Executor_Start env e0 = Some (r, e)"
  shows "\<exists>q. initializeState env e0 = Some (q, e) \<and> (r = None \<longleftrightarrow> q = None)"
  using assms by (auto simp: Executor_Start_def split: option.splits)

lemma exec_inv_notify: "exec_inv env vw cok st (NotifyNewTransactions e) = exec_inv env vw cok st e"
  "edb (NotifyNewTransactions e) = edb e"
  by (simp_all add: NotifyNewTransactions_def exec_inv_def)


context submission_cache
begin

lemma produce_prefix:
  assumes env: "xstore env = senv" "xcache env = ops" and ok: "store_ok (xstore env) vw"
    and codecs: "codecs_ok (tenv (xstore env))" "keys_roundtrip (tenv (xstore env))"
    and g: "0 < gInitialHeight (xgenesis env)" and top: "LastBlockHeight st < - 1"
    and inv: "exec_inv env vw cok st e" and p: "ProduceBlock env ctx e = Some (r, e')"
  shows "\<exists>st'. exec_inv env vw cok st' e' \<and> chain_prefix env 1 st (edb e) st' (edb e')"
  using ProduceBlock_outcome [OF env ok codecs g top inv p]
proof (elim disjE exE conjE)
  assume "prepares env vw cok st e e'"
  then show ?thesis using prefix_same [OF ok] by (auto simp: prepares_def)
next
  fix e1 sh d st'
  assume "prepares env vw cok st e e1" and gr: "grown env vw cok st (edb e1) e' sh d st'"
  then have "chain_prefix env 0 st (edb e) st (edb e1)" using prefix_same [OF ok] by (simp add: prepares_def)
  then have "chain_prefix env (0 + 1) st (edb e) st' (edb e')" using prefix_grown [OF gr top] by (rule chain_prefix_trans)
  then show ?thesis using gr by (auto simp: grown_def)
qed

lemma loop_prefix:
  assumes env: "xstore env = senv" "xcache env = ops" and ok: "store_ok (xstore env) vw"
    and codecs: "codecs_ok (tenv (xstore env))" "keys_roundtrip (tenv (xstore env))"
    and g: "0 < gInitialHeight (xgenesis env)" and top: "LastBlockHeight st < - 1"
    and inv: "exec_inv env vw cok st e" and p: "loop_step env ev (l, e) = Some (l', e')"
  shows "\<exists>st'. exec_inv env vw cok st' e' \<and> chain_prefix env 1 st (edb e) st' (edb e')"
proof (cases "\<exists>ctx r. ProduceBlock env ctx e = Some (r, e')")
  case True
  then show ?thesis using produce_prefix [OF env ok codecs g top inv] by blast
next
  case False
  then have "core e' = core e"
    using p by (cases ev) (auto simp: core_def split: if_splits option.splits)
  then have "exec_inv env vw cok st e'" "edb e' = edb e"
    using exec_inv_core [of e' e env vw cok st] inv by (simp, simp add: core_def)
  then show ?thesis using prefix_same [OF ok same_chain_refl] by auto
qed

lemma start_prefix:
  assumes ok: "store_ok (xstore env) vw" and codecs: "codecs_ok (tenv (xstore env))" and top: "LastBlockHeight st < - 1"
    and db: "db_ok env vw st db" and n: "NewExecutor env tr db x s c r = Inr e0" "cok c"
    and i: "Executor_Start env e0 = Some (q, e)"
  shows "db_ok env vw st (edb e) \<and> chain_prefix env 1 st db st (edb e) \<and>
    (q = None \<longrightarrow> (\<exists>s. exec_inv env vw cok s e \<and> chain_prefix env 1 st db s (edb e)))"
proof -
  obtain q1 where q: "initializeState env e0 = Some (q1, e)" "q = None \<longleftrightarrow> q1 = None"
    using Executor_Start_init [OF i] by blast
  have f: "edb e0 = db" "ecache e0 = c" "lastInfo e0 = None" using NewExecutor_fields [OF n(1)] by simp_all
  have "retold (xstore env) vw db (edb e) \<and> (q1 = None \<longrightarrow> (\<exists>s. tip s = tip st \<and> exec_inv env vw cok s e))"
    using initializeState_restart [where cok = cok, OF ok codecs top _ f(3) _ q(1)] db n(2) f by simp
  then show ?thesis using q(2) db_ok_retold [OF ok db] prefix_retold [OF ok] by blast
qed

lemma node_step_prefix:
  assumes env: "xstore env = senv" "xcache env = ops" and ok: "store_ok (xstore env) vw"
    and codecs: "codecs_ok (tenv (xstore env))" "keys_roundtrip (tenv (xstore env))"
    and g: "0 < gInitialHeight (xgenesis env)" and top: "LastBlockHeight st < - 1"
    and inv: "node_ok env vw cok st a" and s: "node_step env cok a b"
  shows "\<exists>st'. node_ok env vw cok st' b \<and> chain_prefix env 1 st (node_db a) st' (node_db b)"
  using s
proof cases
  case (tick ev l e l' e')
  then show ?thesis using loop_prefix [OF env ok codecs g top _ tick(3)] inv by simp
next
  case (notify l e)
  then show ?thesis using inv exec_inv_notify(1) [of env vw cok st e] exec_inv_notify(2) [of e] prefix_same [OF ok same_chain_refl] by auto
next
  case (stop l e)
  then show ?thesis using Stop_db_ok [OF ok, of cok st e] inv prefix_same [OF ok] by auto
next
  case (crash l e)
  then show ?thesis using inv exec_inv_db_ok [of env vw cok st e] prefix_same [OF ok same_chain_refl] by auto
next
  case (start tr db x s c r e0 e t)
  then show ?thesis using start_prefix [OF ok codecs(1) top _ start(3,4,5)] inv by auto
next
  case (start_fails tr db x s c r e0 err e)
  then show ?thesis using start_prefix [OF ok codecs(1) top _ start_fails(3,4,5)] inv by auto
qed

lemma node_run_prefix:
  assumes env: "xstore env = senv" "xcache env = ops" and ok: "store_ok (xstore env) vw"
    and codecs: "codecs_ok (tenv (xstore env))" "keys_roundtrip (tenv (xstore env))"
    and g: "0 < gInitialHeight (xgenesis env)"
    and inv: "node_ok env vw cok st a" and s: "(node_step env cok ^^ n) a b" and top: "unat (LastBlockHeight st) + n < 2 ^ 64"
  shows "\<exists>st'. node_ok env vw cok st' b \<and> chain_prefix env n st (node_db a) st' (node_db b)"
  using s top
proof (induction n arbitrary: b)
  case 0
  then show ?case using inv prefix_same [OF ok same_chain_refl] by auto
next
  case (Suc n)
  obtain c where c: "(node_step env cok ^^ n) a c" "node_step env cok c b" using Suc.prems(1) by auto
  obtain st1 where s1: "node_ok env vw cok st1 c" "chain_prefix env n st (node_db a) st1 (node_db c)"
    using Suc.IH [OF c(1)] Suc.prems(2) by auto
  have "unat (LastBlockHeight st1) + 1 < 2 ^ 64" using s1(2) Suc.prems(2) by (simp add: chain_prefix_def)
  then have "LastBlockHeight st1 < - 1" by (rule below_max_u64)
  then obtain st2 where s2: "node_ok env vw cok st2 b" "chain_prefix env 1 st1 (node_db c) st2 (node_db b)"
    using node_step_prefix [OF env ok codecs g _ s1(1) c(2)] by blast
  then show ?case using chain_prefix_trans [OF s1(2) s2(2)] by auto
qed

end


section \<open>The cache the node runs with\<close>

text \<open>\<^verbatim>\<open>PendingManager\<close> of \<^verbatim>\<open>src/block/internal/cache/manager.go\<close>, over the pending headers and data.\<close>

record ('l, 'm) pendings =
  pendingHeaders :: "'l pendingBase"
  pendingData :: "'m pendingBase"

definition pending_ops :: "('db, 'pk) store_env \<Rightarrow> (('l, 'm) pendings, 'db) cache_ops" where
  "pending_ops env = \<lparr>
     c_NumPendingHeaders = (\<lambda>c db. NumPendingHeaders env db (pendingHeaders c)),
     c_NumPendingData = (\<lambda>c db. (case NumPendingData env (pendingData c, db) of
        None \<Rightarrow> None | Some (n, pd, db') \<Rightarrow> Some (n, c\<lparr>pendingData := pd\<rparr>, db'))),
     c_GetLastSubmittedHeaderHeight = (\<lambda>c. getLastSubmittedHeight (pendingHeaders c)),
     c_GetLastSubmittedDataHeight = (\<lambda>c. getLastSubmittedHeight (pendingData c))\<rparr>"

definition pendings_ok :: "('l, 'm) pendings \<Rightarrow> bool" where
  "pendings_ok c \<longleftrightarrow> metaKey (pendingData c) = LastSubmittedDataHeightKey"

lemma submitted_key [simp]:
  "plain_key LastSubmittedDataHeightKey" "headerKey \<noteq> LastSubmittedDataHeightKey" "dataKey \<noteq> LastSubmittedDataHeightKey"
  by (simp_all add: LastSubmittedDataHeightKey_def plain_key_def headerKey_def dataKey_def)

interpretation pend: submission_cache env vw "pending_ops env" pendings_ok for env vw
proof
  fix c :: "('l, 'm) pendings" and db H n c' db'
  assume ok: "store_ok env vw" and c: "pendings_ok c" and H: "Height env db = Inr H" "H < - 1"
    and n: "c_NumPendingData (pending_ops env) c db = Some (n, c', db')"
  obtain pd where pd: "NumPendingData env (pendingData c, db) = Some (n, pd, db')" "c' = c\<lparr>pendingData := pd\<rparr>"
    using n by (auto simp: pending_ops_def split: option.splits)
  have k: "metaKey (pendingData c) = LastSubmittedDataHeightKey" using c by (simp add: pendings_ok_def)
  have s: "same_but env vw LastSubmittedDataHeightKey db db'" "metaKey pd = LastSubmittedDataHeightKey"
    using NumPendingData_same [OF ok _ pd(1) H] by (simp_all add: k)
  show "pendings_ok c' \<and> same_chain env vw db db' \<and> same_pending env vw db db'"
    using s same_but_chain [OF s(1)] pd(2) by (auto simp: pendings_ok_def same_pending_def same_but_def)
qed

end
