(* ===== verification/Executor_Live.thy ===== *)
theory Executor_Live
  imports Node_Run
begin

text \<open>
  That the block producer does produce: with a store, codecs, signer and execution layer that work, one call of
  \<^verbatim>\<open>ProduceBlock\<close> turns the next batch of the sequencer into the next block of the chain. The theory also holds
  the properties of the producer and of the runs of the node, and the concrete node of their witnesses.
\<close>

section \<open>What has to work\<close>

definition store_works :: "('db, 'pk) store_env \<Rightarrow> bool" where
  "store_works env \<longleftrightarrow> (\<forall>db. ds_batch (sds env) db = None) \<and> (\<forall>db b op. ds_batch_add (sds env) db b op = None) \<and>
     (\<forall>db b. fst (ds_commit (sds env) db b) = None)"

definition encodes :: "'pk types_env \<Rightarrow> bool" where
  "encodes te \<longleftrightarrow> (\<forall>x. \<exists>b. enc (c_signed_header (cds te)) x = Inr b) \<and> (\<forall>x. \<exists>b. enc (c_data (cds te)) x = Inr b) \<and>
     (\<forall>x. \<exists>b. enc (c_state (cds te)) x = Inr b)"

text \<open>The signer has a key that can be marshalled, and signs every header.\<close>

definition signer_works :: "('db, 'pk, 'x, 's, 'c, 'r) exec_env \<Rightarrow> bool" where
  "signer_works env \<longleftrightarrow>
     (\<exists>pk v. signer_info env = Inr (pk, v) \<and> (\<forall>k. pk = Some k \<longrightarrow> (\<exists>b. pk_marshal (tenv (xstore env)) k = Inr b))) \<and>
     (\<forall>h. \<exists>sig. signHeader env h = Inr sig)"

lemma works_batch:
  assumes "store_works env"
  shows "NewBatch env db = Inr []" and "batch_op env db b op = Inr (b @ [op])" and "batch_ops env db ops b = Inr (b @ map snd ops)"
    and "\<exists>db'. Commit env db b = (None, db')"
proof -
  show b: "batch_op env db b op = Inr (b @ [op])" for b op using assms by (simp add: batch_op_def store_works_def)
  show "batch_ops env db ops b = Inr (b @ map snd ops)" by (induction ops arbitrary: b) (auto simp: b)
  show "NewBatch env db = Inr []" using assms by (simp add: NewBatch_def store_works_def)
  show "\<exists>db'. Commit env db b = (None, db')"
    using assms by (auto simp: Commit_def commit_as_def store_works_def split: prod.splits option.splits) (metis fst_conv option.simps(3))
qed

lemma works_marshal:
  assumes "encodes te" and "\<And>k. PubKey (shSigner sh) = Some k \<Longrightarrow> \<exists>b. pk_marshal te k = Inr b"
  shows "\<exists>b sh'. SignedHeader_MarshalBinary te sh = (Inr b, sh') \<and> PubKey (shSigner sh') = PubKey (shSigner sh)"
proof -
  have "\<exists>p s. signer_proto te (shSigner sh) = (Inr p, s) \<and> PubKey s = PubKey (shSigner sh)"
  proof (cases "PubKey (shSigner sh)")
    case None
    then show ?thesis by (simp add: signer_proto_def)
  next
    case (Some k)
    then obtain b where "pk_marshal te k = Inr b" using assms(2) by blast
    then show ?thesis using Some by (simp add: signer_proto_def MarshalledPubKey_def)
  qed
  then obtain p s where s: "signer_proto te (shSigner sh) = (Inr p, s)" "PubKey s = PubKey (shSigner sh)" by blast
  obtain b where "enc (c_signed_header (cds te)) \<lparr>pbs_header = Some (Header_ToProto te (shHeader sh)),
      pbs_signature = shSignature sh, pbs_signer = Some p\<rparr> = Inr b" using assms(1) unfolding encodes_def by blast
  then show ?thesis using s by (simp add: SignedHeader_MarshalBinary_def SignedHeader_ToProto_def)
qed

lemma works_data: "encodes te \<Longrightarrow> \<exists>b. Data_MarshalBinary te d = Inr b"
  by (simp add: Data_MarshalBinary_def encodes_def)

lemma works_save:
  assumes "store_works env" and "encodes (tenv env)" and "\<And>k. PubKey (shSigner sh) = Some k \<Longrightarrow> \<exists>b. pk_marshal (tenv env) k = Inr b"
  shows "\<exists>sh' db'. savePendingBlock env db sh d = ((None, sh'), db') \<and> PubKey (shSigner sh') = PubKey (shSigner sh)"
proof -
  obtain b sh' where m: "SignedHeader_MarshalBinary (tenv env) sh = (Inr b, sh')" "PubKey (shSigner sh') = PubKey (shSigner sh)"
    using works_marshal [OF assms(2,3)] by blast
  obtain bl where bl: "Data_MarshalBinary (tenv env) d = Inr bl" using works_data [OF assms(2)] by blast
  define ops where "ops = [(''save pending header'', DsPut (ds_new_key (sds env) (GetMetaKey headerKey)) b),
     (''save pending data'', DsPut (ds_new_key (sds env) (GetMetaKey dataKey)) bl)]"
  obtain db' where c: "Commit env db (map snd ops) = (None, db')" using works_batch(4) [OF assms(1)] by blast
  have "put_pending env db b bl = (None, db')"
    unfolding put_pending_def works_batch(1) [OF assms(1)] sum.case ops_def [symmetric] works_batch(3) [OF assms(1)]
    by (simp add: c)
  then show ?thesis using m bl by (simp add: savePendingBlock_def)
qed

lemma works_stage:
  assumes "store_works env" and "encodes (tenv env)" and "\<And>k. PubKey (shSigner sh) = Some k \<Longrightarrow> \<exists>b. pk_marshal (tenv env) k = Inr b"
    and "Height env db = Inr H"
  shows "\<exists>b. stage_block env db sh d sig k st = Inr b"
proof -
  obtain b where m: "fst (SignedHeader_MarshalBinary (tenv env) sh) = Inr b" using works_marshal [OF assms(2,3)] by fastforce
  obtain bl where bl: "Data_MarshalBinary (tenv env) d = Inr bl" using works_data [OF assms(2)] by blast
  obtain sb where sb: "enc (c_state (cds (tenv env))) (State_ToProto st) = Inr sb" using assms(2) unfolding encodes_def by blast
  show ?thesis
    by (simp add: stage_block_def works_batch [OF assms(1)] SaveBlockData_def SaveBlockDataFromBytes_def Let_def m bl
        SetHeight_def assms(4) UpdateState_def sb del: batch_ops.simps)
qed


section \<open>A call that works\<close>

lemma new_block_works:
  assumes w: "store_works (xstore env)" "encodes (tenv (xstore env))" "signer_works env"
    and i: "last_block_info env e k = Inr i"
    and b: "q_GetNextBatch (xseq env) (eseq e) (batch_request env) = Some (Inr (Some res), s)"
  shows "\<exists>sh d e'. new_block env k e = Some (Inr (Some (sh, d)), e') \<and> Txs d = respBatch res \<and> elayer e' = elayer e \<and> eseq e' = s \<and>
    (gInitialHeight (xgenesis env) < k \<longrightarrow> bhTime (base (shHeader sh)) = word_of_int (respTimestamp res)) \<and>
    (\<forall>pk. PubKey (shSigner sh) = Some pk \<longrightarrow> (\<exists>b. pk_marshal (tenv (xstore env)) pk = Inr b))"
proof -
  define e1 where "e1 = e\<lparr>eseq := s\<rparr>"
  have rb: "RetrieveBatch env e =
      Some ((Some res, if respBatch res = [] then Some (Sentinel ErrNoTransactionsInBatch) else None), e1)"
    using b by (simp add: RetrieveBatch_def batch_request_def e1_def)
  have "edb e1 = edb e" "lastInfo e1 = lastInfo e" by (simp_all add: e1_def)
  then have i1: "last_block_info env e1 k = Inr i" using i unfolding last_block_info_def by metis
  obtain pk v where s: "signer_info env = Inr (pk, v)" "\<And>k. pk = Some k \<Longrightarrow> \<exists>b. pk_marshal (tenv (xstore env)) k = Inr b"
    using w(3) unfolding signer_works_def by blast
  obtain sh d where c: "CreateBlock env e1 k res = Inr (sh, d)" "Txs d = respBatch res" "PubKey (shSigner sh) = pk"
    "gInitialHeight (xgenesis env) < k \<longrightarrow> bhTime (base (shHeader sh)) = word_of_int (respTimestamp res)"
    by (simp add: CreateBlock_def Let_def i1 s(1))
  obtain sh' db' where sv: "savePendingBlock (xstore env) (edb e1) sh d = ((None, sh'), db')" "PubKey (shSigner sh') = pk"
    using works_save [OF w(1,2), of sh "edb e1" d] s(2) c(3) by auto
  have sh': "shHeader sh' = shHeader sh"
    using sv(1) by (auto simp: savePendingBlock_def SignedHeader_MarshalBinary_def SignedHeader_ToProto_def
        split: prod.splits sum.splits)
  have "new_block env k e = Some (Inr (Some (sh', d)), e1\<lparr>edb := db'\<rparr>)"
    by (auto simp: new_block_def rb c(1) sv(1))
  then show ?thesis using c(2,4) s(2) sv(2) sh' by (auto simp: e1_def)
qed

lemma sequence_accepts:
  assumes "state_ok env st" and "fits env st sh d" and "sLastHeaderHash st \<noteq> [] \<longrightarrow> LastBlockTime st \<le> Header_Time (shHeader sh)"
  shows "\<exists>tr'. AssertValidSequence tr st sh = (None, tr')"
  using assms by (auto simp: AssertValidSequence_def fits_def Let_def state_ok_def)

lemma finish_block_works:
  assumes w: "store_works (xstore env)" "encodes (tenv (xstore env))" "signer_works env"
    and inv: "exec_inv env vw cok st e" and f: "fits env st sh d"
    and pk: "\<And>k. PubKey (shSigner sh) = Some k \<Longrightarrow> \<exists>b. pk_marshal (tenv (xstore env)) k = Inr b"
    and x: "x_ExecuteTxs (xexec env) (elayer e) (Txs d) (Header_Height (shHeader sh)) (Header_Time (shHeader sh)) (sAppHash st) = (Inr root, x')"
    and t: "sLastHeaderHash st \<noteq> [] \<longrightarrow> LastBlockTime st \<le> Header_Time (shHeader sh)"
    and c: "xraft env = None" "\<not> BasedSequencer (xconfig env)"
  shows "\<exists>e' s. finish_block env ctx st k sh d e = (None, e') \<and> lastState e' = Some s \<and>
    LastBlockHeight s = LastBlockHeight st + 1 \<and> sAppHash s = root"
proof -
  have st: "getLastState e = st" "state_ok env st" "Height (xstore env) (edb e) = Inr (LastBlockHeight st)"
    using inv by (simp_all add: exec_inv_def getLastState_def chain_ok_def)
  define e2 where "e2 = e\<lparr>elayer := x'\<rparr>"
  have a: "ApplyBlock env ctx (shHeader sh) d e = (Inr (NextState (tenv (xstore env)) st (shHeader sh) root), e2)"
    using x by (simp add: ApplyBlock_def Let_def st(1) executeTxsWithRetry_def MaxRetriesBeforeHalt_def eval_nat_numeral e2_def)
  obtain sig where sig: "signHeader env (shHeader sh) = Inr sig" using w(3) unfolding signer_works_def by blast
  define sh1 where "sh1 = sh\<lparr>shSignature := sig\<rparr>"
  have "fits env st sh1 d" using f by (auto simp: sh1_def fits_def Let_def)
  moreover have "shHeader sh1 = shHeader sh" by (simp add: sh1_def)
  ultimately obtain tr where v: "AssertValidSequence (etracking e2) st sh1 = (None, tr)"
    using sequence_accepts [OF st(2)] t by metis
  define s where "s = (NextState (tenv (xstore env)) st (shHeader sh) root)\<lparr>sDAHeight := q_GetDAHeight (xseq env) (eseq e2)\<rparr>"
  have pk1: "\<exists>b. pk_marshal (tenv (xstore env)) k = Inr b" if "PubKey (shSigner sh1) = Some k" for k
    using pk that by (simp add: sh1_def)
  have "Height (xstore env) (edb e2) = Inr (LastBlockHeight st)" using st(3) by (simp add: e2_def)
  then obtain b where b: "stage_block (xstore env) (edb e2) sh1 d sig k s = Inr b"
    using works_stage [OF w(1,2) pk1] by blast
  obtain db' where db': "Commit (xstore env) (edb e2) b = (None, db')" using works_batch(4) [OF w(1)] by blast
  obtain e' where e': "commit_block env sh1 d sig k s (e2\<lparr>etracking := tr\<rparr>) = (None, e')" "lastState e' = Some s"
    using b db' c by (simp add: commit_block_def propose_raft_def after_commit_def Let_def setLastState_def)
  have "finish_block env ctx st k sh d e = (None, e')"
    using e'(1) by (simp add: finish_block_def has_quorum_def c(1) a sig v Let_def sh1_def [symmetric] s_def [symmetric])
  then show ?thesis using e'(2) f by (simp add: s_def fits_def Let_def)
qed

lemma last_info_known:
  assumes "lastInfo e \<noteq> None \<or> k \<le> gInitialHeight (xgenesis env)"
  shows "\<exists>i. last_block_info env e k = Inr i"
  using assms by (auto simp: last_block_info_def)


text \<open>All a call needs to succeed: no cancellation, no raft, no limit, no pending block, a working store and
  signer, a batch, and an execution layer that executes it.\<close>

definition can_produce ::
  "('db, 'pk, 'x, 's, 'c, 'r) exec_env \<Rightarrow> call_ctx \<Rightarrow> State \<Rightarrow> GetNextBatchResponse \<Rightarrow> ('db, 'pk, 'x, 's, 'c, 'r) Executor \<Rightarrow> bool" where
  "can_produce env ctx st res e \<longleftrightarrow>
     store_works (xstore env) \<and> encodes (tenv (xstore env)) \<and> signer_works env \<and>
     ctx_Err ctx = None \<and> xraft env = None \<and> \<not> BasedSequencer (xconfig env) \<and> MaxPendingHeadersAndData (xconfig env) = 0 \<and>
     \<not> hasPendingBlock e \<and> (lastInfo e \<noteq> None \<or> LastBlockHeight st + 1 \<le> gInitialHeight (xgenesis env)) \<and>
     (\<exists>s. q_GetNextBatch (xseq env) (eseq e) (batch_request env) = Some (Inr (Some res), s)) \<and>
     (gInitialHeight (xgenesis env) \<le> LastBlockHeight st \<longrightarrow>
        LastBlockTime st \<le> time_of_u64 (word_of_int (respTimestamp res))) \<and>
     (\<forall>h t. \<exists>root x. x_ExecuteTxs (xexec env) (elayer e) (respBatch res) h t (sAppHash st) = (Inr root, x))"

lemma ProduceBlock_works:
  assumes ok: "store_ok (xstore env) vw" and codecs: "codecs_ok (tenv (xstore env))" "keys_roundtrip (tenv (xstore env))"
    and top: "LastBlockHeight st < - 1" and inv: "exec_inv env vw cok st e" and c: "can_produce env ctx st res e"
  shows "\<exists>e' s. ProduceBlock env ctx e = Some (None, e') \<and> lastState e' = Some s \<and> LastBlockHeight s = LastBlockHeight st + 1"
proof -
  define k where "k = LastBlockHeight st + 1"
  have w: "store_works (xstore env)" "encodes (tenv (xstore env))" "signer_works env" and np: "\<not> hasPendingBlock e"
    and o: "ctx_Err ctx = None" "xraft env = None" "\<not> BasedSequencer (xconfig env)" "MaxPendingHeadersAndData (xconfig env) = 0"
    using c by (simp_all add: can_produce_def)
  obtain s where b: "q_GetNextBatch (xseq env) (eseq e) (batch_request env) = Some (Inr (Some res), s)"
    using c by (auto simp: can_produce_def)
  obtain i where i: "last_block_info env e k = Inr i"
    using last_info_known [of e k env] c by (auto simp: can_produce_def k_def)
  obtain sh d e' where n: "new_block env k e = Some (Inr (Some (sh, d)), e')" "Txs d = respBatch res" "elayer e' = elayer e"
    "gInitialHeight (xgenesis env) < k \<longrightarrow> bhTime (base (shHeader sh)) = word_of_int (respTimestamp res)"
    "\<And>pk. PubKey (shSigner sh) = Some pk \<Longrightarrow> \<exists>b. pk_marshal (tenv (xstore env)) pk = Inr b"
    using new_block_works [OF w i b] by auto
  have p: "prepares env vw cok st e e'" "fits env st sh d"
    using new_block_outcome [OF ok codecs top inv n(1) [unfolded k_def]] by simp_all
  have t: "sLastHeaderHash st \<noteq> [] \<longrightarrow> LastBlockTime st \<le> Header_Time (shHeader sh)"
  proof
    assume "sLastHeaderHash st \<noteq> []"
    then have "gInitialHeight (xgenesis env) \<le> LastBlockHeight st"
      using inv by (auto simp: exec_inv_def state_ok_def word_le_nat_alt)
    moreover from this have "gInitialHeight (xgenesis env) < k"
      using unat_u64_Suc [OF top] by (simp add: k_def word_le_nat_alt word_less_nat_alt)
    ultimately show "LastBlockTime st \<le> Header_Time (shHeader sh)" using n(4) c by (simp add: can_produce_def Header_Time_def)
  qed
  have "\<exists>root x. x_ExecuteTxs (xexec env) (elayer e') (Txs d) (Header_Height (shHeader sh)) (Header_Time (shHeader sh)) (sAppHash st) = (Inr root, x)"
    using c n(2,3) by (simp add: can_produce_def)
  then obtain root x where x: "x_ExecuteTxs (xexec env) (elayer e') (Txs d) (Header_Height (shHeader sh))
      (Header_Time (shHeader sh)) (sAppHash st) = (Inr root, x)" by blast
  have inv': "exec_inv env vw cok st e'" using p(1) by (simp add: prepares_def)
  obtain e2 s2 where f: "finish_block env ctx st k sh d e' = (None, e2)" "lastState e2 = Some s2" "LastBlockHeight s2 = k"
    using finish_block_works [OF w inv' p(2) n(5) x t o(2,3), of ctx k] unfolding k_def by blast
  have "pending_or_new env k e = Some (Inr (Some (sh, d)), e')" using n(1) np by (simp add: pending_or_new_def)
  then have "ProduceBlock env ctx e = Some (None, e2)"
    using f(1) o getLastState_inv [OF inv]
    by (simp add: ProduceBlock_def has_quorum_def pending_limit_reached_def Let_def k_def [symmetric])
  then show ?thesis using f by (simp add: k_def)
qed


section \<open>A start that works\<close>

lemma blank_reads:
  assumes ok: "store_ok env vw" and b: "blank env vw db"
  shows "Height env db = Inr 0" and "\<exists>er. GetState env db = Inl er"
proof -
  show "Height env db = Inr 0" using b by (simp add: Height_iff [OF ok] blank_def)
  have "GetState env db \<noteq> Inr s" for s
    using b by (simp add: GetState_iff [OF ok] GetStateAtHeight_iff [OF ok] blank_def)
  then show "\<exists>er. GetState env db = Inl er" by (cases "GetState env db") auto
qed

lemma no_block:
  assumes ok: "store_ok env vw" and "entry_of env vw db (EHeader h) = None"
  shows "\<exists>er. GetBlockData env db h = Inl er \<and> errors_is er ErrNotFound"
  using kget_store_None [OF ok _ assms(2)] by (auto simp: GetBlockData_def GetHeader_def entry_keys(1) [where env = env])

lemma no_metadata:
  assumes ok: "store_ok env vw" and "entry_of env vw db (EMeta headerKey) = None"
  shows "\<exists>er. GetMetadata env db headerKey = Inl er"
  using kget_store_None [OF ok _ assms(2)] by (auto simp: GetMetadata_def entry_keys(7) [where env = env])

text \<open>Without raft, a node with a working store and an execution layer that initializes the chain starts on an
  empty store.\<close>

lemma initializeState_works:
  assumes ok: "store_ok (xstore env) vw" and codecs: "codecs_ok (tenv (xstore env))"
    and w: "store_works (xstore env)" "encodes (tenv (xstore env))"
    and g: "0 < gInitialHeight (xgenesis env)" and t: "state_time_ok (initial_state (xgenesis env) root)"
    and b: "blank (xstore env) vw (edb e)" and c: "xraft env = None" "\<not> BasedSequencer (xconfig env)" "\<not> hasPendingBlock e"
    and x: "x_InitChain (xexec env) (elayer e) (StartTime (xgenesis env)) (gInitialHeight (xgenesis env))
      (gChainID (xgenesis env)) = (Inr root, x)"
  shows "\<exists>e'. initializeState env e = Some (None, e') \<and> elayer e' = x \<and> \<not> hasPendingBlock e' \<and>
    eseq e' = q_SetDAHeight (xseq env) (eseq e) (DAStartHeight (xgenesis env)) \<and> db_ok env vw (initial_state (xgenesis env) root) (edb e')"
proof -
  define s where "s = initial_state (xgenesis env) root"
  obtain er where er: "GetState (xstore env) (edb e) = Inl er" using blank_reads(2) [OF ok b] by blast
  have ls: "load_state env e = (Inr s, e\<lparr>elayer := x\<rparr>)" using er x by (simp add: load_state_def s_def)
  have cr: "check_raft env s (e\<lparr>elayer := x\<rparr>) = (None, e\<lparr>elayer := x\<rparr>)" by (simp add: check_raft_def c(1))
  define e3 where "e3 = setLastState s (e\<lparr>elayer := x, eseq := q_SetDAHeight (xseq env) (eseq e) (sDAHeight s)\<rparr>)"
  obtain sb where sb: "enc (c_state (cds (tenv (xstore env)))) (State_ToProto s) = Inr sb" using w(2) unfolding encodes_def by blast
  obtain ops where ops: "SetHeight (xstore env) (edb e) [] (LastBlockHeight s) = Inr ops"
    by (cases "LastBlockHeight s = 0") (auto simp: SetHeight_def blank_reads(1) [OF ok b] works_batch(2) [OF w(1)])
  obtain db where db: "Commit (xstore env) (edb e) (ops @ [DsPut (getStateAtHeightKey (LastBlockHeight s)) sb]) = (None, db)"
    using works_batch(4) [OF w(1)] by blast
  have si: "store_initial (xstore env) (edb e) s = (None, db)"
    by (simp add: store_initial_def works_batch(1,2) [OF w(1)] ops UpdateState_def sb db)
  have d: "db_ok env vw s db" using genesis_db_ok [OF ok codecs g t [folded s_def] b s_def si] .
  have L: "LastBlockHeight s < gInitialHeight (xgenesis env)"
    using g unat_u64_pred [OF g] by (simp add: s_def initial_state_def word_less_nat_alt)
  have n: "entry_of (xstore env) vw db (EHeader h) = None" "entry_of (xstore env) vw db (EMeta headerKey) = None" for h
    using store_initial_entries [OF ok blank_reads(1) [OF ok b] si] b by (auto simp: blank_def)
  have mg: "migrateLegacyPendingBlock (xstore env) db s = (None, db)"
    using no_block [OF ok n(1), of "LastBlockHeight s + 1"] by (auto simp: migrateLegacyPendingBlock_def Let_def)
  have m: "mark_pending env (e3\<lparr>edb := db\<rparr>) = e3\<lparr>edb := db\<rparr>" using no_metadata [OF ok n(2)] by (auto simp: mark_pending_def)
  have wc: "warm_cache env s (e3\<lparr>edb := db\<rparr>) = e3\<lparr>edb := db\<rparr>"
    using no_block [OF ok n(1), of "LastBlockHeight s"] by (auto simp: warm_cache_def)
  have "SyncToHeight (xstore env) (xexec env) (xgenesis env) x db (LastBlockHeight s) = Some (None, x, db)"
    using L by (simp add: SyncToHeight_def split: option.splits)
  then have rl: "replay_layer env (LastBlockHeight s) (e3\<lparr>edb := db\<rparr>) = Some (None, e3\<lparr>edb := db\<rparr>)"
    by (simp add: replay_layer_def set_final_at_start_def check_after_replay_def c e3_def setLastState_def)
  have "edb e3 = edb e" by (simp add: e3_def setLastState_def)
  then have "initializeState env e = Some (None, e3\<lparr>edb := db\<rparr>)"
    using si mg rl by (simp add: initializeState_def ls cr e3_def [symmetric] Let_def m wc sync_target_def c(1))
  then show ?thesis using d c(3) by (simp add: e3_def setLastState_def s_def initial_state_def)
qed


section \<open>Outcomes with the cache of the node\<close>

text \<open>A call either leaves the chain as it is or adds one block to it.\<close>

definition added ::
  "('db, 'pk, 'x, 's, 'c, 'r) exec_env \<Rightarrow> ('db \<Rightarrow> view) \<Rightarrow> ('c \<Rightarrow> bool) \<Rightarrow> State \<Rightarrow> ('db, 'pk, 'x, 's, 'c, 'r) Executor \<Rightarrow>
     ('db, 'pk, 'x, 's, 'c, 'r) Executor \<Rightarrow> State \<Rightarrow> bool" where
  "added env vw cok st e e' st' \<longleftrightarrow> exec_inv env vw cok st' e' \<and> LastBlockHeight st' = LastBlockHeight st + 1 \<and>
     (\<exists>sh d. GetBlockData (xstore env) (edb e') (LastBlockHeight st') = Inr (sh, d) \<and> follows env st sh d st' \<and> sourced env e d) \<and>
     (\<forall>h b. h \<le> LastBlockHeight st \<longrightarrow> (GetBlockData (xstore env) (edb e') h = Inr b \<longleftrightarrow> GetBlockData (xstore env) (edb e) h = Inr b))"

lemma grown_added:
  assumes ok: "store_ok (xstore env) vw" and p: "prepares env vw cok st e e1"
    and g: "grown env vw cok st (edb e1) e' sh d st'" and s: "sourced env e d" and i: "0 < gInitialHeight (xgenesis env)"
  shows "added env vw cok st e e' st'"
proof -
  have f: "follows env st sh d st'" "exec_inv env vw cok st' e'" using g by (simp_all add: grown_def)
  have h: "LastBlockHeight st' = LastBlockHeight st + 1" "exec_inv env vw cok st' e'"
    using f by (simp_all add: follows_def fits_def Let_def)
  obtain sh' where sh': "GetBlockData (xstore env) (edb e') (LastBlockHeight st') = Inr (sh', d)" "shHeader sh' = shHeader sh"
    using g by (auto simp: grown_def)
  have "chain_ok env vw (edb e') st'" using h(2) by (simp add: exec_inv_def)
  then have L: "gInitialHeight (xgenesis env) \<le> LastBlockHeight st'" using chain_range(1) [OF ok _ sh'(1)] by blast
  then have "linked env (edb e') (LastBlockHeight st')" using h(2) by (simp add: exec_inv_def chain_ok_def)
  then obtain prev s1 where l: "follows env prev sh' d s1" "GetStateAtHeight (xstore env) (edb e') (LastBlockHeight st') = Inr s1"
    "GetStateAtHeight (xstore env) (edb e') (LastBlockHeight st' - 1) = Inr prev"
    using sh'(1) by (auto simp: linked_def)
  have "GetStateAtHeight (xstore env) (edb e1) (LastBlockHeight st) = Inr prev" using l(3) g h(1) by (simp add: grown_def)
  moreover have "chain_ok env vw (edb e1) st" using p by (simp add: prepares_def exec_inv_def)
  ultimately have "tip prev = tip st" by (simp add: chain_ok_def)
  moreover have "tip s1 = tip st'" using l(2) h(2) by (simp add: exec_inv_def chain_ok_def)
  ultimately have "follows env st sh' d st'" using l(1) follows_tip [of prev st s1 st' env sh' d] by simp
  moreover have "\<forall>h b. h \<le> LastBlockHeight st \<longrightarrow>
      (GetBlockData (xstore env) (edb e') h = Inr b \<longleftrightarrow> GetBlockData (xstore env) (edb e) h = Inr b)"
    using g p same_chain_reads(2) [OF ok, of "edb e" "edb e1"] by (simp add: grown_def prepares_def)
  ultimately show ?thesis using h sh'(1) s by (auto simp: added_def)
qed

lemma produce_cases:
  assumes ok: "store_ok (xstore env) vw" and codecs: "codecs_ok (tenv (xstore env))" "keys_roundtrip (tenv (xstore env))"
    and c: "xcache env = pending_ops (xstore env)" and g: "0 < gInitialHeight (xgenesis env)" and top: "LastBlockHeight st < - 1"
    and inv: "exec_inv env vw pendings_ok st e" and p: "ProduceBlock env ctx e = Some (r, e')"
  shows "prepares env vw pendings_ok st e e' \<or> (\<exists>st'. added env vw pendings_ok st e e' st')"
  using pend.ProduceBlock_outcome [OF refl c ok codecs g top inv p] grown_added [OF ok _ _ _ g] by blast

lemma added_height: "added env vw cok st e e' st' \<Longrightarrow> lastState e' \<noteq> Some st"
  by (auto simp: added_def exec_inv_def)


lemma ProduceBlock_adds:
  assumes "store_ok (xstore env) vw" and "codecs_ok (tenv (xstore env))" and "keys_roundtrip (tenv (xstore env))"
    and "xcache env = pending_ops (xstore env)" and "0 < gInitialHeight (xgenesis env)" and "LastBlockHeight st < - 1"
    and "exec_inv env vw pendings_ok st e" and "can_produce env ctx st res e"
  shows "\<exists>e' st' sh d. ProduceBlock env ctx e = Some (None, e') \<and> exec_inv env vw pendings_ok st' e' \<and>
    LastBlockHeight st' = LastBlockHeight st + 1 \<and>
    GetBlockData (xstore env) (edb e') (LastBlockHeight st') = Inr (sh, d) \<and> follows env st sh d st' \<and> Txs d = respBatch res"
proof -
  obtain e' s where p: "ProduceBlock env ctx e = Some (None, e')" "lastState e' = Some s" "LastBlockHeight s = LastBlockHeight st + 1"
    using ProduceBlock_works [OF assms(1-3,6-8)] by blast
  have np: "\<not> hasPendingBlock e" using assms(8) by (simp add: can_produce_def)
  have "\<not> prepares env vw pendings_ok st e e'" using p by (auto simp: prepares_def exec_inv_def)
  then obtain st' where "added env vw pendings_ok st e e' st'" using produce_cases [OF assms(1-7) p(1)] by blast
  then obtain sh d where a: "exec_inv env vw pendings_ok st' e'" "LastBlockHeight st' = LastBlockHeight st + 1"
    "GetBlockData (xstore env) (edb e') (LastBlockHeight st') = Inr (sh, d)" "follows env st sh d st'" "sourced env e d"
    by (auto simp: added_def)
  have "Txs d = respBatch res" using a(5) np assms(8) by (auto simp: sourced_def from_batch_def can_produce_def)
  then show ?thesis using p(1) a by blast
qed

text \<open>Runs from an empty store: nothing is written until a start succeeds in storing the genesis state; from
  then on the database holds a chain.\<close>

lemma state_time_initial: "state_time_ok (initial_state g root) = state_time_ok (initial_state g [])"
  by (simp add: state_time_ok_def initial_state_def)

lemma start_blank:
  assumes ok: "store_ok (xstore env) vw" and codecs: "codecs_ok (tenv (xstore env))"
    and g: "0 < gInitialHeight (xgenesis env)" and t: "state_time_ok (initial_state (xgenesis env) [])"
    and db: "blank (xstore env) vw db" and n: "NewExecutor env tr db x s c r = Inr e0" "cok c"
    and i: "Executor_Start env e0 = Some (q, e)"
  shows "q \<noteq> None \<and> blank (xstore env) vw (edb e) \<or>
    (\<exists>st. unat (LastBlockHeight st) + 1 = unat (gInitialHeight (xgenesis env)) \<and> db_ok env vw st (edb e) \<and>
       (q = None \<longrightarrow> exec_inv env vw cok st e))"
proof -
  obtain q1 where q: "initializeState env e0 = Some (q1, e)" "q = None \<longleftrightarrow> q1 = None"
    using Executor_Start_init [OF i] by blast
  have f: "edb e0 = db" "ecache e0 = c" "lastInfo e0 = None" using NewExecutor_fields [OF n(1)] by simp_all
  have t': "\<And>root. state_time_ok (initial_state (xgenesis env) root)" using t state_time_initial by blast
  have L: "unat (LastBlockHeight (initial_state (xgenesis env) root)) + 1 = unat (gInitialHeight (xgenesis env))" for root
    using unat_u64_pred [OF g] g by (simp add: initial_state_def word_less_nat_alt)
  show ?thesis
    using initializeState_blank [where cok = cok, OF ok codecs g t' _ f(3) _ q(1)] db n(2) f q(2) L by auto
qed

lemma run_from_blank:
  assumes ok: "store_ok (xstore env) vw" and codecs: "codecs_ok (tenv (xstore env))" "keys_roundtrip (tenv (xstore env))"
    and c: "xcache env = pending_ops (xstore env)" and g: "0 < gInitialHeight (xgenesis env)"
    and t: "state_time_ok (initial_state (xgenesis env) [])" and db: "blank (xstore env) vw db"
    and r: "(node_step env pendings_ok ^^ n) (Down db) b" and top: "unat (gInitialHeight (xgenesis env)) + n < 2 ^ 64"
  shows "(\<exists>db'. b = Down db' \<and> blank (xstore env) vw db') \<or>
    (\<exists>st. node_ok env vw pendings_ok st b \<and> unat (LastBlockHeight st) + 1 \<le> unat (gInitialHeight (xgenesis env)) + n)"
  using r top
proof (induction n arbitrary: b)
  case 0
  then show ?case using db by auto
next
  case (Suc n)
  obtain a where a: "(node_step env pendings_ok ^^ n) (Down db) a" "node_step env pendings_ok a b" using Suc.prems(1) by auto
  consider db' where "a = Down db'" "blank (xstore env) vw db'"
    | st where "node_ok env vw pendings_ok st a" "unat (LastBlockHeight st) + 1 \<le> unat (gInitialHeight (xgenesis env)) + n"
    using Suc.IH [OF a(1)] Suc.prems(2) by auto
  then show ?case
  proof cases
    case 1
    from a(2) [unfolded 1(1)] show ?thesis
    proof cases
      case (start tr x s c r e0 e t')
      then show ?thesis using start_blank [where cok = pendings_ok, OF ok codecs(1) g t 1(2) start(2,3,4)] by auto
    next
      case (start_fails tr x s c r e0 err e)
      then show ?thesis using start_blank [where cok = pendings_ok, OF ok codecs(1) g t 1(2) start_fails(2,3,4)] by auto
    qed
  next
    case 2
    have "LastBlockHeight st < - 1" using 2(2) Suc.prems(2) by (intro below_max_u64) simp
    then obtain st' where "node_ok env vw pendings_ok st' b" "chain_prefix env 1 st (node_db a) st' (node_db b)"
      using pend.node_step_prefix [OF refl c ok codecs g _ 2(1) a(2)] by blast
    then show ?thesis using 2(2) by (auto simp: chain_prefix_def)
  qed
qed

lemma node_ok_chain: "node_ok env vw cok st b \<Longrightarrow> chain_ok env vw (node_db b) st"
  by (cases b) (simp_all add: exec_inv_def db_ok_def)


section \<open>Properties\<close>



text \<open>
  C5: What one call of \<^verbatim>\<open>ProduceBlock\<close> does, whatever it returns. Either the chain, its states and its height are
  as before (only metadata may have been written), or the chain has grown by exactly one block, which follows the
  last state and is in the store together with its state and height, while all blocks below are untouched. Its
  transactions are those of the batch the call took from the sequencer, or of the pending block, and of that
  only where the flag \<^verbatim>\<open>hasPendingBlock\<close> was set.
\<close>

theorem produce_block_outcome:
  assumes "store_ok (xstore env) vw" and "codecs_ok (tenv (xstore env))" and "keys_roundtrip (tenv (xstore env))"
    and "xcache env = pending_ops (xstore env)" and "0 < gInitialHeight (xgenesis env)" and "LastBlockHeight st < - 1"
    and "exec_inv env vw pendings_ok st e" and "ProduceBlock env ctx e = Some (r, e')"
  shows "exec_inv env vw pendings_ok st e' \<and> same_chain (xstore env) vw (edb e) (edb e') \<and> hasPendingBlock e' = hasPendingBlock e \<or>
    (\<exists>st' sh d. exec_inv env vw pendings_ok st' e' \<and> LastBlockHeight st' = LastBlockHeight st + 1 \<and>
       GetBlockData (xstore env) (edb e') (LastBlockHeight st') = Inr (sh, d) \<and> follows env st sh d st' \<and>
       (from_batch env (eseq e) d \<or> hasPendingBlock e \<and> (\<exists>p. getPendingBlock (xstore env) (edb e) = Inr (Some (p, d)))) \<and>
       (\<forall>h b. h \<le> LastBlockHeight st \<longrightarrow>
          (GetBlockData (xstore env) (edb e') h = Inr b \<longleftrightarrow> GetBlockData (xstore env) (edb e) h = Inr b)))"
  using produce_cases [OF assms] unfolding prepares_def added_def sourced_def by blast

text \<open>
  C7: The producer produces. With a store that takes its writes, codecs that encode, a signer that signs, no raft
  and no limit on pending blocks, a batch from the sequencer that is not older than the last block and an
  execution layer that executes it, \<^verbatim>\<open>ProduceBlock\<close> returns without an error, and the next height of the chain
  holds a block with exactly the transactions of the batch.
\<close>

theorem produce_block_succeeds:
  assumes "store_ok (xstore env) vw" and "codecs_ok (tenv (xstore env))" and "keys_roundtrip (tenv (xstore env))"
    and "xcache env = pending_ops (xstore env)" and "0 < gInitialHeight (xgenesis env)" and "LastBlockHeight st < - 1"
    and "exec_inv env vw pendings_ok st e" and "can_produce env ctx st res e"
  shows "\<exists>e' st' sh d. ProduceBlock env ctx e = Some (None, e') \<and> exec_inv env vw pendings_ok st' e' \<and>
    LastBlockHeight st' = LastBlockHeight st + 1 \<and>
    GetBlockData (xstore env) (edb e') (LastBlockHeight st') = Inr (sh, d) \<and> follows env st sh d st' \<and> Txs d = respBatch res"
  using ProduceBlock_adds [OF assms] .

text \<open>
  C26: A block that fails is dropped by the next attempt of the same process. \<^verbatim>\<open>ProduceBlock\<close> saves the block it
  makes as pending before it is executed, but the flag that makes a later call use it is set at a start only.
  So after a call that failed without adding a block, the flag is still down, and if the next call adds a block,
  that one has the transactions of a new batch from the sequencer: those of the failed block, already taken from
  the sequencer, are not in it unless the sequencer gives them out again.
\<close>

theorem failed_block_not_retried:
  assumes "store_ok (xstore env) vw" and "codecs_ok (tenv (xstore env))" and "keys_roundtrip (tenv (xstore env))"
    and "xcache env = pending_ops (xstore env)" and "0 < gInitialHeight (xgenesis env)" and "LastBlockHeight st < - 1"
    and "exec_inv env vw pendings_ok st e" and "\<not> hasPendingBlock e"
    and "ProduceBlock env ctx e = Some (Some err, e1)" and "lastState e1 = lastState e"
    and "ProduceBlock env ctx' e1 = Some (r, e2)" and "lastState e2 \<noteq> lastState e1"
  shows "\<not> hasPendingBlock e1 \<and> (\<exists>res s sh d. q_GetNextBatch (xseq env) (eseq e1) (batch_request env) = Some (Inr (Some res), s) \<and>
    GetBlockData (xstore env) (edb e2) (LastBlockHeight st + 1) = Inr (sh, d) \<and> Txs d = respBatch res)"
proof -
  have l: "lastState e1 = Some st" using assms(7,10) by (simp add: exec_inv_def)
  have "\<not> added env vw pendings_ok st e e1 st'" for st' using l added_height by blast
  then have p: "prepares env vw pendings_ok st e e1" using produce_cases [OF assms(1-7,9)] by blast
  then have i: "exec_inv env vw pendings_ok st e1" "\<not> hasPendingBlock e1" using assms(8) by (simp_all add: prepares_def)
  have "\<not> prepares env vw pendings_ok st e1 e2" using assms(12) l by (auto simp: prepares_def exec_inv_def)
  then obtain st' where "added env vw pendings_ok st e1 e2 st'" using produce_cases [OF assms(1-6) i(1) assms(11)] by blast
  then show ?thesis using i(2) by (auto simp: added_def sourced_def from_batch_def)
qed


subsection \<open>Witnesses\<close>

text \<open>A node on the demonstration store: a sequencer with a list of batches, a signer with the key \<open>[7]\<close>, and
  an execution layer that fails the first five of its executions.\<close>

definition list_sequencer :: "Batch list sequencer_ops" where
  "list_sequencer = \<lparr>q_GetNextBatch = (\<lambda>s req. Some (case s of [] \<Rightarrow> (Inr None, [])
       | b # bs \<Rightarrow> (Inr (Some \<lparr>respBatch = b, respTimestamp = 1000, BatchData = []\<rparr>), bs))),
     q_SetDAHeight = (\<lambda>s h. s), q_GetDAHeight = (\<lambda>s. 0)\<rparr>"

definition shaky_ops :: "u64 exec_ops" where
  "shaky_ops = counting_ops\<lparr>x_ExecuteTxs := (\<lambda>x txs h t root.
     if x < 5 then (Inl (Msg ''execution layer down''), x + 1) else (Inr (put_be64 h), x))\<rparr>"

definition demo_node :: "(mem_db, bytes, u64, Batch list, (unit, unit) pendings, unit) exec_env" where
  "demo_node = \<lparr>xstore = demo_store, xexec = shaky_ops, xseq = list_sequencer,
     xsigner = Some \<lparr>Sign = (\<lambda>m. Inr (7 # m)), GetPublic = Inr [7], GetAddress = Inr [1]\<rparr>,
     xcache = pending_ops demo_store, xraft = None,
     xconfig = \<lparr>BasedSequencer = False, MaxPendingHeadersAndData = 0, LazyMode = False, BlockTime = 1000, LazyBlockInterval = 60000\<rparr>,
     xgenesis = NewGenesis ''rollup'' 1 0 (Some [1]),
     xoptions = \<lparr>AggregatorNodeSignatureBytesProvider = (\<lambda>h. Inr []), SyncNodeSignatureBytesProvider = (\<lambda>h d. Inr []),
       ValidatorHasherProvider = (\<lambda>a pk. Inr [])\<rparr>,
     errorCh_cap = Some 1\<rparr>"

definition demo_pendings :: "(unit, unit) pendings" where
  "demo_pendings = \<lparr>pendingHeaders = \<lparr>metaKey = LastSubmittedHeaderHeightKey, lastHeight = 0, pendingCache = ()\<rparr>,
     pendingData = \<lparr>metaKey = LastSubmittedDataHeightKey, lastHeight = 0, pendingCache = ()\<rparr>\<rparr>"

definition call_now :: call_ctx where
  "call_now = \<lparr>ctx_Err = None, stopped = (\<lambda>n. None)\<rparr>"

lemma demo_node_sel [simp]:
  "xstore demo_node = demo_store" "xcache demo_node = pending_ops demo_store" "xraft demo_node = None" "xexec demo_node = shaky_ops"
  "xseq demo_node = list_sequencer" "\<not> BasedSequencer (xconfig demo_node)" "MaxPendingHeadersAndData (xconfig demo_node) = 0"
  "\<not> LazyMode (xconfig demo_node)" "gInitialHeight (xgenesis demo_node) = 1" "StartTime (xgenesis demo_node) = 0"
  "DAStartHeight (xgenesis demo_node) = 0" "pendings_ok demo_pendings"
  by (simp_all add: demo_node_def NewGenesis_def pendings_ok_def demo_pendings_def)

lemma demo_works [simp]: "store_works demo_store" "encodes demo_env" "signer_works demo_node"
  by (simp_all add: store_works_def encodes_def signer_works_def signer_info_def signHeader_def demo_node_def Let_def
      mem_datastore_def demo_env_def field_codecs_def)

lemma demo_blank [simp]: "blank demo_store mem_view []"
  by (simp add: blank_def entry_of_def mem_view_def)

lemma demo_time [simp]: "state_time_ok (initial_state (xgenesis demo_node) root)"
  by (simp add: state_time_ok_def initial_state_def)

lemma demo_starts:
  obtains e0 e root where "NewExecutor demo_node tr [] x s demo_pendings () = Inr e0" and "Executor_Start demo_node e0 = Some (None, e)"
    and "exec_inv demo_node mem_view pendings_ok (initial_state (xgenesis demo_node) root) e"
    and "elayer e = x" and "eseq e = s" and "\<not> hasPendingBlock e"
proof -
  obtain e0 where e0: "NewExecutor demo_node tr [] x s demo_pendings () = Inr e0"
    "edb e0 = []" "elayer e0 = x" "eseq e0 = s" "\<not> hasPendingBlock e0" "lastInfo e0 = None" "ecache e0 = demo_pendings"
    by (simp add: NewExecutor_def NewExecutor_check_def demo_node_def NewGenesis_def proposer_def)
  obtain e where e: "initializeState demo_node e0 = Some (None, e)" "elayer e = x" "\<not> hasPendingBlock e"
    "eseq e = q_SetDAHeight list_sequencer s 0"
    using initializeState_works [of demo_node mem_view "[4]" e0 x] e0
    by (auto simp: shaky_ops_def counting_ops_def)
  then have "Executor_Start demo_node e0 = Some (None, e)" by (simp add: Executor_Start_def)
  moreover have "eseq e = s" using e(4) by (simp add: list_sequencer_def)
  moreover obtain root where "exec_inv demo_node mem_view pendings_ok (initial_state (xgenesis demo_node) root) e"
    using initializeState_blank [of demo_node mem_view e0 pendings_ok None e] e(1) e0 by auto
  ultimately show thesis using that e0(1) e(2,3) by blast
qed


lemma demo_initial [simp]: "LastBlockHeight (initial_state (xgenesis demo_node) root) = 0"
  by (simp add: initial_state_def)

lemma zero_below_max [simp]: "(0 :: u64) < - 1"
  by (rule below_max_u64) simp

lemma demo_can:
  assumes "\<not> x < 5" and "elayer e = x" and "eseq e = b # bs" and "\<not> hasPendingBlock e"
  shows "can_produce demo_node call_now (initial_state (xgenesis demo_node) root) \<lparr>respBatch = b, respTimestamp = 1000, BatchData = []\<rparr> e"
  using assms by (simp add: can_produce_def call_now_def list_sequencer_def shaky_ops_def)

lemma demo_base:
  "store_ok (xstore demo_node) mem_view" "codecs_ok (tenv (xstore demo_node))" "keys_roundtrip (tenv (xstore demo_node))"
  "xcache demo_node = pending_ops (xstore demo_node)" "0 < gInitialHeight (xgenesis demo_node)"
  "LastBlockHeight (initial_state (xgenesis demo_node) root) < - 1"
  by simp_all

lemma demo_produces:
  assumes inv: "exec_inv demo_node mem_view pendings_ok (initial_state (xgenesis demo_node) root) e"
    and e: "elayer e = 5" "eseq e = b # bs" "\<not> hasPendingBlock e"
  obtains e' st' sh d where "ProduceBlock demo_node call_now e = Some (None, e')"
    and "exec_inv demo_node mem_view pendings_ok st' e'" and "LastBlockHeight st' = 1"
    and "GetBlockData demo_store (edb e') 1 = Inr (sh, d)" and "Txs d = b"
proof -
  have five: "\<not> (5 :: u64) < 5" by simp
  obtain e' st' sh d where p: "ProduceBlock demo_node call_now e = Some (None, e')"
    "exec_inv demo_node mem_view pendings_ok st' e'" "LastBlockHeight st' = LastBlockHeight (initial_state (xgenesis demo_node) root) + 1"
    "GetBlockData (xstore demo_node) (edb e') (LastBlockHeight st') = Inr (sh, d)"
    "Txs d = respBatch \<lparr>respBatch = b, respTimestamp = 1000, BatchData = []\<rparr>"
    using ProduceBlock_adds [OF demo_base inv demo_can [OF five e]] by blast
  then show thesis using that [of e' st' sh d] by simp
qed

text \<open>A run of two steps: the node starts on an empty store and produces its first block.\<close>

lemma demo_first_block:
  obtains e1 b sh d root where "node_step demo_node pendings_ok (Down []) (Running (start_loop demo_node 0 e1) e1)"
    and "exec_inv demo_node mem_view pendings_ok (initial_state (xgenesis demo_node) root) e1"
    and "node_step demo_node pendings_ok (Running (start_loop demo_node 0 e1) e1) b"
    and "GetBlockData demo_store (node_db b) 1 = Inr (sh, d)" and "Txs d = [[9]]"
proof -
  obtain e0 e1 root where s: "NewExecutor demo_node \<lparr>tracking_done = False, lastHeaderHashErrCount = 0\<rparr> [] 5 [[[9]]] demo_pendings () = Inr e0"
    "Executor_Start demo_node e0 = Some (None, e1)"
    and i: "exec_inv demo_node mem_view pendings_ok (initial_state (xgenesis demo_node) root) e1"
    and f: "elayer e1 = 5" "eseq e1 = [[[9]]]" "\<not> hasPendingBlock e1"
    by (rule demo_starts)
  obtain e' st' sh d where p: "ProduceBlock demo_node call_now e1 = Some (None, e')"
    "GetBlockData demo_store (edb e') 1 = Inr (sh, d)" "Txs d = [[9]]"
    by (rule demo_produces [OF i f])
  have "\<exists>l'. loop_step demo_node (BlockTick call_now 0) (start_loop demo_node 0 e1, e1) = Some (l', e')" using p(1) by simp
  then obtain l' where "node_step demo_node pendings_ok (Running (start_loop demo_node 0 e1) e1) (Running l' e')"
    using node_step.tick by blast
  moreover have "node_step demo_node pendings_ok (Down []) (Running (start_loop demo_node 0 e1) e1)"
    by (rule node_step.start [where cok = pendings_ok, OF s(1) demo_node_sel(12) s(2)])
  ultimately show thesis using that [of e1 root "Running l' e'" sh d] i p(2,3) by simp
qed



theorem produce_block_outcome_witness:
  "\<exists>e e' sh d. ProduceBlock demo_node call_now e = Some (None, e') \<and>
     GetBlockData demo_store (edb e') 1 = Inr (sh, d) \<and> from_batch demo_node [[[9]]] d"
proof -
  obtain e0 e root where i: "exec_inv demo_node mem_view pendings_ok (initial_state (xgenesis demo_node) root) e"
    and f: "elayer e = 5" "eseq e = [[[9]]]" "\<not> hasPendingBlock e"
    by (rule demo_starts [of "\<lparr>tracking_done = False, lastHeaderHashErrCount = 0\<rparr>" 5 "[[[9]]]"])
  obtain e' st' where p: "ProduceBlock demo_node call_now e = Some (None, e')"
    and s: "exec_inv demo_node mem_view pendings_ok st' e'" "LastBlockHeight st' = 1" by (rule demo_produces [OF i f])
  have "lastState e' \<noteq> Some (initial_state (xgenesis demo_node) root)" using s by (auto simp: exec_inv_def)
  then have "\<not> exec_inv demo_node mem_view pendings_ok (initial_state (xgenesis demo_node) root) e'" by (simp add: exec_inv_def)
  then obtain st2 :: State and sh d where "LastBlockHeight st2 = LastBlockHeight (initial_state (xgenesis demo_node) root) + 1"
    "GetBlockData (xstore demo_node) (edb e') (LastBlockHeight st2) = Inr (sh, d)" "from_batch demo_node (eseq e) d"
    using produce_block_outcome [OF demo_base i p] f(3) by blast
  then have "\<exists>sh d. GetBlockData demo_store (edb e') 1 = Inr (sh, d) \<and> from_batch demo_node [[[9]]] d"
    using f(2) by auto
  then show ?thesis using p by blast
qed

theorem produce_block_succeeds_witness:
  "\<exists>e e' sh d. ProduceBlock demo_node call_now e = Some (None, e') \<and> GetBlockData demo_store (edb e') 1 = Inr (sh, d) \<and>
     Txs d = [[9]]"
proof -
  obtain e0 e root where i: "exec_inv demo_node mem_view pendings_ok (initial_state (xgenesis demo_node) root) e"
    and f: "elayer e = 5" "eseq e = [[[9]]]" "\<not> hasPendingBlock e"
    by (rule demo_starts [of "\<lparr>tracking_done = False, lastHeaderHashErrCount = 0\<rparr>" 5 "[[[9]]]"])
  have five: "\<not> (5 :: u64) < 5" by simp
  obtain e' and st' :: State and sh d where "ProduceBlock demo_node call_now e = Some (None, e')"
    "LastBlockHeight st' = LastBlockHeight (initial_state (xgenesis demo_node) root) + 1"
    "GetBlockData (xstore demo_node) (edb e') (LastBlockHeight st') = Inr (sh, d)"
    "Txs d = respBatch \<lparr>respBatch = [[9]], respTimestamp = 1000, BatchData = []\<rparr>"
    using produce_block_succeeds [OF demo_base i demo_can [OF five f]] by blast
  then have "ProduceBlock demo_node call_now e = Some (None, e') \<and> GetBlockData demo_store (edb e') 1 = Inr (sh, d) \<and> Txs d = [[9]]" by simp
  then show ?thesis by blast
qed


text \<open>The execution layer fails all five attempts of the first call, so the first batch is lost; the second call
  produces the block of the second batch.\<close>

lemma demo_fails:
  assumes inv: "exec_inv demo_node mem_view pendings_ok (initial_state (xgenesis demo_node) root) e"
    and e: "elayer e = 0" "eseq e = b # bs" "\<not> hasPendingBlock e"
  obtains err e1 where "ProduceBlock demo_node call_now e = Some (Some err, e1)" and "lastState e1 = lastState e"
    and "exec_inv demo_node mem_view pendings_ok (initial_state (xgenesis demo_node) root) e1"
    and "elayer e1 = 5" and "eseq e1 = bs" and "\<not> hasPendingBlock e1"
proof -
  define st where "st = initial_state (xgenesis demo_node) root"
  have b: "q_GetNextBatch (xseq demo_node) (eseq e) (batch_request demo_node) =
      Some (Inr (Some \<lparr>respBatch = b, respTimestamp = 1000, BatchData = []\<rparr>), bs)" using e(2) by (simp add: list_sequencer_def)
  obtain i where i: "last_block_info demo_node e (LastBlockHeight st + 1) = Inr i"
    using last_info_known [of e 1 demo_node] by (auto simp: st_def)
  have w: "store_works (xstore demo_node)" "encodes (tenv (xstore demo_node))" "signer_works demo_node" by simp_all
  obtain sh d e' where n: "new_block demo_node (LastBlockHeight st + 1) e = Some (Inr (Some (sh, d)), e')"
    "elayer e' = 0" "eseq e' = bs" using new_block_works [OF w i b] e(1) by auto
  have p: "prepares demo_node mem_view pendings_ok st e e'"
    using new_block_outcome [OF demo_base(1-3) _ _ n(1)] inv by (simp add: st_def)
  then have i': "exec_inv demo_node mem_view pendings_ok st e'" "\<not> hasPendingBlock e'" using e(3) by (simp_all add: prepares_def)
  have x: "executeTxsWithRetry shaky_ops call_now 0 txs h s =
      (Inl (Wrap ''failed to execute transactions'' (Msg ''execution layer down'')), 5)" for txs h s
  proof -
    have m: "MaxRetriesBeforeHalt = Suc (Suc (Suc (Suc (Suc 0))))" by (simp add: MaxRetriesBeforeHalt_def)
    show ?thesis unfolding executeTxsWithRetry_def m execute_attempts.simps by (simp add: m call_now_def shaky_ops_def)
  qed
  obtain err e1 where f: "finish_block demo_node call_now st (LastBlockHeight st + 1) sh d e' = (Some err, e1)"
    "core e1 = core e'" "elayer e1 = 5" "eseq e1 = bs"
    using n(2,3) by (simp add: finish_block_def has_quorum_def ApplyBlock_def Let_def x core_steps(1))
      (simp add: core_def sendCriticalError_def split: option.splits)
  have "ProduceBlock demo_node call_now e = Some (Some err, e1)"
    using f(1) n(1) e(3) getLastState_inv [OF inv, folded st_def]
    by (simp add: ProduceBlock_def has_quorum_def pending_limit_reached_def Let_def pending_or_new_def call_now_def)
  moreover have "exec_inv demo_node mem_view pendings_ok st e1" using i'(1) exec_inv_core [OF f(2)] by simp
  moreover have "lastState e1 = lastState e" "\<not> hasPendingBlock e1"
    using f(2) i' inv by (simp_all add: core_def exec_inv_def st_def)
  ultimately show thesis using that f(3,4) unfolding st_def by blast
qed

theorem failed_block_not_retried_witness:
  "\<exists>e err e1 e2 sh d. eseq e = [[[8]], [[9]]] \<and> ProduceBlock demo_node call_now e = Some (Some err, e1) \<and>
     ProduceBlock demo_node call_now e1 = Some (None, e2) \<and> GetBlockData demo_store (edb e2) 1 = Inr (sh, d) \<and> Txs d = [[9]]"
proof -
  obtain e0 e root where i: "exec_inv demo_node mem_view pendings_ok (initial_state (xgenesis demo_node) root) e"
    and f: "elayer e = 0" "eseq e = [[[8]], [[9]]]" "\<not> hasPendingBlock e"
    by (rule demo_starts [of "\<lparr>tracking_done = False, lastHeaderHashErrCount = 0\<rparr>" 0 "[[[8]], [[9]]]"])
  obtain err e1 where p1: "ProduceBlock demo_node call_now e = Some (Some err, e1)" "lastState e1 = lastState e"
    and i1: "exec_inv demo_node mem_view pendings_ok (initial_state (xgenesis demo_node) root) e1"
    and f1: "elayer e1 = 5" "eseq e1 = [[[9]]]" "\<not> hasPendingBlock e1"
    by (rule demo_fails [OF i f])
  obtain e2 and st2 :: State where p2: "ProduceBlock demo_node call_now e1 = Some (None, e2)"
    "exec_inv demo_node mem_view pendings_ok st2 e2" "LastBlockHeight st2 = 1" by (rule demo_produces [OF i1 f1])
  have "lastState e2 \<noteq> lastState e1" using i1 p2(2,3) by (auto simp: exec_inv_def)
  then obtain res s sh d where "q_GetNextBatch (xseq demo_node) (eseq e1) (batch_request demo_node) = Some (Inr (Some res), s)"
    "GetBlockData (xstore demo_node) (edb e2) (LastBlockHeight (initial_state (xgenesis demo_node) root) + 1) = Inr (sh, d)"
    "Txs d = respBatch res"
    using failed_block_not_retried [OF demo_base i f(3) p1 p2(1)] by blast
  then have "GetBlockData demo_store (edb e2) 1 = Inr (sh, d) \<and> Txs d = [[9]]" using f1(2) by (auto simp: list_sequencer_def)
  then show ?thesis using f(2) p1(1) p2(1) by blast
qed

end
