(* ===== verification/Spec2Isabelle.thy ===== *)
theory Spec2Isabelle
  imports Epoch Queue_Log Store_Spec Sequencer_Edge Sequencer_Liveness Executor_Live
begin

text \<open>
  A verification of the sovereign-rollup node of this repository: a node that orders transactions, includes the
  ones forced through a DA layer, makes blocks of them, has an execution layer run them, and keeps the chain in
  a store. Each theory models the files it names, one definition per function or method under its name in the
  source; records are the structs, with the databases and the remote parties they point to passed along as
  state. Errors are values: a result is \<^verbatim>\<open>goerr + 'a\<close>, with the sentinel errors, messages and wrapping of the
  source. Heights and the other \<^verbatim>\<open>uint64\<close> values are 64-bit words that wrap; times are integers in nanoseconds.

  \<^bold>\<open>How the parts work together.\<close> Users submit batches to the queue of the single sequencer, and post blobs to a
  namespace of the DA layer. The forced-inclusion retriever reads the blobs of an epoch of DA heights; the
  sequencer puts them before the mempool batches, and remembers where it is in a checkpoint. The block producer
  takes the next batch, makes a block of it, saves it as pending, executes it, signs it and commits block,
  height and state to the store in one batch. The pending headers and data wait there for submission to the DA
  layer. After a crash the replayer brings the execution layer to the height of the store.

  \<^bold>\<open>The theories.\<close>
  \<^item> \<open>Prelude\<close>, \<open>Loops\<close>: errors, words, byte strings, hex and decimal notation; loops over \<^verbatim>\<open>uint64\<close> ranges as
    partial functions, so that a loop up to the largest word whose body never leaves it, and which so never ends,
    has the value \<open>None\<close>.
  \<^item> \<open>Epoch\<close>: \<^verbatim>\<open>src/types/epoch.go\<close>. The epochs tile the DA heights.
  \<^item> \<open>Datastore\<close>, \<open>Lru\<close>: the interfaces of go-datastore and of the LRU cache, with the laws the code relies on
    (\<open>datastore_ok\<close>, \<open>lru_ok\<close>) and an instance in memory that keeps them.
  \<^item> \<open>Queue\<close>, \<open>Queue_Log\<close>: \<^verbatim>\<open>src/pkg/sequencers/single/queue.go\<close>. The queue refines a list, and its log gives
    back every live batch after any run of operations, failures and restarts.
  \<^item> \<open>Sha256\<close>, \<open>Wire\<close>, \<open>Types\<close>, \<open>Serialization\<close>, \<open>Validation\<close>: \<^verbatim>\<open>src/types\<close> and the messages of
    \<^verbatim>\<open>src/proto/evnode/v1\<close>. SHA-256 is defined in full; the protobuf codecs are parameters that decode what they
    encode, with an instance. Round trips of all formats, what an accepted header guarantees, and that accepted
    blocks form a chain. The decoder of legacy fields runs with the length of its input as fuel, which is enough
    as every field takes a byte.
  \<^item> \<open>Store\<close>, \<open>Store_Spec\<close>: \<^verbatim>\<open>src/pkg/store\<close> (\<^verbatim>\<open>keys.go\<close>, \<^verbatim>\<open>store.go\<close>, \<^verbatim>\<open>batch.go\<close>). What a commit, a rollback
    and a pruning do to every entry.
  \<^item> \<open>DA_Layer\<close>, \<open>Forced_Inclusion\<close>: \<^verbatim>\<open>src/pkg/da\<close> and \<^verbatim>\<open>src/block/internal/da\<close>. Submission, namespaces, and
    that the prefetching retriever returns exactly the blobs of an epoch, whatever it cached.
  \<^item> \<open>Checkpoint_Store\<close>, \<open>Single_Sequencer\<close>, \<open>Based_Sequencer\<close>, \<open>Sequencer_Spec\<close>, \<open>Sequencer_Run\<close>,
    \<open>Sequencer_Edge\<close>, \<open>Sequencer_Liveness\<close>: \<^verbatim>\<open>src/pkg/sequencers\<close> and \<^verbatim>\<open>src/pkg/genesis/genesis.go\<close>. Over any run
    with restarts the forced transactions are consumed exactly once and in order, the mempool is conserved,
    catching up behaves as the based sequencer and ends; and the cases where errors lose transactions.
  \<^item> \<open>Replayer\<close>: \<^verbatim>\<open>src/block/internal/common/replay.go\<close> over the execution interface of
    \<^verbatim>\<open>src/core/execution/execution.go\<close>.
  \<^item> \<open>Pending\<close>: \<^verbatim>\<open>src/block/internal/cache/pending_base.go\<close>, \<^verbatim>\<open>pending_headers.go\<close>, \<^verbatim>\<open>pending_data.go\<close>.
  \<^item> \<open>Executor\<close>: \<^verbatim>\<open>src/block/internal/executing/executor.go\<close> and \<^verbatim>\<open>pending.go\<close>, from \<^verbatim>\<open>NewExecutor\<close> and
    \<^verbatim>\<open>Start\<close> to \<^verbatim>\<open>ProduceBlock\<close>, the execution loop and \<^verbatim>\<open>Stop\<close>. Calls that may not return give an option;
    the attempts to execute a block are bounded by the constant of the source.
  \<^item> \<open>Executor_Spec\<close>, \<open>Node_Run\<close>, \<open>Executor_Live\<close>: the specification of the producer (\<open>fits\<close>, \<open>follows\<close>,
    \<open>exec_inv\<close>), the interface it needs of the cache (the locale \<open>submission_cache\<close>, interpreted on the model of
    \<open>Pending\<close>), and the node as a state machine with stops, crashes and restarts. From an empty store every
    block of the chain follows the one before, the chain is append-only, every call adds at most one block, and
    with working parts it adds one.

  \<^bold>\<open>Parameters.\<close> The datastore, the protobuf codecs, the LRU cache, the DA node, the libp2p keys, the execution
  layer and raft are code outside of this repository or behind an interface. Each is an argument of the
  definitions; what is assumed of it is a named hypothesis of the theorems (such as \<open>store_ok\<close>, \<open>codecs_ok\<close>,
  \<open>rpc_honest\<close>) that the instance of the witnesses satisfies. In the safety properties of
  the producer nothing is assumed of the execution layer, of raft or of the sequencer behind its interface.

  \<^bold>\<open>Bounds.\<close> Where a height could pass the largest 64-bit word the theorems say so: \<open>LastBlockHeight st < - 1\<close>, or
  a number of steps that stays below \<open>2 ^ 64\<close>. Nothing is bounded otherwise.

  \<^bold>\<open>Not modelled.\<close> Logging, metrics and tracing have no effect on the state and are left out. The syncing and
  submission components, node assembly, raft, P2P and RPC are goroutines, timers and transport around the modelled
  operations: their interleavings are those of the Go scheduler and of libraries that are not in this repository.
  The CosmWasm application is third-party code behind the execution interface, and the client SDK, the tools and
  the scripts are not part of the node. Reads of the store by one goroutine while another one writes are not
  modelled: the operations are atomic steps, as the mutexes of the source make them within one component.
\<close>

end
